theory Spec2Isabelle
  imports Main "HOL-Library.AList" "HOL-Library.Char_ord" "HOL-Library.List_Lexorder"
    "HOL-Library.Product_Lexorder"
begin

section \<open>The storage engine behind the \<^verbatim>\<open>DB\<close> binding\<close>

text \<open>
  The repository talks to a Cloudflare D1 database, which is SQLite, through prepared
  statements. This section models the part of SQLite that the statements of
  \<^verbatim>\<open>database.js\<close> use. A value is NULL, an integer or a text; a table is its column
  declarations, its rows in rowid order and the AUTOINCREMENT counter. Column type
  affinity is not modelled: a bound value is stored as it is bound, which is what SQLite
  does with NULL and with every text that is not a numeric literal.
\<close>

datatype sqlval = NULL | INTEGER int | TEXT string

datatype coldefault = NoDefault | DefaultText string | DefaultCurrentTimestamp

text \<open>
  A column declaration: name, declared type, \<^verbatim>\<open>PRIMARY KEY AUTOINCREMENT\<close>,
  \<^verbatim>\<open>NOT NULL\<close>, \<^verbatim>\<open>CHECK(c IN (...))\<close>, \<^verbatim>\<open>DEFAULT\<close>, and the parent table of a
  \<^verbatim>\<open>FOREIGN KEY (c) REFERENCES parent(id)\<close>.
\<close>

datatype column = Column
  (col_name: string) (col_type: string) (col_pk: bool) (col_notnull: bool)
  (col_check: "string list option") (col_default: coldefault) (col_references: "string option")

type_synonym row = "(string \<times> sqlval) list"

record table =
  cols :: "column list"
  rows :: "row list"
  seq :: int

datatype ddl = CreateTableIfNotExists string | AlterTableAddColumn string string

text \<open>
  The database: its tables by name, the value of \<^verbatim>\<open>last_insert_rowid()\<close>, the reading
  of \<^verbatim>\<open>CURRENT_TIMESTAMP\<close> (a text \<^verbatim>\<open>YYYY-MM-DD HH:MM:SS\<close>, set by the environment) and
  the structure statements the engine has been sent, latest last.
\<close>

record database =
  tables :: "(string \<times> table) list"
  last_insert_rowid :: int
  current_timestamp :: string
  ddl_log :: "ddl list"

definition get_table :: "database \<Rightarrow> string \<Rightarrow> table option" where
  "get_table db tname = map_of (tables db) tname"

definition put_table :: "database \<Rightarrow> string \<Rightarrow> table \<Rightarrow> database" where
  "put_table db tname t = db\<lparr>tables := AList.update tname t (tables db)\<rparr>"

datatype error =
    TypeError
  | NoSuchTable string
  | NoSuchColumn string
  | DuplicateColumn string
  | NotNullViolation string
  | CheckViolation string
  | ForeignKeyViolation string
  | Error string

text \<open>
  What \<^verbatim>\<open>run()\<close> resolves to. D1 rejects the promise when the statement fails, so a
  result that is returned always has \<^verbatim>\<open>success = true\<close>; the number of rows written is
  \<^verbatim>\<open>meta.changes\<close>.
\<close>

record d1_result =
  success :: bool
  changes :: nat

definition cell :: "row \<Rightarrow> string \<Rightarrow> sqlval" where
  "cell r c = (case map_of r c of Some v \<Rightarrow> v | None \<Rightarrow> NULL)"

definition has_col :: "table \<Rightarrow> string \<Rightarrow> bool" where
  "has_col t c = (c \<in> set (map col_name (cols t)))"

definition rowid :: "row \<Rightarrow> int" where
  "rowid r = (case cell r ''id'' of INTEGER i \<Rightarrow> i | _ \<Rightarrow> 0)"

text \<open>
  AUTOINCREMENT: the new rowid is one more than the largest rowid the table has ever
  held (the counter of \<^verbatim>\<open>sqlite_sequence\<close>) and than the largest one it holds now.
\<close>

definition next_rowid :: "table \<Rightarrow> int" where
  "next_rowid t = fold max (map rowid (rows t)) (max (seq t) 0) + 1"

definition default_value :: "string \<Rightarrow> coldefault \<Rightarrow> sqlval" where
  "default_value now d =
     (case d of NoDefault \<Rightarrow> NULL | DefaultText s \<Rightarrow> TEXT s | DefaultCurrentTimestamp \<Rightarrow> TEXT now)"

text \<open>The row an INSERT builds: the new rowid, the bound values, the defaults.\<close>

definition build_row :: "column list \<Rightarrow> (string \<times> sqlval) list \<Rightarrow> int \<Rightarrow> string \<Rightarrow> row" where
  "build_row cs assigns newid now =
     map (\<lambda>c. (col_name c,
            if col_pk c then INTEGER newid
            else (case map_of assigns (col_name c) of
                    Some v \<Rightarrow> v
                  | None \<Rightarrow> default_value now (col_default c)))) cs"

text \<open>
  The constraints of one column on a value. A CHECK whose expression is NULL passes,
  as in SQLite; text comparison is exact (BINARY collation).
\<close>

definition check_column :: "column \<Rightarrow> sqlval \<Rightarrow> error option" where
  "check_column c v =
     (if col_notnull c \<and> v = NULL then Some (NotNullViolation (col_name c))
      else (case col_check c of
              None \<Rightarrow> None
            | Some allowed \<Rightarrow>
                if v \<noteq> NULL \<and> v \<notin> set (map TEXT allowed)
                then Some (CheckViolation (col_name c)) else None))"

fun first_error :: "error option list \<Rightarrow> error option" where
  "first_error [] = None"
| "first_error (None # es) = first_error es"
| "first_error (Some e # es) = Some e"

definition check_row :: "column list \<Rightarrow> row \<Rightarrow> error option" where
  "check_row cs r = first_error (map (\<lambda>c. check_column c (cell r (col_name c))) cs)"

text \<open>
  Foreign keys are enforced (D1 runs with \<^verbatim>\<open>PRAGMA foreign_keys = ON\<close>): a value that
  is not NULL must be the id of a row of the parent table.
\<close>

definition check_fk :: "database \<Rightarrow> column \<Rightarrow> sqlval \<Rightarrow> error option" where
  "check_fk db c v =
     (case col_references c of
        None \<Rightarrow> None
      | Some parent \<Rightarrow>
          if v = NULL then None
          else (case get_table db parent of
                  None \<Rightarrow> Some (NoSuchTable parent)
                | Some p \<Rightarrow>
                    if v \<in> set (map (\<lambda>r. cell r ''id'') (rows p)) then None
                    else Some (ForeignKeyViolation (col_name c))))"

definition check_fks :: "database \<Rightarrow> column list \<Rightarrow> row \<Rightarrow> error option" where
  "check_fks db cs r = first_error (map (\<lambda>c. check_fk db c (cell r (col_name c))) cs)"

text \<open>
  \<^verbatim>\<open>INSERT INTO tname (c1, ..., cn) VALUES (?, ..., ?)\<close> with the values bound. A
  failing statement changes nothing.
\<close>

definition insert_into ::
  "database \<Rightarrow> string \<Rightarrow> (string \<times> sqlval) list \<Rightarrow> (error + d1_result) \<times> database" where
  "insert_into db tname assigns =
     (case get_table db tname of
        None \<Rightarrow> (Inl (NoSuchTable tname), db)
      | Some t \<Rightarrow>
          (case filter (\<lambda>c. \<not> has_col t c) (map fst assigns) of
             c # _ \<Rightarrow> (Inl (NoSuchColumn c), db)
           | [] \<Rightarrow>
               let newid = next_rowid t;
                   r = build_row (cols t) assigns newid (current_timestamp db)
               in (case check_row (cols t) r of
                     Some e \<Rightarrow> (Inl e, db)
                   | None \<Rightarrow>
                       (case check_fks db (cols t) r of
                          Some e \<Rightarrow> (Inl e, db)
                        | None \<Rightarrow>
                            (Inr \<lparr>success = True, changes = 1\<rparr>,
                             (put_table db tname (t\<lparr>rows := rows t @ [r], seq := newid\<rparr>))
                               \<lparr>last_insert_rowid := newid\<rparr>)))))"

text \<open>
  \<^verbatim>\<open>UPDATE tname SET c1 = v1, ... WHERE p\<close>: every row that satisfies \<open>p\<close> gets the new
  values, the constraints of the columns set are checked on the rows written, and the
  result counts them.
\<close>

fun set_cells :: "(string \<times> sqlval) list \<Rightarrow> row \<Rightarrow> row" where
  "set_cells [] r = r"
| "set_cells ((c, v) # sets) r = set_cells sets (AList.update c v r)"

definition update_where ::
  "database \<Rightarrow> string \<Rightarrow> (string \<times> sqlval) list \<Rightarrow> string list \<Rightarrow> (row \<Rightarrow> bool)
     \<Rightarrow> (error + d1_result) \<times> database" where
  "update_where db tname sets where_cols p =
     (case get_table db tname of
        None \<Rightarrow> (Inl (NoSuchTable tname), db)
      | Some t \<Rightarrow>
          (case filter (\<lambda>c. \<not> has_col t c) (map fst sets @ where_cols) of
             c # _ \<Rightarrow> (Inl (NoSuchColumn c), db)
           | [] \<Rightarrow>
               let written = map (set_cells sets) (filter p (rows t)) in
               (case first_error (map (check_row (filter (\<lambda>c. col_name c \<in> set (map fst sets)) (cols t))) written) of
                  Some e \<Rightarrow> (Inl e, db)
                | None \<Rightarrow>
                    (Inr \<lparr>success = True, changes = length written\<rparr>,
                     put_table db tname
                       (t\<lparr>rows := map (\<lambda>r. if p r then set_cells sets r else r) (rows t)\<rparr>)))))"

text \<open>\<^verbatim>\<open>CREATE TABLE IF NOT EXISTS\<close>: nothing happens when the table is there.\<close>

definition create_table_if_not_exists ::
  "database \<Rightarrow> string \<Rightarrow> column list \<Rightarrow> (error + d1_result) \<times> database" where
  "create_table_if_not_exists db tname cs =
     (let db1 = db\<lparr>ddl_log := ddl_log db @ [CreateTableIfNotExists tname]\<rparr> in
      case get_table db tname of
        Some _ \<Rightarrow> (Inr \<lparr>success = True, changes = 0\<rparr>, db1)
      | None \<Rightarrow>
          (Inr \<lparr>success = True, changes = 0\<rparr>,
           put_table db1 tname \<lparr>cols = cs, rows = [], seq = 0\<rparr>))"

text \<open>
  \<^verbatim>\<open>ALTER TABLE tname ADD COLUMN c ... NOT NULL DEFAULT 'd'\<close>: an error when the table is
  missing or has the column; otherwise the rows there read the default in the new
  column.
\<close>

definition alter_table_add_column ::
  "database \<Rightarrow> string \<Rightarrow> column \<Rightarrow> (error + d1_result) \<times> database" where
  "alter_table_add_column db tname c =
     (let db1 = db\<lparr>ddl_log := ddl_log db @ [AlterTableAddColumn tname (col_name c)]\<rparr> in
      case get_table db tname of
        None \<Rightarrow> (Inl (NoSuchTable tname), db1)
      | Some t \<Rightarrow>
          if has_col t (col_name c) then (Inl (DuplicateColumn (col_name c)), db1)
          else
            (Inr \<lparr>success = True, changes = 0\<rparr>,
             put_table db1 tname
               (t\<lparr>cols := cols t @ [c],
                  rows := map (AList.update (col_name c)
                                 (default_value (current_timestamp db) (col_default c))) (rows t)\<rparr>)))"


text \<open>
  Decimal text of an integer: \<^verbatim>\<open>toString()\<close> of a JavaScript integer, and the text
  SQLite gives an integer inside \<^verbatim>\<open>GROUP_CONCAT\<close>.
\<close>

fun dec :: "nat \<Rightarrow> string" where
  "dec n = (if n < 10 then [''0123456789'' ! n] else dec (n div 10) @ [''0123456789'' ! (n mod 10)])"

declare dec.simps [simp del]

definition toString :: "int \<Rightarrow> string" where
  "toString i = (if i < 0 then CHR ''-'' # dec (nat (- i)) else dec (nat i))"

text \<open>
  \<^verbatim>\<open>GROUP_CONCAT(X)\<close>: the values of the group that are not NULL, joined with commas
  in the order the rows are visited (rowid order here, since \<^verbatim>\<open>excluded_tickets\<close> has no
  index the join could use); NULL when there is none.
\<close>

fun join_comma :: "string list \<Rightarrow> string" where
  "join_comma [] = []"
| "join_comma [x] = x"
| "join_comma (x # y # ys) = x @ CHR '','' # join_comma (y # ys)"

fun texts :: "sqlval list \<Rightarrow> string list" where
  "texts [] = []"
| "texts (NULL # vs) = texts vs"
| "texts (INTEGER i # vs) = toString i # texts vs"
| "texts (TEXT s # vs) = s # texts vs"

definition group_concat :: "sqlval list \<Rightarrow> sqlval" where
  "group_concat vs = (case texts vs of [] \<Rightarrow> NULL | ts \<Rightarrow> TEXT (join_comma ts))"

text \<open>
  The query both fetch functions share:
  \<^verbatim>\<open>SELECT r.*, GROUP_CONCAT(et.ticket_key) as excluded_tickets,
     GROUP_CONCAT(et.ticket_summary) as ticket_summaries,
     GROUP_CONCAT(et.ticket_url) as ticket_urls
   FROM releases r LEFT JOIN excluded_tickets et ON r.id = et.release_id
   WHERE ... GROUP BY r.id\<close>.
  The primary key makes every release row a group of its own, and the groups come in
  rowid order. A result row is the release's columns followed by the three aggregates
  (which, as keys of the JavaScript object, would replace a column of the same name).
\<close>

definition tickets_of :: "table \<Rightarrow> row \<Rightarrow> row list" where
  "tickets_of et r =
     filter (\<lambda>e. cell r ''id'' \<noteq> NULL \<and> cell e ''release_id'' = cell r ''id'') (rows et)"

definition with_tickets :: "table \<Rightarrow> row \<Rightarrow> row" where
  "with_tickets et r =
     set_cells
       [(''excluded_tickets'', group_concat (map (\<lambda>e. cell e ''ticket_key'') (tickets_of et r))),
        (''ticket_summaries'', group_concat (map (\<lambda>e. cell e ''ticket_summary'') (tickets_of et r))),
        (''ticket_urls'', group_concat (map (\<lambda>e. cell e ''ticket_url'') (tickets_of et r)))]
       r"

definition select_releases ::
  "database \<Rightarrow> string list \<Rightarrow> (row \<Rightarrow> bool) \<Rightarrow> error + row list" where
  "select_releases db where_cols p =
     (case get_table db ''releases'' of
        None \<Rightarrow> Inl (NoSuchTable ''releases'')
      | Some r \<Rightarrow>
          (case get_table db ''excluded_tickets'' of
             None \<Rightarrow> Inl (NoSuchTable ''excluded_tickets'')
           | Some et \<Rightarrow>
               (case filter (\<lambda>c. \<not> has_col r c) (''id'' # where_cols) @
                     filter (\<lambda>c. \<not> has_col et c)
                       [''release_id'', ''ticket_key'', ''ticket_summary'', ''ticket_url''] of
                  c # _ \<Rightarrow> Inl (NoSuchColumn c)
                | [] \<Rightarrow> Inr (map (with_tickets et) (filter p (rows r))))))"

text \<open>
  The order of SQLite's values: NULL, then the integers, then the texts byte by byte.
  \<^verbatim>\<open>ORDER BY c DESC\<close> sorts on it; rows with equal keys come in no promised order (the
  later row first, here).
\<close>

definition sort_rank :: "sqlval \<Rightarrow> nat \<times> int \<times> string" where
  "sort_rank v = (case v of NULL \<Rightarrow> (0, 0, []) | INTEGER i \<Rightarrow> (1, i, []) | TEXT s \<Rightarrow> (2, 0, s))"

definition order_by_desc :: "string \<Rightarrow> row list \<Rightarrow> row list" where
  "order_by_desc c rs = rev (sort_key (\<lambda>r. sort_rank (cell r c)) rs)"

text \<open>\<^verbatim>\<open>LIMIT n\<close>: a negative \<open>n\<close> is no limit.\<close>

definition limit_rows :: "int \<Rightarrow> row list \<Rightarrow> row list" where
  "limit_rows n rs = (if n < 0 then rs else take (nat n) rs)"

section \<open>The key-value binding and \<^verbatim>\<open>parseInt\<close>\<close>

text \<open>
  \<^verbatim>\<open>env.APP_STATE\<close> is a key-value namespace; \<^verbatim>\<open>get\<close> of an absent key is \<^verbatim>\<open>null\<close>. A
  binding that is not configured is \<^verbatim>\<open>undefined\<close>, and calling a method on it throws
  a TypeError.
\<close>

record env =
  APP_STATE :: "(string \<times> string) list option"
  JIRA_BASE_URL :: "string option"
  JIRA_USER_EMAIL :: "string option"
  JIRA_API_TOKEN :: "string option"

text \<open>
  \<^verbatim>\<open>parseInt(s)\<close> with no radix: leading white space, a sign, \<^verbatim>\<open>0x\<close> for base 16, then
  the longest run of digits; NaN (\<open>None\<close>) when there is no digit. The result is read
  here as an exact integer: the code only asks whether it is zero and whether it is
  below the schema version, which rounding to a double does not change. Strings are
  ASCII.
\<close>

definition is_white_space :: "char \<Rightarrow> bool" where
  "is_white_space c = (c \<in> set [CHR '' '', CHR 0x09, CHR 0x0A, CHR 0x0B, CHR 0x0C, CHR 0x0D])"

definition digit_of :: "char \<Rightarrow> nat option" where
  "digit_of c =
     map_of (zip ''0123456789abcdef'' [0 ..< 16] @ zip ''ABCDEF'' [10 ..< 16]) c"

definition is_digit :: "nat \<Rightarrow> char \<Rightarrow> bool" where
  "is_digit radix c = (case digit_of c of Some d \<Rightarrow> d < radix | None \<Rightarrow> False)"

definition digits_value :: "nat \<Rightarrow> string \<Rightarrow> nat" where
  "digits_value radix ds =
     foldl (\<lambda>a c. a * radix + (case digit_of c of Some d \<Rightarrow> d | None \<Rightarrow> 0)) 0 ds"

definition parseInt :: "string \<Rightarrow> int option" where
  "parseInt str =
     (let s = dropWhile is_white_space str;
          neg = (take 1 s = ''-'');
          s1 = (if take 1 s = ''-'' \<or> take 1 s = ''+'' then drop 1 s else s);
          hex = (take 2 s1 = ''0x'' \<or> take 2 s1 = ''0X'');
          radix = (if hex then 16 else 10);
          s2 = (if hex then drop 2 s1 else s1);
          ds = takeWhile (is_digit radix) s2
      in if ds = [] then None
         else Some ((if neg then - 1 else 1) * int (digits_value radix ds)))"

text \<open>\<^verbatim>\<open>parseInt(await env.APP_STATE.get(key)) || 0\<close>: \<^verbatim>\<open>null\<close> is read as the text "null".\<close>

definition parseInt_or_0 :: "string option \<Rightarrow> int" where
  "parseInt_or_0 v =
     (case parseInt (case v of None \<Rightarrow> ''null'' | Some s \<Rightarrow> s) of None \<Rightarrow> 0 | Some n \<Rightarrow> n)"

section \<open>Schema management (\<^verbatim>\<open>database.js\<close>)\<close>

definition CURRENT_SCHEMA_VERSION :: int where
  "CURRENT_SCHEMA_VERSION = 2"

definition releases_columns :: "column list" where
  "releases_columns =
     [Column ''id'' ''INTEGER'' True False None NoDefault None,
      Column ''release_date'' ''DATE'' False True None NoDefault None,
      Column ''status'' ''TEXT'' False True (Some [''GO'', ''NO_GO'']) NoDefault None,
      Column ''explanation'' ''TEXT'' False False None NoDefault None,
      Column ''created_by'' ''TEXT'' False True None NoDefault None,
      Column ''created_at'' ''DATETIME'' False False None DefaultCurrentTimestamp None,
      Column ''updated_by'' ''TEXT'' False False None NoDefault None,
      Column ''updated_at'' ''DATETIME'' False False None NoDefault None,
      Column ''deleted_at'' ''DATETIME'' False False None NoDefault None,
      Column ''deleted_by'' ''TEXT'' False False None NoDefault None]"

definition excluded_tickets_columns :: "column list" where
  "excluded_tickets_columns =
     [Column ''id'' ''INTEGER'' True False None NoDefault None,
      Column ''release_id'' ''INTEGER'' False True None NoDefault (Some ''releases''),
      Column ''ticket_key'' ''TEXT'' False True None NoDefault None,
      Column ''ticket_summary'' ''TEXT'' False False None NoDefault None,
      Column ''ticket_url'' ''TEXT'' False False None NoDefault None,
      Column ''created_by'' ''TEXT'' False True None NoDefault None,
      Column ''created_at'' ''DATETIME'' False False None DefaultCurrentTimestamp None]"

definition release_type_column :: column where
  "release_type_column =
     Column ''release_type'' ''TEXT'' False True (Some [''FULL'', ''HOTFIX'']) (DefaultText ''FULL'') None"

text \<open>A statement on a database handle that may be \<^verbatim>\<open>undefined\<close>.\<close>

definition on_db ::
  "database option \<Rightarrow> (database \<Rightarrow> (error + 'a) \<times> database) \<Rightarrow> (error + 'a) \<times> database option" where
  "on_db db f =
     (case db of
        None \<Rightarrow> (Inl TypeError, None)
      | Some d \<Rightarrow> (case f d of (r, d') \<Rightarrow> (r, Some d')))"

definition createInitialSchema :: "database option \<Rightarrow> (error + unit) \<times> database option" where
  "createInitialSchema db =
     (case on_db db (\<lambda>d. create_table_if_not_exists d ''releases'' releases_columns) of
        (Inl e, db1) \<Rightarrow> (Inl e, db1)
      | (Inr _, db1) \<Rightarrow>
          (case on_db db1 (\<lambda>d. create_table_if_not_exists d ''excluded_tickets'' excluded_tickets_columns) of
             (Inl e, db2) \<Rightarrow> (Inl e, db2)
           | (Inr _, db2) \<Rightarrow> (Inr (), db2)))"

definition applyMigrations :: "database option \<Rightarrow> int \<Rightarrow> (error + unit) \<times> database option" where
  "applyMigrations db currentVersion =
     (if currentVersion < 2 then
        (case on_db db (\<lambda>d. alter_table_add_column d ''releases'' release_type_column) of
           (Inl e, db1) \<Rightarrow> (Inl e, db1)
         | (Inr _, db1) \<Rightarrow> (Inr (), db1))
      else (Inr (), db))"

definition kv_put :: "env \<Rightarrow> string \<Rightarrow> string \<Rightarrow> (error + unit) \<times> env" where
  "kv_put env k v =
     (case APP_STATE env of
        None \<Rightarrow> (Inl TypeError, env)
      | Some kv \<Rightarrow> (Inr (), env\<lparr>APP_STATE := Some (AList.update k v kv)\<rparr>))"

text \<open>The body of the \<^verbatim>\<open>try\<close> block of \<^verbatim>\<open>initializeDatabase\<close>.\<close>

definition initializeDatabase_try ::
  "database option \<Rightarrow> env \<Rightarrow> (error + bool) \<times> database option \<times> env" where
  "initializeDatabase_try db env =
     (case APP_STATE env of
        None \<Rightarrow> (Inl TypeError, db, env)
      | Some kv \<Rightarrow>
          let currentVersion = parseInt_or_0 (map_of kv ''DB_SCHEMA_VERSION'') in
          (case (if currentVersion = 0 then
                   (case createInitialSchema db of
                      (Inl e, db1) \<Rightarrow> (Inl e, db1, env)
                    | (Inr _, db1) \<Rightarrow>
                        (case kv_put env ''DB_SCHEMA_VERSION'' ''1'' of
                           (Inl e, env1) \<Rightarrow> (Inl e, db1, env1)
                         | (Inr _, env1) \<Rightarrow> (Inr (), db1, env1)))
                 else (Inr (), db, env)) of
             (Inl e, db1, env1) \<Rightarrow> (Inl e, db1, env1)
           | (Inr _, db1, env1) \<Rightarrow>
               if currentVersion < CURRENT_SCHEMA_VERSION then
                 (case applyMigrations db1 currentVersion of
                    (Inl e, db2) \<Rightarrow> (Inl e, db2, env1)
                  | (Inr _, db2) \<Rightarrow>
                      (case kv_put env1 ''DB_SCHEMA_VERSION'' (toString CURRENT_SCHEMA_VERSION) of
                         (Inl e, env2) \<Rightarrow> (Inl e, db2, env2)
                       | (Inr _, env2) \<Rightarrow> (Inr True, db2, env2)))
               else (Inr True, db1, env1)))"

text \<open>\<^verbatim>\<open>initializeDatabase\<close>: the \<^verbatim>\<open>catch\<close> turns every error into \<^verbatim>\<open>false\<close>.\<close>

definition initializeDatabase ::
  "database option \<Rightarrow> env \<Rightarrow> (error + bool) \<times> database option \<times> env" where
  "initializeDatabase db env =
     (case initializeDatabase_try db env of
        (Inl e, db1, env1) \<Rightarrow> (Inr False, db1, env1)
      | (Inr b, db1, env1) \<Rightarrow> (Inr b, db1, env1))"

section \<open>The release repository (\<^verbatim>\<open>database.js\<close>)\<close>

text \<open>\<^verbatim>\<open>fetchRecentReleases(db, limit)\<close>; the \<^verbatim>\<open>catch\<close> logs and throws the error again.\<close>

definition fetchRecentReleases :: "database \<Rightarrow> int \<Rightarrow> (error + row list) \<times> database" where
  "fetchRecentReleases db limit =
     (case select_releases db [''deleted_at'', ''created_at''] (\<lambda>r. cell r ''deleted_at'' = NULL) of
        Inl e \<Rightarrow> (Inl e, db)
      | Inr rs \<Rightarrow> (Inr (limit_rows limit (order_by_desc ''created_at'' rs)), db))"

text \<open>\<^verbatim>\<open>fetchReleaseById(db, releaseId)\<close>: \<^verbatim>\<open>first()\<close> of the rows, or \<^verbatim>\<open>null\<close>.\<close>

definition fetchReleaseById :: "database \<Rightarrow> int \<Rightarrow> (error + row option) \<times> database" where
  "fetchReleaseById db releaseId =
     (case select_releases db [] (\<lambda>r. cell r ''id'' = INTEGER releaseId) of
        Inl e \<Rightarrow> (Inl e, db)
      | Inr [] \<Rightarrow> (Inr None, db)
      | Inr (r # _) \<Rightarrow> (Inr (Some r), db))"

text \<open>
  The arguments of \<^verbatim>\<open>createRelease\<close>: the fields of \<^verbatim>\<open>release\<close> and of each ticket are
  \<^verbatim>\<open>null\<close> or a string.
\<close>

record release =
  release_date :: "string option"
  status :: "string option"
  release_type :: "string option"
  explanation :: "string option"

record ticket =
  key :: "string option"
  summary :: "string option"
  url :: "string option"

definition bind :: "string option \<Rightarrow> sqlval" where
  "bind v = (case v of None \<Rightarrow> NULL | Some s \<Rightarrow> TEXT s)"

text \<open>\<^verbatim>\<open>v || null\<close>: the empty string is falsy.\<close>

definition or_null :: "string option \<Rightarrow> string option" where
  "or_null v = (case v of None \<Rightarrow> None | Some s \<Rightarrow> if s = [] then None else Some s)"

text \<open>The loop over \<^verbatim>\<open>tickets\<close>: the first insert that fails ends it.\<close>

fun insert_tickets :: "database \<Rightarrow> int \<Rightarrow> ticket list \<Rightarrow> string \<Rightarrow> (error + unit) \<times> database" where
  "insert_tickets db releaseId [] userEmail = (Inr (), db)"
| "insert_tickets db releaseId (t # ts) userEmail =
     (case insert_into db ''excluded_tickets''
             [(''release_id'', INTEGER releaseId),
              (''ticket_key'', bind (key t)),
              (''ticket_summary'', bind (summary t)),
              (''ticket_url'', bind (url t)),
              (''created_by'', TEXT userEmail)] of
        (Inl e, db1) \<Rightarrow> (Inl e, db1)
      | (Inr _, db1) \<Rightarrow> insert_tickets db1 releaseId ts userEmail)"

definition createRelease ::
  "database \<Rightarrow> release \<Rightarrow> ticket list \<Rightarrow> string \<Rightarrow> (error + row option) \<times> database" where
  "createRelease db release tickets userEmail =
     (case insert_into db ''releases''
             [(''release_date'', bind (release_date release)),
              (''status'', bind (status release)),
              (''release_type'', bind (release_type release)),
              (''explanation'', bind (or_null (explanation release))),
              (''created_by'', TEXT userEmail)] of
        (Inl e, db1) \<Rightarrow> (Inl e, db1)
      | (Inr result, db1) \<Rightarrow>
          if \<not> success result then (Inl (Error ''Failed to create release''), db1)
          else
            let releaseId = last_insert_rowid db1 in
            (case insert_tickets db1 releaseId tickets userEmail of
               (Inl e, db2) \<Rightarrow> (Inl e, db2)
             | (Inr _, db2) \<Rightarrow> fetchReleaseById db2 releaseId))"

text \<open>\<^verbatim>\<open>deleteRelease(db, releaseId, userEmail)\<close> returns \<^verbatim>\<open>result.success\<close>.\<close>

definition deleteRelease :: "database \<Rightarrow> int \<Rightarrow> string \<Rightarrow> (error + bool) \<times> database" where
  "deleteRelease db releaseId userEmail =
     (case update_where db ''releases''
             [(''deleted_at'', TEXT (current_timestamp db)), (''deleted_by'', TEXT userEmail)]
             [''id'', ''deleted_at'']
             (\<lambda>r. cell r ''id'' = INTEGER releaseId \<and> cell r ''deleted_at'' = NULL) of
        (Inl e, db1) \<Rightarrow> (Inl e, db1)
      | (Inr result, db1) \<Rightarrow> (Inr (success result), db1))"


section \<open>The ticket lookup (\<^verbatim>\<open>jiraIntegration.js\<close>)\<close>

text \<open>
  A value put into a template string: \<^verbatim>\<open>undefined\<close> for a variable of the environment
  that is not set, \<^verbatim>\<open>null\<close> for a JSON null.
\<close>

definition template_env :: "string option \<Rightarrow> string" where
  "template_env v = (case v of None \<Rightarrow> ''undefined'' | Some s \<Rightarrow> s)"

definition template_json :: "string option \<Rightarrow> string" where
  "template_json v = (case v of None \<Rightarrow> ''null'' | Some s \<Rightarrow> s)"

definition truthy :: "string option \<Rightarrow> bool" where
  "truthy v = (case v of None \<Rightarrow> False | Some s \<Rightarrow> s \<noteq> [])"

text \<open>
  \<^verbatim>\<open>fetchJiraTicketDetails(env, ticketKey)\<close>. The answer of the JIRA server is the
  parameter \<open>jira\<close>: \<open>None\<close> for a request that fails or is not \<^verbatim>\<open>ok\<close>, else the
  \<^verbatim>\<open>summary\<close> field of the issue.
\<close>

definition fetchJiraTicketDetails ::
  "env \<Rightarrow> (string \<Rightarrow> string option option) \<Rightarrow> string option \<Rightarrow> ticket option" where
  "fetchJiraTicketDetails env jira ticketKey =
     (case jira (template_json ticketKey) of
        None \<Rightarrow> None
      | Some s \<Rightarrow>
          Some \<lparr>key = ticketKey, summary = s,
                url = Some (template_env (JIRA_BASE_URL env) @ ''/browse/'' @ template_json ticketKey)\<rparr>)"

section \<open>The route handlers (\<^verbatim>\<open>routes.js\<close>)\<close>

text \<open>
  A response is the list of release rows that get rendered, or the error whose message
  is shown (as HTML by \<^verbatim>\<open>handleGetReleases\<close>, as JSON with status 500 by
  \<^verbatim>\<open>handleCreateRelease\<close>). Rendering and the notification mail read the rows and write
  neither store; they are left out.
\<close>

datatype response = ReleasesHtml "row list" | ErrorHtml error | ErrorJson500 error

definition handleGetReleases :: "database option \<Rightarrow> env \<Rightarrow> response \<times> database option \<times> env" where
  "handleGetReleases db env =
     (case db of
        None \<Rightarrow> (ErrorHtml (Error ''Database configuration error''), db, env)
      | Some _ \<Rightarrow>
          (case initializeDatabase db env of
             (Inl e, db1, env1) \<Rightarrow> (ErrorHtml e, db1, env1)
           | (Inr _, db1, env1) \<Rightarrow>
               (case on_db db1 (\<lambda>d. fetchRecentReleases d 10) of
                  (Inl e, db2) \<Rightarrow> (ErrorHtml e, db2, env1)
                | (Inr releases, db2) \<Rightarrow> (ReleasesHtml releases, db2, env1))))"

text \<open>The JSON body of \<^verbatim>\<open>POST /api/releases\<close>; a ticket is a string or \<^verbatim>\<open>null\<close>.\<close>

record create_request =
  req_release :: release
  req_tickets :: "string option list"

definition ticketDetails ::
  "env \<Rightarrow> (string \<Rightarrow> string option option) \<Rightarrow> string option list \<Rightarrow> ticket option list" where
  "ticketDetails env jira tickets =
     map (\<lambda>t. if truthy (JIRA_API_TOKEN env) \<and> truthy (JIRA_USER_EMAIL env)
               then fetchJiraTicketDetails env jira t
               else Some \<lparr>key = t, summary = None,
                         url = Some (template_env (JIRA_BASE_URL env) @ ''/browse/'' @ template_json t)\<rparr>)
       tickets"

definition handleCreateRelease ::
  "database option \<Rightarrow> env \<Rightarrow> (string \<Rightarrow> string option option) \<Rightarrow> create_request \<Rightarrow> string
     \<Rightarrow> response \<times> database option \<times> env" where
  "handleCreateRelease db env jira json userEmail =
     (case initializeDatabase db env of
        (Inl e, db1, env1) \<Rightarrow> (ErrorJson500 e, db1, env1)
      | (Inr _, db1, env1) \<Rightarrow>
          (case on_db db1 (\<lambda>d. createRelease d (req_release json)
                                   (List.map_filter id (ticketDetails env1 jira (req_tickets json)))
                                   userEmail) of
             (Inl e, db2) \<Rightarrow> (ErrorJson500 e, db2, env1)
           | (Inr release, db2) \<Rightarrow>
               (case on_db db2 (\<lambda>d. fetchRecentReleases d 10) of
                  (Inl e, db3) \<Rightarrow> (ErrorJson500 e, db3, env1)
                | (Inr releases, db3) \<Rightarrow> (ReleasesHtml releases, db3, env1))))"

section \<open>Reading the tickets of a fetched release (\<^verbatim>\<open>ui.js\<close>, \<^verbatim>\<open>emailNotifications.js\<close>)\<close>

text \<open>\<^verbatim>\<open>s.split(',')\<close>.\<close>

fun split_comma :: "string \<Rightarrow> string list" where
  "split_comma [] = [[]]"
| "split_comma (c # cs) =
     (if c = CHR '','' then [] # split_comma cs
      else (case split_comma cs of [] \<Rightarrow> [[c]] | x # xs \<Rightarrow> (c # x) # xs))"

text \<open>A field of a fetched row as JavaScript sees it: \<^verbatim>\<open>null\<close> or a string.\<close>

definition field :: "row \<Rightarrow> string \<Rightarrow> string option" where
  "field r c = (case cell r c of NULL \<Rightarrow> None | INTEGER i \<Rightarrow> Some (toString i) | TEXT s \<Rightarrow> Some s)"

definition nth_or_undefined :: "string list \<Rightarrow> nat \<Rightarrow> string option" where
  "nth_or_undefined xs i = (if i < length xs then Some (xs ! i) else None)"

text \<open>
  The tickets \<^verbatim>\<open>renderReleaseRow\<close> and \<^verbatim>\<open>sendNotification\<close> read off a release: the
  keys split at the commas, and for each index the summary and the url at that index,
  \<^verbatim>\<open>null\<close> or \<^verbatim>\<open>undefined\<close> (both \<open>None\<close>) when there is none.
\<close>

definition parsed_tickets :: "row \<Rightarrow> ticket list" where
  "parsed_tickets r =
     (if truthy (field r ''excluded_tickets'') then
        map (\<lambda>(k, index).
               \<lparr>key = Some k,
                summary = (if truthy (field r ''ticket_summaries'')
                           then nth_or_undefined (split_comma (template_json (field r ''ticket_summaries''))) index
                           else None),
                url = (if truthy (field r ''ticket_urls'')
                       then nth_or_undefined (split_comma (template_json (field r ''ticket_urls''))) index
                       else None)\<rparr>)
          (let ks = split_comma (template_json (field r ''excluded_tickets'')) in zip ks [0 ..< length ks])
      else [])"

section \<open>Sequences of calls\<close>

text \<open>
  The states the system reaches: from a database with no table, any sequence of
  \<^verbatim>\<open>initializeDatabase\<close>, \<^verbatim>\<open>createRelease\<close> and \<^verbatim>\<open>deleteRelease\<close> calls, with the clock
  moving in between.
\<close>

definition new_database :: "string \<Rightarrow> database" where
  "new_database now = \<lparr>tables = [], last_insert_rowid = 0, current_timestamp = now, ddl_log = []\<rparr>"

datatype call =
    Initialize env
  | Create release "ticket list" string
  | Delete int string
  | Clock string

fun apply_call :: "database \<Rightarrow> call \<Rightarrow> database" where
  "apply_call db (Initialize env) =
     (case initializeDatabase (Some db) env of (_, Some db1, _) \<Rightarrow> db1 | (_, None, _) \<Rightarrow> db)"
| "apply_call db (Create release tickets userEmail) = snd (createRelease db release tickets userEmail)"
| "apply_call db (Delete releaseId userEmail) = snd (deleteRelease db releaseId userEmail)"
| "apply_call db (Clock now) = db\<lparr>current_timestamp := now\<rparr>"

definition run :: "database \<Rightarrow> call list \<Rightarrow> database" where
  "run db calls = foldl apply_call db calls"


section \<open>Schemas and example states\<close>

text \<open>
  The \<^verbatim>\<open>releases\<close> table as \<^verbatim>\<open>createInitialSchema\<close> makes it, with or without the column
  that \<^verbatim>\<open>applyMigrations\<close> adds.
\<close>

definition releases_schema :: "table \<Rightarrow> bool" where
  "releases_schema t =
     (cols t = releases_columns \<or> cols t = releases_columns @ [release_type_column])"

definition tickets_schema :: "table \<Rightarrow> bool" where
  "tickets_schema et = (cols et = excluded_tickets_columns)"

definition example_env :: env where
  "example_env = \<lparr>APP_STATE = Some [], JIRA_BASE_URL = Some ''https://jira.example.com'',
     JIRA_USER_EMAIL = None, JIRA_API_TOKEN = None\<rparr>"

definition example_release :: release where
  "example_release = \<lparr>release_date = Some ''2024-06-02'', status = Some ''GO'',
     release_type = Some ''FULL'', explanation = None\<rparr>"

definition example_tickets :: "ticket list" where
  "example_tickets =
     [\<lparr>key = Some ''ABC-1'', summary = Some ''First'',
       url = Some ''https://jira.example.com/browse/ABC-1''\<rparr>,
      \<lparr>key = Some ''ABC-2'', summary = Some ''Second'',
       url = Some ''https://jira.example.com/browse/ABC-2''\<rparr>]"

text \<open>The rows that the two INSERT statements of \<^verbatim>\<open>createRelease\<close> build.\<close>

definition release_row ::
  "int \<Rightarrow> sqlval \<Rightarrow> sqlval \<Rightarrow> sqlval \<Rightarrow> sqlval \<Rightarrow> string \<Rightarrow> string \<Rightarrow> row" where
  "release_row i d s ty e u now =
     [(''id'', INTEGER i), (''release_date'', d), (''status'', s), (''explanation'', e),
      (''created_by'', TEXT u), (''created_at'', TEXT now), (''updated_by'', NULL),
      (''updated_at'', NULL), (''deleted_at'', NULL), (''deleted_by'', NULL),
      (''release_type'', ty)]"

definition ticket_row ::
  "int \<Rightarrow> int \<Rightarrow> sqlval \<Rightarrow> sqlval \<Rightarrow> sqlval \<Rightarrow> string \<Rightarrow> string \<Rightarrow> row" where
  "ticket_row i releaseId k s l u now =
     [(''id'', INTEGER i), (''release_id'', INTEGER releaseId), (''ticket_key'', k),
      (''ticket_summary'', s), (''ticket_url'', l), (''created_by'', TEXT u),
      (''created_at'', TEXT now)]"

text \<open>The database after the two \<^verbatim>\<open>CREATE TABLE IF NOT EXISTS\<close> of \<^verbatim>\<open>createInitialSchema\<close>.\<close>

definition create_tables :: "database \<Rightarrow> database" where
  "create_tables d =
     snd (create_table_if_not_exists
            (snd (create_table_if_not_exists d ''releases'' releases_columns))
            ''excluded_tickets'' excluded_tickets_columns)"

text \<open>
  Two invariants of the call sequences. The first: \<^verbatim>\<open>releases\<close> is missing, or just made
  and empty, or has the migrated columns and only rows with a status and a release type
  of the closed sets. The second: both tables are in place, some release has the given
  id, and every release with that id carries a \<^verbatim>\<open>deleted_at\<close>.
\<close>

definition releases_valid :: "database \<Rightarrow> bool" where
  "releases_valid d =
     (case get_table d ''releases'' of
        None \<Rightarrow> True
      | Some t \<Rightarrow>
          (cols t = releases_columns \<and> rows t = []) \<or>
          (cols t = releases_columns @ [release_type_column] \<and>
           (\<forall>r\<in>set (rows t).
              (cell r ''status'' = TEXT ''GO'' \<or> cell r ''status'' = TEXT ''NO_GO'') \<and>
              (cell r ''release_type'' = TEXT ''FULL'' \<or> cell r ''release_type'' = TEXT ''HOTFIX''))))"

definition soft_deleted :: "int \<Rightarrow> database \<Rightarrow> bool" where
  "soft_deleted rid d =
     (\<exists>t et. get_table d ''releases'' = Some t \<and> releases_schema t \<and>
        get_table d ''excluded_tickets'' = Some et \<and> tickets_schema et \<and>
        (\<exists>r\<in>set (rows t). cell r ''id'' = INTEGER rid) \<and>
        (\<forall>r\<in>set (rows t). cell r ''id'' = INTEGER rid \<longrightarrow> cell r ''deleted_at'' \<noteq> NULL))"

text \<open>
  A third invariant: no table at all, or both tables with the current columns, distinct
  release ids (the primary key) and every ticket pointing to a release (the foreign
  key).
\<close>

definition consistent :: "database \<Rightarrow> bool" where
  "consistent d =
     (case get_table d ''releases'' of
        None \<Rightarrow> get_table d ''excluded_tickets'' = None
      | Some t \<Rightarrow>
          (case get_table d ''excluded_tickets'' of
             None \<Rightarrow> False
           | Some et \<Rightarrow>
               cols t = releases_columns @ [release_type_column] \<and> tickets_schema et \<and>
               distinct (map (\<lambda>r. cell r ''id'') (rows t)) \<and>
               (\<forall>e\<in>set (rows et). \<exists>r\<in>set (rows t). cell e ''release_id'' = cell r ''id'')))"

text \<open>
  A valid input of \<^verbatim>\<open>createRelease\<close>: a calendar date \<^verbatim>\<open>YYYY-MM-DD\<close> (which the DATE
  column keeps as the text it is), a status and a release type of the closed sets.
\<close>

definition calendar_date :: "string \<Rightarrow> bool" where
  "calendar_date s =
     (length s = 10 \<and> s ! 4 = CHR ''-'' \<and> s ! 7 = CHR ''-'' \<and>
      list_all (\<lambda>i. s ! i \<in> set ''0123456789'') [0, 1, 2, 3, 5, 6, 8, 9])"

definition valid_release :: "release \<Rightarrow> bool" where
  "valid_release r =
     ((case release_date r of None \<Rightarrow> False | Some d \<Rightarrow> calendar_date d) \<and>
      (status r = Some ''GO'' \<or> status r = Some ''NO_GO'') \<and>
      (release_type r = Some ''FULL'' \<or> release_type r = Some ''HOTFIX''))"

text \<open>Two databases that differ at most in the log of structure statements.\<close>

definition same_data :: "database \<Rightarrow> database \<Rightarrow> bool" where
  "same_data a b =
     (tables a = tables b \<and> last_insert_rowid a = last_insert_rowid b \<and>
      current_timestamp a = current_timestamp b)"

text \<open>
  Example states: a database with no table, the same after one \<^verbatim>\<open>initializeDatabase\<close>
  with an empty key-value store, the store after that call, and the database after a
  release with two tickets has been created.
\<close>

definition fresh_db :: database where
  "fresh_db = run (new_database ''2024-06-02 10:00:00'') [Initialize example_env]"

definition initialized_env :: env where
  "initialized_env = example_env\<lparr>APP_STATE := Some [(''DB_SCHEMA_VERSION'', ''2'')]\<rparr>"

text \<open>A ticket whose summary has a comma, and a second release.\<close>

definition ticket_with_comma :: ticket where
  "ticket_with_comma = \<lparr>key = Some ''ABC-1'', summary = Some ''Fix login, logout'',
     url = Some ''https://jira.example.com/browse/ABC-1''\<rparr>"

definition example_no_go :: release where
  "example_no_go = \<lparr>release_date = Some ''2024-06-09'', status = Some ''NO_GO'',
     release_type = Some ''HOTFIX'', explanation = Some ''rollback risk''\<rparr>"

text \<open>A ticket as \<^verbatim>\<open>handleCreateRelease\<close> builds it from a JSON \<^verbatim>\<open>null\<close> without JIRA credentials.\<close>

definition ticket_without_key :: ticket where
  "ticket_without_key = \<lparr>key = None, summary = None, url = Some ''https://jira.example.com/browse/null''\<rparr>"


definition example_db :: database where
  "example_db = run (new_database ''2024-06-02 10:00:00'')
     [Initialize example_env, Create example_release example_tickets ''a@x.com'']"

definition example_release_row :: row where
  "example_release_row =
     release_row 1 (TEXT ''2024-06-02'') (TEXT ''GO'') (TEXT ''FULL'') NULL ''a@x.com''
       ''2024-06-02 10:00:00''"

definition example_releases :: table where
  "example_releases =
     \<lparr>cols = releases_columns @ [release_type_column], rows = [example_release_row], seq = 1\<rparr>"

definition example_excluded_tickets :: table where
  "example_excluded_tickets =
     \<lparr>cols = excluded_tickets_columns,
      rows = [ticket_row 1 1 (TEXT ''ABC-1'') (TEXT ''First'')
                (TEXT ''https://jira.example.com/browse/ABC-1'') ''a@x.com'' ''2024-06-02 10:00:00'',
              ticket_row 2 1 (TEXT ''ABC-2'') (TEXT ''Second'')
                (TEXT ''https://jira.example.com/browse/ABC-2'') ''a@x.com'' ''2024-06-02 10:00:00''],
      seq = 2\<rparr>"

section \<open>Facts about the engine\<close>

lemma cell_update: "cell (AList.update k v r) c = (if c = k then v else cell r c)"
  by (simp add: cell_def update_conv')

lemma get_put_table:
  "get_table (put_table db n t) m = (if m = n then Some t else get_table db m)"
  by (simp add: get_table_def put_table_def update_conv')

lemma put_table_same: "get_table db n = Some t \<Longrightarrow> put_table db n t = db"
  by (simp add: get_table_def put_table_def update_triv)

lemma put_table_twice: "put_table (put_table db n t) n t' = put_table db n t'"
  by (simp add: put_table_def)

lemma first_error_None: "first_error es = None \<longleftrightarrow> (\<forall>e\<in>set es. e = None)"
  by (induction es rule: first_error.induct) auto

lemma first_error_map_None:
  "(\<And>x. x \<in> set xs \<Longrightarrow> f x = None) \<Longrightarrow> first_error (map f xs) = None"
  by (simp add: first_error_None)

lemma releases_schema_has_col:
  assumes "releases_schema t"
  shows "has_col t ''id''" "has_col t ''deleted_at''" "has_col t ''deleted_by''"
    "has_col t ''created_at''"
  using assms by (auto simp add: releases_schema_def has_col_def releases_columns_def)

lemma releases_schema_delete_cols:
  assumes "releases_schema t"
  shows "filter (\<lambda>c. col_name c = ''deleted_at'' \<or> col_name c = ''deleted_by'') (cols t) =
     [Column ''deleted_at'' ''DATETIME'' False False None NoDefault None,
      Column ''deleted_by'' ''TEXT'' False False None NoDefault None]"
  using assms
  by (auto simp add: releases_schema_def releases_columns_def release_type_column_def)

section \<open>Soft delete\<close>

text \<open>
  With the \<^verbatim>\<open>releases\<close> table in place the UPDATE of \<^verbatim>\<open>deleteRelease\<close> always runs: the
  call returns \<^verbatim>\<open>true\<close> and leaves the rows below.
\<close>

lemma deleteRelease_eq:
  assumes t: "get_table db ''releases'' = Some t" and s: "releases_schema t"
  shows "deleteRelease db rid u =
    (Inr True, put_table db ''releases''
       (t\<lparr>rows := map (\<lambda>r. if cell r ''id'' = INTEGER rid \<and> cell r ''deleted_at'' = NULL
                           then set_cells [(''deleted_at'', TEXT (current_timestamp db)),
                                           (''deleted_by'', TEXT u)] r
                           else r) (rows t)\<rparr>))"
proof -
  have c: "first_error (map (check_row (filter (\<lambda>c. col_name c = ''deleted_at'' \<or>
      col_name c = ''deleted_by'') (cols t))) ws) = None" for ws
    unfolding releases_schema_delete_cols [OF s]
    by (rule first_error_map_None) (simp add: check_row_def check_column_def)
  show ?thesis
    unfolding deleteRelease_def update_where_def
    using releases_schema_has_col [OF s] c
    by (simp add: t)
qed

lemma example_db_releases: "get_table example_db ''releases'' = Some example_releases"
  by code_simp

lemma example_releases_schema: "releases_schema example_releases"
  by (simp add: releases_schema_def example_releases_def)

lemma example_db_excluded_tickets:
  "get_table example_db ''excluded_tickets'' = Some example_excluded_tickets"
  by code_simp

lemma example_excluded_tickets_schema: "tickets_schema example_excluded_tickets"
  by (simp add: tickets_schema_def example_excluded_tickets_def)

lemma example_release_row_in: "example_release_row \<in> set (rows example_releases)"
  by (simp add: example_releases_def)

lemma example_release_row_id: "cell example_release_row ''id'' = INTEGER 1"
  by (simp add: example_release_row_def release_row_def cell_def)

lemma example_releases_distinct: "distinct (map (\<lambda>r. cell r ''id'') (rows example_releases))"
  by (simp add: example_releases_def)

lemma example_releases_no_7: "\<forall>r\<in>set (rows example_releases). cell r ''id'' \<noteq> INTEGER 7"
  by (simp add: example_releases_def example_release_row_id)

text \<open>
  C1, as the code has it. \<^verbatim>\<open>deleteRelease\<close> returns \<^verbatim>\<open>result.success\<close>, which says that
  the UPDATE ran, not that it changed a row. With the \<^verbatim>\<open>releases\<close> table in place, every
  call returns \<^verbatim>\<open>true\<close> and throws nothing; the rows with the given id that are not
  deleted get \<^verbatim>\<open>deleted_at\<close> (the current timestamp) and \<^verbatim>\<open>deleted_by\<close> (the caller),
  every other row stays as it is; a second call on the same id changes nothing and
  returns \<^verbatim>\<open>true\<close> again; a call on an id that no row has changes nothing and returns
  \<^verbatim>\<open>true\<close>.
\<close>

theorem deleteRelease_returns_success:
  assumes t: "get_table db ''releases'' = Some t" and s: "releases_schema t"
  shows "fst (deleteRelease db rid u) = Inr True \<and>
    (\<exists>t'. get_table (snd (deleteRelease db rid u)) ''releases'' = Some t' \<and>
       list_all2 (\<lambda>r r'. if cell r ''id'' = INTEGER rid \<and> cell r ''deleted_at'' = NULL
                          then cell r' ''id'' = INTEGER rid \<and>
                               cell r' ''deleted_at'' = TEXT (current_timestamp db) \<and>
                               cell r' ''deleted_by'' = TEXT u
                          else r' = r) (rows t) (rows t')) \<and>
    deleteRelease (snd (deleteRelease db rid u)) rid u' = (Inr True, snd (deleteRelease db rid u)) \<and>
    ((\<forall>r\<in>set (rows t). cell r ''id'' \<noteq> INTEGER rid) \<longrightarrow>
       deleteRelease db rid u = (Inr True, db))"
proof -
  define p where "p = (\<lambda>r. cell r ''id'' = INTEGER rid \<and> cell r ''deleted_at'' = NULL)"
  define w where "w = (\<lambda>now u. set_cells [(''deleted_at'', TEXT now), (''deleted_by'', TEXT u)])"
  define t' where
    "t' = t\<lparr>rows := map (\<lambda>r. if p r then w (current_timestamp db) u r else r) (rows t)\<rparr>"
  define db' where "db' = put_table db ''releases'' t'"
  have e: "deleteRelease db rid u = (Inr True, db')"
    unfolding db'_def t'_def p_def w_def by (rule deleteRelease_eq [OF t s])
  have c1: "fst (deleteRelease db rid u) = Inr True" by (simp add: e)
  have g': "get_table db' ''releases'' = Some t'" by (simp add: db'_def get_put_table)
  have "list_all2 (\<lambda>r r'. if p r
                          then cell r' ''id'' = INTEGER rid \<and>
                               cell r' ''deleted_at'' = TEXT (current_timestamp db) \<and>
                               cell r' ''deleted_by'' = TEXT u
                          else r' = r) (rows t) (rows t')"
    by (simp add: t'_def list_all2_map2 list_all2_same p_def w_def cell_update)
  then have c2: "\<exists>t'. get_table (snd (deleteRelease db rid u)) ''releases'' = Some t' \<and>
       list_all2 (\<lambda>r r'. if cell r ''id'' = INTEGER rid \<and> cell r ''deleted_at'' = NULL
                          then cell r' ''id'' = INTEGER rid \<and>
                               cell r' ''deleted_at'' = TEXT (current_timestamp db) \<and>
                               cell r' ''deleted_by'' = TEXT u
                          else r' = r) (rows t) (rows t')"
    using g' unfolding e p_def by auto
  have s': "releases_schema t'" using s by (simp add: releases_schema_def t'_def)
  have n: "\<not> p (w now v r)" if "p r" for r now v
    using that by (simp add: p_def w_def cell_update)
  have "map (\<lambda>r. if p r then w (current_timestamp db') u' r else r) (rows t') = rows t'"
    by (rule map_idI) (auto simp add: t'_def n)
  then have "t'\<lparr>rows := map (\<lambda>r. if p r then w (current_timestamp db') u' r else r) (rows t')\<rparr> = t'"
    by simp
  moreover have "deleteRelease db' rid u' = (Inr True, put_table db' ''releases''
      (t'\<lparr>rows := map (\<lambda>r. if p r then w (current_timestamp db') u' r else r) (rows t')\<rparr>))"
    unfolding p_def w_def by (rule deleteRelease_eq [OF g' s'])
  ultimately have "deleteRelease db' rid u' = (Inr True, put_table db' ''releases'' t')"
    by simp
  then have c3: "deleteRelease (snd (deleteRelease db rid u)) rid u' =
      (Inr True, snd (deleteRelease db rid u))"
    by (simp add: e db'_def put_table_twice)
  have c4: "(\<forall>r\<in>set (rows t). cell r ''id'' \<noteq> INTEGER rid) \<longrightarrow>
      deleteRelease db rid u = (Inr True, db)"
  proof
    assume a: "\<forall>r\<in>set (rows t). cell r ''id'' \<noteq> INTEGER rid"
    have "map (\<lambda>r. if p r then w (current_timestamp db) u r else r) (rows t) = rows t"
      by (rule map_idI) (use a in \<open>auto simp add: p_def\<close>)
    then have "t' = t" by (simp add: t'_def)
    then show "deleteRelease db rid u = (Inr True, db)"
      using e put_table_same [OF t] by (simp add: db'_def)
  qed
  from c1 c2 c3 c4 show ?thesis by blast
qed

text \<open>
  The theorem at the example database: release 1 is there and active, no release has
  id 7.
\<close>

theorem deleteRelease_returns_success_witness:
  "get_table example_db ''releases'' = Some example_releases \<and>
   releases_schema example_releases \<and>
   fst (deleteRelease example_db 1 ''root@x.com'') = Inr True \<and>
   deleteRelease (snd (deleteRelease example_db 1 ''root@x.com'')) 1 ''b@x.com'' =
     (Inr True, snd (deleteRelease example_db 1 ''root@x.com'')) \<and>
   deleteRelease example_db 7 ''root@x.com'' = (Inr True, example_db)"
proof -
  note n = example_releases_no_7
  show ?thesis
    using deleteRelease_returns_success [OF example_db_releases example_releases_schema, of 1 "''root@x.com''" "''b@x.com''"]
      deleteRelease_returns_success [OF example_db_releases example_releases_schema, of 7 "''root@x.com''" "''b@x.com''"]
      n example_db_releases example_releases_schema
    by blast
qed

text \<open>
  C1 as the specification states it fails: the second delete of release 1 and the
  delete of the absent release 7 both return \<^verbatim>\<open>true\<close>, not "changed = false".
\<close>

theorem deleteRelease_changed_false_counterexample:
  "fst (deleteRelease (snd (deleteRelease example_db 1 ''root@x.com'')) 1 ''root@x.com'') = Inr True \<and>
   fst (deleteRelease example_db 7 ''root@x.com'') = Inr True \<and>
   snd (deleteRelease example_db 7 ''root@x.com'') = example_db"
  by code_simp


section \<open>The frame of soft delete\<close>

lemma deleteRelease_snd_cases:
  "snd (deleteRelease db rid u) = db \<or>
   (\<exists>t. get_table db ''releases'' = Some t \<and>
      snd (deleteRelease db rid u) = put_table db ''releases''
        (t\<lparr>rows := map (\<lambda>r. if cell r ''id'' = INTEGER rid \<and> cell r ''deleted_at'' = NULL
                           then set_cells [(''deleted_at'', TEXT (current_timestamp db)),
                                           (''deleted_by'', TEXT u)] r
                           else r) (rows t)\<rparr>))"
  unfolding deleteRelease_def update_where_def
  by (simp split: option.split list.split del: set_cells.simps)

lemma filter_key_distinct:
  "distinct (map k xs) \<Longrightarrow> length (filter (\<lambda>x. k x = v) xs) \<le> 1"
proof (induction xs)
  case Nil
  then show ?case by simp
next
  case (Cons x xs)
  have "k y \<noteq> k x" if "y \<in> set xs" for y
  proof
    assume "k y = k x"
    with that have "k x \<in> k ` set xs" by (metis imageI)
    with Cons.prems show False by simp
  qed
  then have "\<forall>y\<in>set xs. k y \<noteq> k x" by blast
  then have "k x = v \<Longrightarrow> filter (\<lambda>x. k x = v) xs = []"
    by (simp add: filter_empty_conv)
  with Cons show ?case by simp
qed

lemma put_table_fields:
  "last_insert_rowid (put_table db n t) = last_insert_rowid db"
  "current_timestamp (put_table db n t) = current_timestamp db"
  "ddl_log (put_table db n t) = ddl_log db"
  by (simp_all add: put_table_def)

lemma zip_same_unchanged: "filter (\<lambda>(x, y). y \<noteq> x) (zip xs xs) = []"
  by (induction xs) auto

lemma changed_le_matching:
  "(\<And>x. \<not> p x \<Longrightarrow> f x = x) \<Longrightarrow>
   length (filter (\<lambda>(x, y). y \<noteq> x) (zip xs (map f xs))) \<le> length (filter p xs)"
  by (induction xs) auto

lemma length_filter_conj_le: "length (filter (\<lambda>x. p x \<and> q x) xs) \<le> length (filter p xs)"
  by (induction xs) auto

text \<open>
  C10. \<^verbatim>\<open>deleteRelease\<close> leaves every other table, the rowid counter, the clock and the
  structure as they are. In \<^verbatim>\<open>releases\<close> it keeps the columns and the number of rows;
  a row is written only if it has the given id and a NULL \<^verbatim>\<open>deleted_at\<close>, and then every
  column but \<^verbatim>\<open>deleted_at\<close> and \<^verbatim>\<open>deleted_by\<close> keeps its value; every other row, a row
  already deleted among them, is unchanged. Ids being distinct (the primary key), at
  most one row differs afterwards.
\<close>

theorem deleteRelease_frame:
  "(\<forall>n. n \<noteq> ''releases'' \<longrightarrow> get_table (snd (deleteRelease db rid u)) n = get_table db n) \<and>
   last_insert_rowid (snd (deleteRelease db rid u)) = last_insert_rowid db \<and>
   current_timestamp (snd (deleteRelease db rid u)) = current_timestamp db \<and>
   ddl_log (snd (deleteRelease db rid u)) = ddl_log db \<and>
   (case get_table db ''releases'' of
      None \<Rightarrow> get_table (snd (deleteRelease db rid u)) ''releases'' = None
    | Some t \<Rightarrow>
        (\<exists>t'. get_table (snd (deleteRelease db rid u)) ''releases'' = Some t' \<and>
           cols t' = cols t \<and> seq t' = seq t \<and>
           list_all2 (\<lambda>r r'. if cell r ''id'' = INTEGER rid \<and> cell r ''deleted_at'' = NULL
                              then \<forall>c. c \<noteq> ''deleted_at'' \<and> c \<noteq> ''deleted_by'' \<longrightarrow> cell r' c = cell r c
                              else r' = r) (rows t) (rows t') \<and>
           (distinct (map (\<lambda>r. cell r ''id'') (rows t)) \<longrightarrow>
              length (filter (\<lambda>(r, r'). r' \<noteq> r) (zip (rows t) (rows t'))) \<le> 1)))"
proof -
  define p where "p = (\<lambda>r. cell r ''id'' = INTEGER rid \<and> cell r ''deleted_at'' = NULL)"
  define w where "w = set_cells [(''deleted_at'', TEXT (current_timestamp db)), (''deleted_by'', TEXT u)]"
  define db' where "db' = snd (deleteRelease db rid u)"
  have w: "cell (w r) c = cell r c" if "c \<noteq> ''deleted_at'' \<and> c \<noteq> ''deleted_by''" for r c
    using that by (simp add: w_def cell_update)
  have one: "length (filter (\<lambda>(r, r'). r' \<noteq> r) (zip xs (map (\<lambda>r. if p r then w r else r) xs))) \<le> 1"
    if "distinct (map (\<lambda>r. cell r ''id'') xs)" for xs
  proof -
    have "length (filter (\<lambda>(r, r'). r' \<noteq> r) (zip xs (map (\<lambda>r. if p r then w r else r) xs)))
        \<le> length (filter p xs)"
      by (rule changed_le_matching) simp
    also have "\<dots> \<le> length (filter (\<lambda>r. cell r ''id'' = INTEGER rid) xs)"
      unfolding p_def by (rule length_filter_conj_le)
    also have "\<dots> \<le> 1" using that by (rule filter_key_distinct)
    finally show ?thesis .
  qed
  consider (same) "db' = db"
    | (upd) t where "get_table db ''releases'' = Some t"
        "db' = put_table db ''releases'' (t\<lparr>rows := map (\<lambda>r. if p r then w r else r) (rows t)\<rparr>)"
    using deleteRelease_snd_cases [of db rid u] unfolding db'_def p_def w_def by blast
  then have "(\<forall>n. n \<noteq> ''releases'' \<longrightarrow> get_table db' n = get_table db n) \<and>
   last_insert_rowid db' = last_insert_rowid db \<and>
   current_timestamp db' = current_timestamp db \<and>
   ddl_log db' = ddl_log db \<and>
   (case get_table db ''releases'' of
      None \<Rightarrow> get_table db' ''releases'' = None
    | Some t \<Rightarrow>
        (\<exists>t'. get_table db' ''releases'' = Some t' \<and>
           cols t' = cols t \<and> seq t' = seq t \<and>
           list_all2 (\<lambda>r r'. if p r
                              then \<forall>c. c \<noteq> ''deleted_at'' \<and> c \<noteq> ''deleted_by'' \<longrightarrow> cell r' c = cell r c
                              else r' = r) (rows t) (rows t') \<and>
           (distinct (map (\<lambda>r. cell r ''id'') (rows t)) \<longrightarrow>
              length (filter (\<lambda>(r, r'). r' \<noteq> r) (zip (rows t) (rows t'))) \<le> 1)))"
  proof cases
    case same
    then show ?thesis
      by (auto simp add: list_all2_same zip_same_unchanged split: option.split)
  next
    case upd
    have "list_all2 (\<lambda>r r'. if p r
                              then \<forall>c. c \<noteq> ''deleted_at'' \<and> c \<noteq> ''deleted_by'' \<longrightarrow> cell r' c = cell r c
                              else r' = r) (rows t) (map (\<lambda>r. if p r then w r else r) (rows t))"
      by (simp add: list_all2_map2 list_all2_same w)
    with upd one [of "rows t"] show ?thesis
      by (simp add: get_put_table put_table_fields)
  qed
  then show ?thesis unfolding db'_def p_def .
qed

theorem deleteRelease_frame_witness:
  "get_table example_db ''releases'' = Some example_releases \<and>
   distinct (map (\<lambda>r. cell r ''id'') (rows example_releases)) \<and>
   get_table (snd (deleteRelease example_db 1 ''root@x.com'')) ''excluded_tickets'' =
     get_table example_db ''excluded_tickets'' \<and>
   last_insert_rowid (snd (deleteRelease example_db 1 ''root@x.com'')) = last_insert_rowid example_db \<and>
   (\<exists>t'. get_table (snd (deleteRelease example_db 1 ''root@x.com'')) ''releases'' = Some t' \<and>
      cols t' = cols example_releases \<and> seq t' = seq example_releases \<and>
      length (filter (\<lambda>(r, r'). r' \<noteq> r) (zip (rows example_releases) (rows t'))) \<le> 1)"
  using deleteRelease_frame [of example_db 1 "''root@x.com''"] example_db_releases
    example_releases_distinct
  by auto

section \<open>Fetching one release\<close>

lemma tickets_schema_has_col:
  assumes "tickets_schema et"
  shows "has_col et ''release_id''" "has_col et ''ticket_key''" "has_col et ''ticket_summary''"
    "has_col et ''ticket_url''"
  using assms by (auto simp add: tickets_schema_def has_col_def excluded_tickets_columns_def)

lemma select_releases_eq:
  assumes "get_table db ''releases'' = Some t" and "releases_schema t"
    and "get_table db ''excluded_tickets'' = Some et" and "tickets_schema et"
    and "\<forall>c\<in>set wc. has_col t c"
  shows "select_releases db wc p = Inr (map (with_tickets et) (filter p (rows t)))"
proof -
  have "filter (\<lambda>c. \<not> has_col t c) (''id'' # wc) = []"
    using assms(5) releases_schema_has_col(1) [OF assms(2)] by (simp add: filter_empty_conv)
  moreover have "filter (\<lambda>c. \<not> has_col et c)
      [''release_id'', ''ticket_key'', ''ticket_summary'', ''ticket_url''] = []"
    using tickets_schema_has_col [OF assms(4)] by simp
  ultimately show ?thesis
    unfolding select_releases_def by (simp add: assms(1) assms(3))
qed

lemma filter_key_unique:
  "distinct (map k xs) \<Longrightarrow> x \<in> set xs \<Longrightarrow> filter (\<lambda>y. k y = k x) xs = [x]"
proof (induction xs)
  case Nil
  then show ?case by simp
next
  case (Cons a xs)
  have ne: "k y \<noteq> k a" if "y \<in> set xs" for y
  proof
    assume "k y = k a"
    with that have "k a \<in> k ` set xs" by (metis imageI)
    with Cons.prems show False by simp
  qed
  show ?case
  proof (cases "x = a")
    case True
    then show ?thesis using ne by (simp add: filter_empty_conv)
  next
    case False
    with Cons.prems have "x \<in> set xs" by simp
    with Cons ne [of x] show ?thesis by simp
  qed
qed

lemma cell_with_tickets:
  "cell (with_tickets et r) c =
     (if c = ''ticket_urls'' then group_concat (map (\<lambda>e. cell e ''ticket_url'') (tickets_of et r))
      else if c = ''ticket_summaries'' then group_concat (map (\<lambda>e. cell e ''ticket_summary'') (tickets_of et r))
      else if c = ''excluded_tickets'' then group_concat (map (\<lambda>e. cell e ''ticket_key'') (tickets_of et r))
      else cell r c)"
  by (simp add: with_tickets_def cell_update)

lemma tickets_of_id:
  "cell r ''id'' = INTEGER rid \<Longrightarrow>
   tickets_of et r = filter (\<lambda>e. cell e ''release_id'' = INTEGER rid) (rows et)"
  by (simp add: tickets_of_def)

lemma fetchReleaseById_eq:
  assumes "get_table db ''releases'' = Some t" and "releases_schema t"
    and "get_table db ''excluded_tickets'' = Some et" and "tickets_schema et"
  shows "fetchReleaseById db rid =
     (case filter (\<lambda>r. cell r ''id'' = INTEGER rid) (rows t) of
        [] \<Rightarrow> (Inr None, db)
      | r # _ \<Rightarrow> (Inr (Some (with_tickets et r)), db))"
  unfolding fetchReleaseById_def
  by (simp add: select_releases_eq [OF assms] split: list.split)

lemma group_concat_texts: "ss \<noteq> [] \<Longrightarrow> group_concat (map TEXT ss) = TEXT (join_comma ss)"
proof -
  have "texts (map TEXT ss) = ss" by (induction ss) simp_all
  then show "ss \<noteq> [] \<Longrightarrow> group_concat (map TEXT ss) = TEXT (join_comma ss)"
    by (cases ss) (simp_all add: group_concat_def)
qed

lemma group_concat_nulls: "\<forall>v\<in>set vs. v = NULL \<Longrightarrow> group_concat vs = NULL"
proof -
  have "\<forall>v\<in>set vs. v = NULL \<Longrightarrow> texts vs = []" by (induction vs) simp_all
  then show "\<forall>v\<in>set vs. v = NULL \<Longrightarrow> group_concat vs = NULL"
    by (simp add: group_concat_def)
qed

text \<open>
  C8. With both tables in place and ids distinct, \<^verbatim>\<open>fetchReleaseById\<close> returns the row
  that has the id, whatever its \<^verbatim>\<open>deleted_at\<close>, with its own columns unchanged and the
  keys, summaries and urls of its tickets joined in the three added fields; it still
  returns the row after \<^verbatim>\<open>deleteRelease\<close> has marked it. Each added field reads as
  follows: when the tickets of the release hold the texts \<open>ss\<close> (at least one) in the
  column, the field is the text of \<open>ss\<close> joined with commas in the order of the ticket
  rows; when every ticket of the release holds NULL in the column, and so when the
  release has no ticket, the field is NULL. When no row has the id,
  \<^verbatim>\<open>fetchReleaseById\<close> returns \<^verbatim>\<open>null\<close> and throws nothing.
\<close>

theorem fetchReleaseById_any_state:
  assumes t: "get_table db ''releases'' = Some t" and s: "releases_schema t"
    and et: "get_table db ''excluded_tickets'' = Some et" and es: "tickets_schema et"
    and d: "distinct (map (\<lambda>r. cell r ''id'') (rows t))"
  shows "(\<forall>r\<in>set (rows t). cell r ''id'' = INTEGER rid \<longrightarrow>
            fetchReleaseById db rid = (Inr (Some (with_tickets et r)), db) \<and>
            (\<forall>c. c \<notin> {''excluded_tickets'', ''ticket_summaries'', ''ticket_urls''} \<longrightarrow>
               cell (with_tickets et r) c = cell r c) \<and>
            cell (with_tickets et r) ''excluded_tickets'' =
              group_concat (map (\<lambda>e. cell e ''ticket_key'')
                (filter (\<lambda>e. cell e ''release_id'' = INTEGER rid) (rows et))) \<and>
            cell (with_tickets et r) ''ticket_summaries'' =
              group_concat (map (\<lambda>e. cell e ''ticket_summary'')
                (filter (\<lambda>e. cell e ''release_id'' = INTEGER rid) (rows et))) \<and>
            cell (with_tickets et r) ''ticket_urls'' =
              group_concat (map (\<lambda>e. cell e ''ticket_url'')
                (filter (\<lambda>e. cell e ''release_id'' = INTEGER rid) (rows et))) \<and>
            (\<exists>r'. fst (fetchReleaseById (snd (deleteRelease db rid u)) rid) = Inr (Some r') \<and>
               cell r' ''id'' = INTEGER rid \<and> cell r' ''deleted_at'' \<noteq> NULL) \<and>
            (\<forall>(f, c)\<in>set [(''excluded_tickets'', ''ticket_key''),
                           (''ticket_summaries'', ''ticket_summary''),
                           (''ticket_urls'', ''ticket_url'')].
               (\<forall>ss. ss \<noteq> [] \<and>
                     map (\<lambda>e. cell e c)
                       (filter (\<lambda>e. cell e ''release_id'' = INTEGER rid) (rows et)) = map TEXT ss \<longrightarrow>
                     cell (with_tickets et r) f = TEXT (join_comma ss)) \<and>
               ((\<forall>e\<in>set (filter (\<lambda>e. cell e ''release_id'' = INTEGER rid) (rows et)).
                    cell e c = NULL) \<longrightarrow>
                  cell (with_tickets et r) f = NULL))) \<and>
         ((\<forall>r\<in>set (rows t). cell r ''id'' \<noteq> INTEGER rid) \<longrightarrow>
            fetchReleaseById db rid = (Inr None, db))"
    (is "(\<forall>r\<in>_. _ \<longrightarrow> ?P r) \<and> ?B")
proof -
  have found: "fetchReleaseById db' rid = (Inr (Some (with_tickets et' r)), db')"
    if "get_table db' ''releases'' = Some t'" "releases_schema t'"
      "get_table db' ''excluded_tickets'' = Some et'" "tickets_schema et'"
      "distinct (map (\<lambda>r. cell r ''id'') (rows t'))" "r \<in> set (rows t')" "cell r ''id'' = INTEGER rid"
    for db' t' et' r
  proof -
    have "filter (\<lambda>y. cell y ''id'' = cell r ''id'') (rows t') = [r]"
      using that(5) that(6) by (rule filter_key_unique)
    then show ?thesis
      using fetchReleaseById_eq [OF that(1-4), of rid] that(7) by simp
  qed
  have ab: "?P r" if r: "r \<in> set (rows t)" "cell r ''id'' = INTEGER rid" for r
  proof -
    define ts where "ts = filter (\<lambda>e. cell e ''release_id'' = INTEGER rid) (rows et)"
    have c1: "fetchReleaseById db rid = (Inr (Some (with_tickets et r)), db)"
      by (rule found [OF t s et es d r])
    have c2: "\<forall>c. c \<notin> {''excluded_tickets'', ''ticket_summaries'', ''ticket_urls''} \<longrightarrow>
               cell (with_tickets et r) c = cell r c"
      by (simp add: cell_with_tickets)
    have c3: "cell (with_tickets et r) ''excluded_tickets'' =
              group_concat (map (\<lambda>e. cell e ''ticket_key'') ts)"
      by (simp add: cell_with_tickets tickets_of_id [OF r(2)] ts_def)
    have c4: "cell (with_tickets et r) ''ticket_summaries'' =
              group_concat (map (\<lambda>e. cell e ''ticket_summary'') ts)"
      by (simp add: cell_with_tickets tickets_of_id [OF r(2)] ts_def)
    have c5: "cell (with_tickets et r) ''ticket_urls'' =
              group_concat (map (\<lambda>e. cell e ''ticket_url'') ts)"
      by (simp add: cell_with_tickets tickets_of_id [OF r(2)] ts_def)
    define m where "m = (\<lambda>r. if cell r ''id'' = INTEGER rid \<and> cell r ''deleted_at'' = NULL
                           then set_cells [(''deleted_at'', TEXT (current_timestamp db)),
                                           (''deleted_by'', TEXT u)] r
                           else r)"
    define t' where "t' = t\<lparr>rows := map m (rows t)\<rparr>"
    define db' where "db' = put_table db ''releases'' t'"
    have e: "snd (deleteRelease db rid u) = db'"
      using deleteRelease_eq [OF t s, of rid u] by (simp add: db'_def t'_def m_def)
    have mid: "cell (m x) ''id'' = cell x ''id''" for x
      by (simp add: m_def cell_update)
    have 1: "get_table db' ''releases'' = Some t'" by (simp add: db'_def get_put_table)
    have 2: "releases_schema t'" using s by (simp add: t'_def releases_schema_def)
    have 3: "get_table db' ''excluded_tickets'' = Some et" using et by (simp add: db'_def get_put_table)
    have 5: "distinct (map (\<lambda>r. cell r ''id'') (rows t'))"
      using d by (simp add: t'_def comp_def mid)
    have 6: "m r \<in> set (rows t')" using r(1) by (simp add: t'_def)
    have 7: "cell (m r) ''id'' = INTEGER rid" using r(2) by (simp add: mid)
    have 8: "cell (m r) ''deleted_at'' \<noteq> NULL" using r(2) by (simp add: m_def cell_update)
    have c6: "\<exists>r'. fst (fetchReleaseById (snd (deleteRelease db rid u)) rid) = Inr (Some r') \<and>
               cell r' ''id'' = INTEGER rid \<and> cell r' ''deleted_at'' \<noteq> NULL"
      unfolding e using found [OF 1 2 3 es 5 6 7] 7 8
      by (simp add: cell_with_tickets)
    have agg: "(\<forall>ss. ss \<noteq> [] \<and> map (\<lambda>e. cell e c) ts = map TEXT ss \<longrightarrow>
                  cell (with_tickets et r) f = TEXT (join_comma ss)) \<and>
               ((\<forall>e\<in>set ts. cell e c = NULL) \<longrightarrow> cell (with_tickets et r) f = NULL)"
      if "cell (with_tickets et r) f = group_concat (map (\<lambda>e. cell e c) ts)" for f c
    proof (intro conjI allI impI)
      fix ss
      assume "ss \<noteq> [] \<and> map (\<lambda>e. cell e c) ts = map TEXT ss"
      then show "cell (with_tickets et r) f = TEXT (join_comma ss)"
        using group_concat_texts [of ss] by (simp add: that)
    next
      assume "\<forall>e\<in>set ts. cell e c = NULL"
      then have "\<forall>v\<in>set (map (\<lambda>e. cell e c) ts). v = NULL" by simp
      then show "cell (with_tickets et r) f = NULL"
        unfolding that by (rule group_concat_nulls)
    qed
    have c7: "\<forall>(f, c)\<in>set [(''excluded_tickets'', ''ticket_key''),
                           (''ticket_summaries'', ''ticket_summary''),
                           (''ticket_urls'', ''ticket_url'')].
               (\<forall>ss. ss \<noteq> [] \<and> map (\<lambda>e. cell e c) ts = map TEXT ss \<longrightarrow>
                     cell (with_tickets et r) f = TEXT (join_comma ss)) \<and>
               ((\<forall>e\<in>set ts. cell e c = NULL) \<longrightarrow> cell (with_tickets et r) f = NULL)"
      using agg [OF c3] agg [OF c4] agg [OF c5] by simp
    from c1 c2 c3 c4 c5 c6 c7 show ?thesis unfolding ts_def by (intro conjI)
  qed
  have c: "fetchReleaseById db rid = (Inr None, db)" if "\<forall>r\<in>set (rows t). cell r ''id'' \<noteq> INTEGER rid"
  proof -
    have "filter (\<lambda>r. cell r ''id'' = INTEGER rid) (rows t) = []"
      using that by (simp add: filter_empty_conv)
    then show ?thesis using fetchReleaseById_eq [OF t s et es, of rid] by simp
  qed
  have A: "\<forall>r\<in>set (rows t). cell r ''id'' = INTEGER rid \<longrightarrow> ?P r"
    by (intro ballI impI, rule ab)
  have B: "?B" by (rule impI, rule c)
  from A B show ?thesis by (rule conjI)
qed

lemma example_ticket_cells:
  "map (\<lambda>e. cell e ''ticket_key'')
     (filter (\<lambda>e. cell e ''release_id'' = INTEGER 1) (rows example_excluded_tickets)) =
     map TEXT [''ABC-1'', ''ABC-2'']"
  "map (\<lambda>e. cell e ''ticket_summary'')
     (filter (\<lambda>e. cell e ''release_id'' = INTEGER 1) (rows example_excluded_tickets)) =
     map TEXT [''First'', ''Second'']"
  "map (\<lambda>e. cell e ''ticket_url'')
     (filter (\<lambda>e. cell e ''release_id'' = INTEGER 1) (rows example_excluded_tickets)) =
     map TEXT [''https://jira.example.com/browse/ABC-1'', ''https://jira.example.com/browse/ABC-2'']"
  by (simp_all add: example_excluded_tickets_def ticket_row_def cell_def)

lemma example_parsed_tickets:
  "parsed_tickets (with_tickets example_excluded_tickets example_release_row) = example_tickets"
  by code_simp

theorem fetchReleaseById_any_state_witness:
  "get_table example_db ''releases'' = Some example_releases \<and>
   releases_schema example_releases \<and>
   get_table example_db ''excluded_tickets'' = Some example_excluded_tickets \<and>
   tickets_schema example_excluded_tickets \<and>
   distinct (map (\<lambda>r. cell r ''id'') (rows example_releases)) \<and>
   fetchReleaseById example_db 1 =
     (Inr (Some (with_tickets example_excluded_tickets example_release_row)), example_db) \<and>
   cell (with_tickets example_excluded_tickets example_release_row) ''excluded_tickets'' =
     TEXT ''ABC-1,ABC-2'' \<and>
   cell (with_tickets example_excluded_tickets example_release_row) ''ticket_summaries'' =
     TEXT ''First,Second'' \<and>
   cell (with_tickets example_excluded_tickets example_release_row) ''ticket_urls'' =
     TEXT ''https://jira.example.com/browse/ABC-1,https://jira.example.com/browse/ABC-2'' \<and>
   parsed_tickets (with_tickets example_excluded_tickets example_release_row) = example_tickets \<and>
   (\<exists>r'. fst (fetchReleaseById (snd (deleteRelease example_db 1 ''root@x.com'')) 1) = Inr (Some r') \<and>
      cell r' ''id'' = INTEGER 1 \<and> cell r' ''deleted_at'' \<noteq> NULL) \<and>
   fetchReleaseById example_db 7 = (Inr None, example_db)"
proof -
  note th = fetchReleaseById_any_state [OF example_db_releases example_releases_schema
      example_db_excluded_tickets example_excluded_tickets_schema example_releases_distinct]
  note found = th [of 1 "''root@x.com''", THEN conjunct1, THEN bspec, OF example_release_row_in,
      THEN mp, OF example_release_row_id]
  have 1: "fetchReleaseById example_db 1 =
     (Inr (Some (with_tickets example_excluded_tickets example_release_row)), example_db)"
    using found by (rule conjunct1)
  have 2: "\<exists>r'. fst (fetchReleaseById (snd (deleteRelease example_db 1 ''root@x.com'')) 1) = Inr (Some r') \<and>
      cell r' ''id'' = INTEGER 1 \<and> cell r' ''deleted_at'' \<noteq> NULL"
    using found by (elim conjE)
  note agg = found [THEN conjunct2, THEN conjunct2, THEN conjunct2, THEN conjunct2,
      THEN conjunct2, THEN conjunct2]
  note k = agg [THEN bspec, of "(''excluded_tickets'', ''ticket_key'')", simplified,
      THEN conjunct1, THEN spec, of "[''ABC-1'', ''ABC-2'']"]
  have 4: "cell (with_tickets example_excluded_tickets example_release_row) ''excluded_tickets'' =
     TEXT ''ABC-1,ABC-2''"
    using k example_ticket_cells(1) by simp
  note sm = agg [THEN bspec, of "(''ticket_summaries'', ''ticket_summary'')", simplified,
      THEN conjunct1, THEN spec, of "[''First'', ''Second'']"]
  have 5: "cell (with_tickets example_excluded_tickets example_release_row) ''ticket_summaries'' =
     TEXT ''First,Second''"
    using sm example_ticket_cells(2) by simp
  note ur = agg [THEN bspec, of "(''ticket_urls'', ''ticket_url'')", simplified,
      THEN conjunct1, THEN spec,
      of "[''https://jira.example.com/browse/ABC-1'', ''https://jira.example.com/browse/ABC-2'']"]
  have 6: "cell (with_tickets example_excluded_tickets example_release_row) ''ticket_urls'' =
     TEXT ''https://jira.example.com/browse/ABC-1,https://jira.example.com/browse/ABC-2''"
    using ur example_ticket_cells(3) by simp
  have 3: "fetchReleaseById example_db 7 = (Inr None, example_db)"
    using th [of 7 "''root@x.com''", THEN conjunct2] example_releases_no_7 by (rule mp)
  from example_db_releases example_releases_schema example_db_excluded_tickets
    example_excluded_tickets_schema example_releases_distinct 1 4 5 6 example_parsed_tickets 2 3
  show ?thesis by (intro conjI)
qed


section \<open>Facts about inserts and \<^verbatim>\<open>initializeDatabase\<close>\<close>

lemma build_release_row:
  "build_row (releases_columns @ [release_type_column])
     [(''release_date'', d), (''status'', s), (''release_type'', ty), (''explanation'', e),
      (''created_by'', TEXT u)] i now = release_row i d s ty e u now"
  by (simp add: build_row_def releases_columns_def release_type_column_def release_row_def
      default_value_def)

lemma check_release_row:
  "check_row (releases_columns @ [release_type_column]) (release_row i d s ty e u now) =
     (if d = NULL then Some (NotNullViolation ''release_date'')
      else if s = NULL then Some (NotNullViolation ''status'')
      else if s \<noteq> TEXT ''GO'' \<and> s \<noteq> TEXT ''NO_GO'' then Some (CheckViolation ''status'')
      else if ty = NULL then Some (NotNullViolation ''release_type'')
      else if ty \<noteq> TEXT ''FULL'' \<and> ty \<noteq> TEXT ''HOTFIX'' then Some (CheckViolation ''release_type'')
      else None)"
  by (simp add: check_row_def releases_columns_def release_type_column_def release_row_def
      check_column_def cell_def)

lemma check_fks_release_row:
  "check_fks db (releases_columns @ [release_type_column]) r = None"
  by (simp add: check_fks_def releases_columns_def release_type_column_def check_fk_def)

lemma insert_release_cols:
  "cols t = releases_columns @ [release_type_column] \<Longrightarrow>
   filter (\<lambda>c. \<not> has_col t c)
     (map fst [(''release_date'', d), (''status'', s), (''release_type'', ty), (''explanation'', e),
      (''created_by'', cb)]) = []"
  by (simp add: has_col_def releases_columns_def release_type_column_def)

lemma insert_release:
  assumes t: "get_table db ''releases'' = Some t"
    and c: "cols t = releases_columns @ [release_type_column]"
  shows "insert_into db ''releases''
     [(''release_date'', d), (''status'', s), (''release_type'', ty), (''explanation'', e),
      (''created_by'', TEXT u)] =
     (case check_row (cols t) (release_row (next_rowid t) d s ty e u (current_timestamp db)) of
        Some err \<Rightarrow> (Inl err, db)
      | None \<Rightarrow>
          (Inr \<lparr>success = True, changes = 1\<rparr>,
           (put_table db ''releases''
              (t\<lparr>rows := rows t @ [release_row (next_rowid t) d s ty e u (current_timestamp db)],
                 seq := next_rowid t\<rparr>))\<lparr>last_insert_rowid := next_rowid t\<rparr>))"
  unfolding insert_into_def
  by (simp only: t option.case insert_release_cols [OF c] list.case Let_def c
      build_release_row check_fks_release_row)


lemma toString_version: "toString CURRENT_SCHEMA_VERSION = ''2''"
  by code_simp

lemma toString_2: "toString 2 = ''2''"
  by code_simp

lemma parseInt_1: "parseInt_or_0 (Some ''1'') = 1"
  by code_simp

lemma parseInt_2: "parseInt_or_0 (Some ''2'') = 2"
  by code_simp

lemma parseInt_absent: "parseInt_or_0 None = 0"
  by code_simp

lemma create_table_fst:
  "fst (create_table_if_not_exists d n cs) = Inr \<lparr>success = True, changes = 0\<rparr>"
  by (simp add: create_table_if_not_exists_def Let_def split: option.split)

lemma createInitialSchema_Some:
  "createInitialSchema (Some d) = (Inr (), Some (create_tables d))"
proof -
  obtain r1 d1 where 1: "create_table_if_not_exists d ''releases'' releases_columns = (r1, d1)"
    by (cases "create_table_if_not_exists d ''releases'' releases_columns")
  obtain r2 d2 where 2: "create_table_if_not_exists d1 ''excluded_tickets'' excluded_tickets_columns = (r2, d2)"
    by (cases "create_table_if_not_exists d1 ''excluded_tickets'' excluded_tickets_columns")
  have "r1 = Inr \<lparr>success = True, changes = 0\<rparr>" using create_table_fst [of d "''releases''" releases_columns] 1 by simp
  moreover have "r2 = Inr \<lparr>success = True, changes = 0\<rparr>" using create_table_fst [of d1 "''excluded_tickets''" excluded_tickets_columns] 2 by simp
  ultimately show ?thesis
    by (simp add: createInitialSchema_def on_db_def create_tables_def 1 2)
qed

lemma initializeDatabase_Some:
  assumes kv: "APP_STATE env = Some kv"
  shows "initializeDatabase (Some d) env =
    (if parseInt_or_0 (map_of kv ''DB_SCHEMA_VERSION'') = 0 then
       (case alter_table_add_column (create_tables d) ''releases'' release_type_column of
          (Inl e, d3) \<Rightarrow>
            (Inr False, Some d3, env\<lparr>APP_STATE := Some (AList.update ''DB_SCHEMA_VERSION'' ''1'' kv)\<rparr>)
        | (Inr x, d3) \<Rightarrow>
            (Inr True, Some d3, env\<lparr>APP_STATE := Some (AList.update ''DB_SCHEMA_VERSION'' ''2''
               (AList.update ''DB_SCHEMA_VERSION'' ''1'' kv))\<rparr>))
     else if parseInt_or_0 (map_of kv ''DB_SCHEMA_VERSION'') < 2 then
       (case alter_table_add_column d ''releases'' release_type_column of
          (Inl e, d3) \<Rightarrow> (Inr False, Some d3, env)
        | (Inr x, d3) \<Rightarrow>
            (Inr True, Some d3, env\<lparr>APP_STATE := Some (AList.update ''DB_SCHEMA_VERSION'' ''2'' kv)\<rparr>))
     else (Inr True, Some d, env))"
  unfolding initializeDatabase_def initializeDatabase_try_def
  by (simp add: kv createInitialSchema_Some applyMigrations_def on_db_def kv_put_def
      toString_2 CURRENT_SCHEMA_VERSION_def Let_def
      split: prod.split sum.split)

lemma initializeDatabase_no_kv:
  "APP_STATE env = None \<Longrightarrow> initializeDatabase db env = (Inr False, db, env)"
  by (simp add: initializeDatabase_def initializeDatabase_try_def)

lemma initializeDatabase_no_db:
  assumes kv: "APP_STATE env = Some kv"
  shows "initializeDatabase None env =
    (if parseInt_or_0 (map_of kv ''DB_SCHEMA_VERSION'') < 2 then (Inr False, None, env)
     else (Inr True, None, env))"
  unfolding initializeDatabase_def initializeDatabase_try_def
  by (simp add: kv createInitialSchema_def applyMigrations_def on_db_def
      CURRENT_SCHEMA_VERSION_def Let_def)

section \<open>Running \<^verbatim>\<open>initializeDatabase\<close> twice\<close>

lemma same_data_refl [simp]: "same_data d d"
  by (simp add: same_data_def)

lemma get_table_ddl_log [simp]: "get_table (d\<lparr>ddl_log := l\<rparr>) n = get_table d n"
  by (simp add: get_table_def)

lemma put_table_ddl_log: "put_table (d\<lparr>ddl_log := l\<rparr>) n t = (put_table d n t)\<lparr>ddl_log := l\<rparr>"
  by (simp add: put_table_def)

lemma alter_cases:
  "alter_table_add_column d n c =
     (case get_table d n of
        None \<Rightarrow> (Inl (NoSuchTable n), d\<lparr>ddl_log := ddl_log d @ [AlterTableAddColumn n (col_name c)]\<rparr>)
      | Some t \<Rightarrow>
          if has_col t (col_name c)
          then (Inl (DuplicateColumn (col_name c)),
                d\<lparr>ddl_log := ddl_log d @ [AlterTableAddColumn n (col_name c)]\<rparr>)
          else (Inr \<lparr>success = True, changes = 0\<rparr>,
                (put_table d n
                   (t\<lparr>cols := cols t @ [c],
                      rows := map (AList.update (col_name c)
                                (default_value (current_timestamp d) (col_default c))) (rows t)\<rparr>))
                \<lparr>ddl_log := ddl_log d @ [AlterTableAddColumn n (col_name c)]\<rparr>))"
  by (simp add: alter_table_add_column_def Let_def put_table_ddl_log split: option.split)

lemma alter_fails_again:
  assumes "alter_table_add_column d n c = (Inl e, d3)"
  shows "\<exists>d4. alter_table_add_column d3 n c = (Inl e, d4) \<and> same_data d3 d4"
  using assms unfolding alter_cases
  by (auto simp add: same_data_def split: option.splits if_splits)

lemma alter_same_data_fail:
  assumes "alter_table_add_column d n c = (Inl e, d3)"
  shows "same_data d d3"
  using assms unfolding alter_cases
  by (auto simp add: same_data_def split: option.splits if_splits)

lemma create_table_cases:
  "create_table_if_not_exists d n cs =
     (Inr \<lparr>success = True, changes = 0\<rparr>,
      (case get_table d n of
         Some t \<Rightarrow> d
       | None \<Rightarrow> put_table d n \<lparr>cols = cs, rows = [], seq = 0\<rparr>)
      \<lparr>ddl_log := ddl_log d @ [CreateTableIfNotExists n]\<rparr>)"
  by (simp add: create_table_if_not_exists_def Let_def put_table_ddl_log split: option.split)

lemma get_table_create_tables:
  "get_table (create_tables d) n =
     (if n = ''releases'' then
        (case get_table d ''releases'' of
           Some t \<Rightarrow> Some t | None \<Rightarrow> Some \<lparr>cols = releases_columns, rows = [], seq = 0\<rparr>)
      else if n = ''excluded_tickets'' then
        (case get_table d ''excluded_tickets'' of
           Some t \<Rightarrow> Some t | None \<Rightarrow> Some \<lparr>cols = excluded_tickets_columns, rows = [], seq = 0\<rparr>)
      else get_table d n)"
  by (simp add: create_tables_def create_table_cases get_put_table split: option.split)

lemma map_of_update_same: "map_of (AList.update k v al) k = Some v"
  by (simp add: update_conv')

lemma alter_fails_log:
  assumes "alter_table_add_column d n c = (Inl e, d3)"
  shows "d3 = d\<lparr>ddl_log := ddl_log d @ [AlterTableAddColumn n (col_name c)]\<rparr>"
    and "alter_table_add_column d3 n c =
           (Inl e, d3\<lparr>ddl_log := ddl_log d3 @ [AlterTableAddColumn n (col_name c)]\<rparr>)"
  using assms unfolding alter_cases
  by (auto split: option.splits if_splits)

lemma release_type_column_name: "col_name release_type_column = ''release_type''"
  by (simp add: release_type_column_def)

text \<open>
  C4, as the code has it. For every database and key-value store, a second run of
  \<^verbatim>\<open>initializeDatabase\<close> right after a first returns what the first returned, leaves
  the key-value store as the first left it, and leaves every table, the rowid counter
  and the clock as the first left them. When the first run returned \<^verbatim>\<open>true\<close>, the
  second sends no structure statement at all: the database, its statement log included,
  is unchanged. When the first run returned \<^verbatim>\<open>false\<close>, so does the second, and what it
  sends depends on why the first failed. With the \<^verbatim>\<open>DB\<close> binding or the \<^verbatim>\<open>APP_STATE\<close>
  binding missing, the second run sends nothing and the database, log included, is
  unchanged. With both bindings there, the last statement the first run sent was
  \<^verbatim>\<open>ALTER TABLE releases ADD COLUMN release_type\<close>, which failed; the second run sends
  exactly that statement once more and nothing else, so the database after it is the
  database before it with that one entry added to the log.
\<close>

theorem initializeDatabase_twice:
  "case initializeDatabase db env of
     (b1, db1, env1) \<Rightarrow>
       (case initializeDatabase db1 env1 of
          (b2, db2, env2) \<Rightarrow>
            b2 = b1 \<and> env2 = env1 \<and> rel_option same_data db1 db2 \<and>
            (b1 = Inr True \<longrightarrow> db2 = db1) \<and>
            (b1 = Inr False \<longrightarrow>
               (case db1 of
                  None \<Rightarrow> db2 = None
                | Some d1 \<Rightarrow>
                    if APP_STATE env1 = None then db2 = Some d1
                    else ddl_log d1 \<noteq> [] \<and>
                         last (ddl_log d1) = AlterTableAddColumn ''releases'' ''release_type'' \<and>
                         db2 = Some (d1\<lparr>ddl_log := ddl_log d1 @
                                 [AlterTableAddColumn ''releases'' ''release_type'']\<rparr>))))"
proof (cases "APP_STATE env")
  case None
  then show ?thesis
    by (simp add: initializeDatabase_no_kv option.rel_refl same_data_def split: option.split)
next
  case (Some kv)
  define v where "v = parseInt_or_0 (map_of kv ''DB_SCHEMA_VERSION'')"
  show ?thesis
  proof (cases db)
    case None
    then show ?thesis
      using Some by (simp add: initializeDatabase_no_db)
  next
    case d: (Some d)
    note init = initializeDatabase_Some [OF Some, of d, folded v_def]
    have done2: "initializeDatabase (Some d') (env\<lparr>APP_STATE := Some (AList.update ''DB_SCHEMA_VERSION'' ''2'' kv')\<rparr>)
        = (Inr True, Some d', env\<lparr>APP_STATE := Some (AList.update ''DB_SCHEMA_VERSION'' ''2'' kv')\<rparr>)" for d' kv'
      by (subst initializeDatabase_Some [where kv = "AList.update ''DB_SCHEMA_VERSION'' ''2'' kv'"])
        (simp_all add: map_of_update_same parseInt_2)
    consider (zero) "v = 0" | (low) "v \<noteq> 0" "v < 2" | (current) "v \<noteq> 0" "\<not> v < 2" by blast
    then show ?thesis
    proof cases
      case zero
      obtain r d3 where a: "alter_table_add_column (create_tables d) ''releases'' release_type_column = (r, d3)"
        by (cases "alter_table_add_column (create_tables d) ''releases'' release_type_column")
      show ?thesis
      proof (cases r)
        case (Inl e)
        note l = alter_fails_log [OF a [unfolded Inl], unfolded release_type_column_name]
        define d4 where "d4 = d3\<lparr>ddl_log := ddl_log d3 @ [AlterTableAddColumn ''releases'' ''release_type'']\<rparr>"
        have 4: "alter_table_add_column d3 ''releases'' release_type_column = (Inl e, d4)"
          using l(2) by (simp add: d4_def)
        have sd: "same_data d3 d4" by (simp add: d4_def same_data_def)
        have lg: "ddl_log d3 \<noteq> []" "last (ddl_log d3) = AlterTableAddColumn ''releases'' ''release_type''"
          by (subst l(1), simp)+
        have "initializeDatabase (Some d3) (env\<lparr>APP_STATE := Some (AList.update ''DB_SCHEMA_VERSION'' ''1'' kv)\<rparr>)
          = (Inr False, Some d4, env\<lparr>APP_STATE := Some (AList.update ''DB_SCHEMA_VERSION'' ''1'' kv)\<rparr>)"
          by (subst initializeDatabase_Some [where kv = "AList.update ''DB_SCHEMA_VERSION'' ''1'' kv"])
            (simp_all add: map_of_update_same parseInt_1 4)
        then show ?thesis
          using zero a Inl sd lg by (simp add: d init d4_def)
      next
        case (Inr x)
        then show ?thesis
          using zero a by (simp add: d init done2)
      qed
    next
      case low
      obtain r d3 where a: "alter_table_add_column d ''releases'' release_type_column = (r, d3)"
        by (cases "alter_table_add_column d ''releases'' release_type_column")
      show ?thesis
      proof (cases r)
        case (Inl e)
        note l = alter_fails_log [OF a [unfolded Inl], unfolded release_type_column_name]
        define d4 where "d4 = d3\<lparr>ddl_log := ddl_log d3 @ [AlterTableAddColumn ''releases'' ''release_type'']\<rparr>"
        have 4: "alter_table_add_column d3 ''releases'' release_type_column = (Inl e, d4)"
          using l(2) by (simp add: d4_def)
        have sd: "same_data d3 d4" by (simp add: d4_def same_data_def)
        have lg: "ddl_log d3 \<noteq> []" "last (ddl_log d3) = AlterTableAddColumn ''releases'' ''release_type''"
          by (subst l(1), simp)+
        have "initializeDatabase (Some d3) env = (Inr False, Some d4, env)"
          using low 4 by (simp add: initializeDatabase_Some [OF Some, of d3, folded v_def])
        then show ?thesis
          using low a Inl sd lg Some by (simp add: d init d4_def)
      next
        case (Inr x)
        then show ?thesis
          using low a by (simp add: d init done2)
      qed
    next
      case current
      then show ?thesis by (simp add: d init)
    qed
  qed
qed

lemma initializeDatabase_fresh:
  "initializeDatabase (Some (new_database ''2024-06-02 10:00:00'')) example_env =
     (Inr True, Some fresh_db, initialized_env)"
  by code_simp

lemma initializeDatabase_lost_key:
  "fst (initializeDatabase (Some example_db) example_env) = Inr False \<and>
   fst (snd (initializeDatabase (Some example_db) example_env)) \<noteq> None \<and>
   APP_STATE (snd (snd (initializeDatabase (Some example_db) example_env))) \<noteq> None"
  by code_simp


theorem initializeDatabase_twice_witness:
  "initializeDatabase (Some (new_database ''2024-06-02 10:00:00'')) example_env =
     (Inr True, Some fresh_db, initialized_env) \<and>
   initializeDatabase (Some fresh_db) initialized_env = (Inr True, Some fresh_db, initialized_env) \<and>
   (case initializeDatabase (Some example_db) example_env of
      (b1, db1, env1) \<Rightarrow>
        b1 = Inr False \<and> db1 \<noteq> None \<and> APP_STATE env1 \<noteq> None \<and>
        (case initializeDatabase db1 env1 of
           (b2, db2, env2) \<Rightarrow>
             b2 = Inr False \<and> env2 = env1 \<and>
             map_option tables db2 = map_option tables db1 \<and>
             map_option ddl_log db2 =
               map_option (\<lambda>d. ddl_log d @ [AlterTableAddColumn ''releases'' ''release_type'']) db1))"
proof -
  obtain b2 db2 env2 where 2: "initializeDatabase (Some fresh_db) initialized_env = (b2, db2, env2)"
    by (cases "initializeDatabase (Some fresh_db) initialized_env")
  from initializeDatabase_twice [of "Some (new_database ''2024-06-02 10:00:00'')" example_env]
  have "b2 = Inr True \<and> env2 = initialized_env \<and> db2 = Some fresh_db"
    by (simp add: initializeDatabase_fresh 2)
  then have A: "initializeDatabase (Some fresh_db) initialized_env =
      (Inr True, Some fresh_db, initialized_env)"
    using 2 by simp
  obtain c1 d1 e1 where 3: "initializeDatabase (Some example_db) example_env = (c1, d1, e1)"
    by (cases "initializeDatabase (Some example_db) example_env")
  obtain c2 d2 e2 where 4: "initializeDatabase d1 e1 = (c2, d2, e2)"
    by (cases "initializeDatabase d1 e1")
  from initializeDatabase_lost_key have 5: "c1 = Inr False" "d1 \<noteq> None" "APP_STATE e1 \<noteq> None"
    by (simp_all add: 3)
  from 5(2) obtain x1 where 6: "d1 = Some x1" by (cases d1) simp_all
  from initializeDatabase_twice [of "Some example_db" example_env]
  have "c2 = Inr False \<and> e2 = e1 \<and>
      d2 = Some (x1\<lparr>ddl_log := ddl_log x1 @ [AlterTableAddColumn ''releases'' ''release_type'']\<rparr>)"
    using 5 by (simp add: 3 4 [unfolded 6] 6)
  then have B: "c2 = Inr False \<and> e2 = e1 \<and> map_option tables d2 = map_option tables d1 \<and>
      map_option ddl_log d2 =
        map_option (\<lambda>d. ddl_log d @ [AlterTableAddColumn ''releases'' ''release_type'']) d1"
    by (simp add: 6)
  from initializeDatabase_fresh A 5 B show ?thesis by (simp add: 3 4 [unfolded 6] 6)
qed

text \<open>
  C4 as the specification states it ("for every starting state ... returns true") fails
  where the version key has been lost while the database holds the current schema: the
  first run sets the key to 1 and fails on the column that is already there, and so
  does the second.
\<close>

theorem initializeDatabase_second_run_false_counterexample:
  "fst (initializeDatabase (Some example_db) example_env) = Inr False \<and>
   (case initializeDatabase (Some example_db) example_env of
      (b1, db1, env1) \<Rightarrow> fst (initializeDatabase db1 env1)) = Inr False"
  by code_simp

section \<open>Initialization from version 0\<close>

lemma cell_build_row:
  "cell (build_row cs assigns i now) n =
     (case find (\<lambda>c. col_name c = n) cs of
        None \<Rightarrow> NULL
      | Some c \<Rightarrow>
          if col_pk c then INTEGER i
          else (case map_of assigns n of
                  Some v \<Rightarrow> v
                | None \<Rightarrow> default_value now (col_default c)))"
  by (induction cs) (auto simp add: cell_def build_row_def)

lemma find_snoc:
  "find P (xs @ [y]) = (case find P xs of Some x \<Rightarrow> Some x | None \<Rightarrow> if P y then Some y else None)"
  by (induction xs) auto

lemma find_no_col: "\<not> has_col t n \<Longrightarrow> find (\<lambda>c. col_name c = n) (cols t) = None"
  by (auto simp add: has_col_def find_None_iff)

lemma find_release_type:
  "\<not> has_col t ''release_type'' \<Longrightarrow>
   find (\<lambda>c. col_name c = ''release_type'') (cols t @ [release_type_column]) = Some release_type_column"
  by (simp add: find_snoc find_no_col release_type_column_def)

lemma insert_into_Inr:
  assumes "insert_into d n assigns = (Inr res, d')"
  shows "\<exists>t. get_table d n = Some t \<and>
     check_row (cols t) (build_row (cols t) assigns (next_rowid t) (current_timestamp d)) = None \<and>
     d' = (put_table d n
             (t\<lparr>rows := rows t @ [build_row (cols t) assigns (next_rowid t) (current_timestamp d)],
                seq := next_rowid t\<rparr>))\<lparr>last_insert_rowid := next_rowid t\<rparr>"
  using assms unfolding insert_into_def
  by (auto simp add: Let_def split: option.splits list.splits)

lemma put_table_last_insert_rowid [simp]:
  "get_table (d\<lparr>last_insert_rowid := i\<rparr>) n = get_table d n"
  by (simp add: get_table_def)

lemma release_type_checked:
  assumes "check_row (cs @ [release_type_column]) r = None"
  shows "cell r ''release_type'' = TEXT ''FULL'' \<or> cell r ''release_type'' = TEXT ''HOTFIX''"
proof -
  have "check_column release_type_column (cell r (col_name release_type_column)) = None"
    using assms by (simp add: check_row_def first_error_None)
  then show ?thesis
    by (simp add: check_column_def release_type_column_def split: if_splits)
qed

text \<open>
  C3. When the version key is absent or does not parse (or reads 0) and
  \<^verbatim>\<open>initializeDatabase\<close> returns \<^verbatim>\<open>true\<close>, the key holds "2", the target version; both
  tables exist (made with the declared columns when they were missing); \<^verbatim>\<open>releases\<close> has
  the column \<^verbatim>\<open>release_type\<close> as \<^verbatim>\<open>applyMigrations\<close> declares it (NOT NULL, CHECK IN
  ('FULL', 'HOTFIX'), DEFAULT 'FULL'); every row there reads FULL; and every later
  INSERT that succeeds stores FULL or HOTFIX in it, FULL when the statement does not
  name the column.
\<close>

theorem initializeDatabase_from_version_0:
  assumes kv: "APP_STATE env = Some kv"
    and v0: "parseInt_or_0 (map_of kv ''DB_SCHEMA_VERSION'') = 0"
    and ok: "initializeDatabase db env = (Inr True, db', env')"
  shows "\<exists>d' kv' t et.
     db' = Some d' \<and> APP_STATE env' = Some kv' \<and>
     map_of kv' ''DB_SCHEMA_VERSION'' = Some (toString CURRENT_SCHEMA_VERSION) \<and>
     parseInt_or_0 (map_of kv' ''DB_SCHEMA_VERSION'') = 2 \<and>
     get_table d' ''releases'' = Some t \<and> get_table d' ''excluded_tickets'' = Some et \<and>
     find (\<lambda>c. col_name c = ''release_type'') (cols t) = Some release_type_column \<and>
     (\<forall>r\<in>set (rows t). cell r ''release_type'' = TEXT ''FULL'') \<and>
     (\<forall>assigns res d''. insert_into d' ''releases'' assigns = (Inr res, d'') \<longrightarrow>
        (\<exists>t'' r. get_table d'' ''releases'' = Some t'' \<and> rows t'' = rows t @ [r] \<and>
           (cell r ''release_type'' = TEXT ''FULL'' \<or> cell r ''release_type'' = TEXT ''HOTFIX'') \<and>
           (map_of assigns ''release_type'' = None \<longrightarrow> cell r ''release_type'' = TEXT ''FULL''))) \<and>
     (\<forall>d. db = Some d \<and> get_table d ''releases'' = None \<longrightarrow>
        cols t = releases_columns @ [release_type_column] \<and> rows t = []) \<and>
     (\<forall>d. db = Some d \<and> get_table d ''excluded_tickets'' = None \<longrightarrow>
        cols et = excluded_tickets_columns \<and> rows et = [])"
proof (cases db)
  case None
  then show ?thesis using ok v0 by (simp add: initializeDatabase_no_db [OF kv])
next
  case (Some d)
  obtain r d3 where a: "alter_table_add_column (create_tables d) ''releases'' release_type_column = (r, d3)"
    by (cases "alter_table_add_column (create_tables d) ''releases'' release_type_column")
  from ok have r: "r = Inr \<lparr>success = True, changes = 0\<rparr> \<or> (\<exists>x. r = Inr x)" and d': "db' = Some d3"
    and env': "env' = env\<lparr>APP_STATE := Some (AList.update ''DB_SCHEMA_VERSION'' ''2''
               (AList.update ''DB_SCHEMA_VERSION'' ''1'' kv))\<rparr>"
    unfolding Some initializeDatabase_Some [OF kv] using v0 a
    by (auto split: sum.splits)
  obtain t0 where t0: "get_table (create_tables d) ''releases'' = Some t0"
    by (cases "get_table d ''releases''") (auto simp add: get_table_create_tables)
  obtain et where et0: "get_table (create_tables d) ''excluded_tickets'' = Some et"
    by (cases "get_table d ''excluded_tickets''") (auto simp add: get_table_create_tables)
  define t where "t = t0\<lparr>cols := cols t0 @ [release_type_column],
     rows := map (AList.update ''release_type'' (TEXT ''FULL'')) (rows t0)\<rparr>"
  from a r t0 have nc: "\<not> has_col t0 ''release_type''"
    and d3: "d3 = (put_table (create_tables d) ''releases'' t)
       \<lparr>ddl_log := ddl_log (create_tables d) @ [AlterTableAddColumn ''releases'' ''release_type'']\<rparr>"
    unfolding alter_cases t_def
    by (auto simp add: release_type_column_def default_value_def split: if_splits)
  have 1: "map_of (AList.update ''DB_SCHEMA_VERSION'' ''2'' (AList.update ''DB_SCHEMA_VERSION'' ''1'' kv))
      ''DB_SCHEMA_VERSION'' = Some (toString CURRENT_SCHEMA_VERSION)"
    by (simp add: map_of_update_same toString_version)
  have 2: "parseInt_or_0 (map_of (AList.update ''DB_SCHEMA_VERSION'' ''2''
      (AList.update ''DB_SCHEMA_VERSION'' ''1'' kv)) ''DB_SCHEMA_VERSION'') = 2"
    by (simp add: map_of_update_same parseInt_2)
  have 3: "get_table d3 ''releases'' = Some t" by (simp add: d3 get_put_table)
  have 4: "get_table d3 ''excluded_tickets'' = Some et" by (simp add: d3 get_put_table et0)
  have 5: "find (\<lambda>c. col_name c = ''release_type'') (cols t) = Some release_type_column"
    using nc by (simp add: t_def find_release_type)
  have 6: "\<forall>r\<in>set (rows t). cell r ''release_type'' = TEXT ''FULL''"
    by (simp add: t_def cell_update)
  have 7: "\<exists>t'' r. get_table d'' ''releases'' = Some t'' \<and> rows t'' = rows t @ [r] \<and>
           (cell r ''release_type'' = TEXT ''FULL'' \<or> cell r ''release_type'' = TEXT ''HOTFIX'') \<and>
           (map_of assigns ''release_type'' = None \<longrightarrow> cell r ''release_type'' = TEXT ''FULL'')"
    if i: "insert_into d3 ''releases'' assigns = (Inr res, d'')" for assigns res d''
  proof -
    define row where "row = build_row (cols t) assigns (next_rowid t) (current_timestamp d3)"
    from insert_into_Inr [OF i] 3
    have c: "check_row (cols t) row = None"
      and d'': "d'' = (put_table d3 ''releases'' (t\<lparr>rows := rows t @ [row], seq := next_rowid t\<rparr>))
          \<lparr>last_insert_rowid := next_rowid t\<rparr>"
      by (auto simp add: row_def)
    have g: "get_table d'' ''releases'' = Some (t\<lparr>rows := rows t @ [row], seq := next_rowid t\<rparr>)"
      by (simp add: d'' get_put_table)
    have k: "cell row ''release_type'' = TEXT ''FULL'' \<or> cell row ''release_type'' = TEXT ''HOTFIX''"
      using c by (simp add: t_def release_type_checked)
    have f: "map_of assigns ''release_type'' = None \<longrightarrow> cell row ''release_type'' = TEXT ''FULL''"
      by (simp add: row_def cell_build_row 5) (simp add: release_type_column_def default_value_def)
    from g k f show ?thesis by auto
  qed
  have 8: "cols t = releases_columns @ [release_type_column] \<and> rows t = []"
    if "get_table d ''releases'' = None"
    using that t0 by (auto simp add: get_table_create_tables t_def)
  have 9: "cols et = excluded_tickets_columns \<and> rows et = []"
    if "get_table d ''excluded_tickets'' = None"
    using that et0 by (auto simp add: get_table_create_tables)
  show ?thesis
    apply (rule exI [of _ d3], rule exI [of _ "AList.update ''DB_SCHEMA_VERSION'' ''2''
               (AList.update ''DB_SCHEMA_VERSION'' ''1'' kv)"], rule exI [of _ t], rule exI [of _ et])
    apply (intro conjI allI impI)
    using d' env' 1 2 3 4 5 6 7 8 9 Some by simp_all
qed

theorem initializeDatabase_from_version_0_witness:
  "APP_STATE example_env = Some [] \<and>
   parseInt_or_0 (map_of [] ''DB_SCHEMA_VERSION'') = 0 \<and>
   initializeDatabase (Some (new_database ''2024-06-02 10:00:00'')) example_env =
     (Inr True, Some fresh_db, initialized_env) \<and>
   (\<exists>d' kv' t et.
     Some fresh_db = Some d' \<and> APP_STATE initialized_env = Some kv' \<and>
     map_of kv' ''DB_SCHEMA_VERSION'' = Some (toString CURRENT_SCHEMA_VERSION) \<and>
     parseInt_or_0 (map_of kv' ''DB_SCHEMA_VERSION'') = 2 \<and>
     get_table d' ''releases'' = Some t \<and> get_table d' ''excluded_tickets'' = Some et \<and>
     find (\<lambda>c. col_name c = ''release_type'') (cols t) = Some release_type_column \<and>
     (\<forall>r\<in>set (rows t). cell r ''release_type'' = TEXT ''FULL'') \<and>
     (\<forall>assigns res d''. insert_into d' ''releases'' assigns = (Inr res, d'') \<longrightarrow>
        (\<exists>t'' r. get_table d'' ''releases'' = Some t'' \<and> rows t'' = rows t @ [r] \<and>
           (cell r ''release_type'' = TEXT ''FULL'' \<or> cell r ''release_type'' = TEXT ''HOTFIX'') \<and>
           (map_of assigns ''release_type'' = None \<longrightarrow> cell r ''release_type'' = TEXT ''FULL''))) \<and>
     (\<forall>d. Some (new_database ''2024-06-02 10:00:00'') = Some d \<and> get_table d ''releases'' = None \<longrightarrow>
        cols t = releases_columns @ [release_type_column] \<and> rows t = []) \<and>
     (\<forall>d. Some (new_database ''2024-06-02 10:00:00'') = Some d \<and> get_table d ''excluded_tickets'' = None \<longrightarrow>
        cols et = excluded_tickets_columns \<and> rows et = [])) \<and>
   fst (insert_into fresh_db ''releases''
          [(''release_date'', TEXT ''2024-06-02''), (''status'', TEXT ''GO''),
           (''created_by'', TEXT ''a@x.com'')]) = Inr \<lparr>success = True, changes = 1\<rparr>"
proof -
  have 1: "APP_STATE example_env = Some []" by (simp add: example_env_def)
  have 2: "parseInt_or_0 (map_of [] ''DB_SCHEMA_VERSION'') = 0" by (simp add: parseInt_absent)
  have 4: "fst (insert_into fresh_db ''releases''
          [(''release_date'', TEXT ''2024-06-02''), (''status'', TEXT ''GO''),
           (''created_by'', TEXT ''a@x.com'')]) = Inr \<lparr>success = True, changes = 1\<rparr>"
    by code_simp
  from 1 2 initializeDatabase_fresh
    initializeDatabase_from_version_0 [OF 1 2 initializeDatabase_fresh] 4
  show ?thesis by (intro conjI)
qed

section \<open>Failure of \<^verbatim>\<open>initializeDatabase\<close> and its callers\<close>

lemma initializeDatabase_try_cases:
  "(\<exists>e s. initializeDatabase_try db env = (Inl e, s)) \<or> (\<exists>s. initializeDatabase_try db env = (Inr True, s))"
  unfolding initializeDatabase_try_def
  by (simp add: Let_def split: option.split prod.split sum.split)

text \<open>
  C5, as the code has it. \<^verbatim>\<open>initializeDatabase\<close> never throws: it returns \<^verbatim>\<open>false\<close>
  exactly when a step of its \<^verbatim>\<open>try\<close> block fails and \<^verbatim>\<open>true\<close> exactly when the block
  ends, and leaves both stores where that step left them. Its callers do not look
  at the value: \<^verbatim>\<open>handleGetReleases\<close> goes on to \<^verbatim>\<open>fetchRecentReleases\<close> and
  \<^verbatim>\<open>handleCreateRelease\<close> to \<^verbatim>\<open>createRelease\<close> on the database as the call left it,
  and answer with an error only when one of those throws.
\<close>

theorem initializeDatabase_never_throws:
  "(\<exists>b. fst (initializeDatabase db env) = Inr b) \<and>
   (fst (initializeDatabase db env) = Inr False) = (\<exists>e. fst (initializeDatabase_try db env) = Inl e) \<and>
   (fst (initializeDatabase db env) = Inr True) = (fst (initializeDatabase_try db env) = Inr True) \<and>
   snd (initializeDatabase db env) = snd (initializeDatabase_try db env) \<and>
   handleGetReleases (Some d) env =
     (case initializeDatabase (Some d) env of
        (b, db1, env1) \<Rightarrow>
          (case on_db db1 (\<lambda>d. fetchRecentReleases d 10) of
             (Inl e, db2) \<Rightarrow> (ErrorHtml e, db2, env1)
           | (Inr releases, db2) \<Rightarrow> (ReleasesHtml releases, db2, env1))) \<and>
   handleCreateRelease db env jira json userEmail =
     (case initializeDatabase db env of
        (b, db1, env1) \<Rightarrow>
          (case on_db db1 (\<lambda>d. createRelease d (req_release json)
                                   (List.map_filter id (ticketDetails env1 jira (req_tickets json)))
                                   userEmail) of
             (Inl e, db2) \<Rightarrow> (ErrorJson500 e, db2, env1)
           | (Inr release, db2) \<Rightarrow>
               (case on_db db2 (\<lambda>d. fetchRecentReleases d 10) of
                  (Inl e, db3) \<Rightarrow> (ErrorJson500 e, db3, env1)
                | (Inr releases, db3) \<Rightarrow> (ReleasesHtml releases, db3, env1))))"
proof -
  obtain r s where t: "initializeDatabase_try db env = (r, s)"
    by (cases "initializeDatabase_try db env")
  from initializeDatabase_try_cases [of db env] t
  have r: "(\<exists>e. r = Inl e) \<or> r = Inr True" by auto
  have i: "initializeDatabase db env = (case r of Inl e \<Rightarrow> Inr False | Inr b \<Rightarrow> Inr b, s)"
    by (cases s) (simp add: initializeDatabase_def t split: sum.split)
  have 1: "\<exists>b. fst (initializeDatabase db env) = Inr b"
    using r by (auto simp add: i)
  have 2: "(fst (initializeDatabase db env) = Inr False) = (\<exists>e. fst (initializeDatabase_try db env) = Inl e)"
    using r by (auto simp add: i t)
  have 3: "(fst (initializeDatabase db env) = Inr True) = (fst (initializeDatabase_try db env) = Inr True)"
    using r by (auto simp add: i t)
  have 4: "snd (initializeDatabase db env) = snd (initializeDatabase_try db env)"
    by (simp add: i t)
  have ex: "\<exists>b db1 env1. initializeDatabase db' env = (Inr b, db1, env1)" for db'
  proof -
    obtain r' d' e' where t': "initializeDatabase_try db' env = (r', d', e')"
      by (cases "initializeDatabase_try db' env")
    show ?thesis by (cases r') (auto simp add: initializeDatabase_def t')
  qed
  have 5: "handleGetReleases (Some d) env =
     (case initializeDatabase (Some d) env of
        (b, db1, env1) \<Rightarrow>
          (case on_db db1 (\<lambda>d. fetchRecentReleases d 10) of
             (Inl e, db2) \<Rightarrow> (ErrorHtml e, db2, env1)
           | (Inr releases, db2) \<Rightarrow> (ReleasesHtml releases, db2, env1)))"
    using ex [of "Some d"] by (auto simp add: handleGetReleases_def)
  have 6: "handleCreateRelease db env jira json userEmail =
     (case initializeDatabase db env of
        (b, db1, env1) \<Rightarrow>
          (case on_db db1 (\<lambda>d. createRelease d (req_release json)
                                   (List.map_filter id (ticketDetails env1 jira (req_tickets json)))
                                   userEmail) of
             (Inl e, db2) \<Rightarrow> (ErrorJson500 e, db2, env1)
           | (Inr release, db2) \<Rightarrow>
               (case on_db db2 (\<lambda>d. fetchRecentReleases d 10) of
                  (Inl e, db3) \<Rightarrow> (ErrorJson500 e, db3, env1)
                | (Inr releases, db3) \<Rightarrow> (ReleasesHtml releases, db3, env1))))"
    using ex [of db] by (auto simp add: handleCreateRelease_def)
  from 1 2 3 4 5 6 show ?thesis by (intro conjI)
qed

theorem initializeDatabase_never_throws_witness:
  "fst (initializeDatabase (Some example_db) example_env) = Inr False \<and>
   (\<exists>e. fst (initializeDatabase_try (Some example_db) example_env) = Inl e)"
proof -
  have f: "fst (initializeDatabase (Some example_db) example_env) = Inr False"
    by code_simp
  with initializeDatabase_never_throws [of "Some example_db" example_env, THEN conjunct2, THEN conjunct1]
  show ?thesis by simp
qed

text \<open>
  C5 as the specification states it fails for the callers: with the version key lost
  and the schema in place, \<^verbatim>\<open>initializeDatabase\<close> returns \<^verbatim>\<open>false\<close> and
  \<^verbatim>\<open>handleGetReleases\<close> still answers with the list of releases.
\<close>

theorem handleGetReleases_proceeds_counterexample:
  "fst (initializeDatabase (Some example_db) example_env) = Inr False \<and>
   fst (handleGetReleases (Some example_db) example_env) =
     ReleasesHtml [with_tickets example_excluded_tickets example_release_row]"
  by code_simp

section \<open>A failing child insert in \<^verbatim>\<open>createRelease\<close>\<close>

text \<open>
  C2 at a failing input. On the initialized database, \<^verbatim>\<open>createRelease\<close> with a first
  ticket that is fine and a second whose key is \<^verbatim>\<open>null\<close> throws the NOT NULL error of
  the second child insert, and the database it leaves holds the parent row and the
  first child: no statement is rolled back.
\<close>

theorem createRelease_orphaned_parent:
  "createRelease fresh_db
     example_release [hd example_tickets, ticket_without_key] ''a@x.com'' =
   (Inl (NotNullViolation ''ticket_key''),
    (put_table (put_table example_db ''releases'' example_releases) ''excluded_tickets''
       (example_excluded_tickets\<lparr>rows := [hd (rows example_excluded_tickets)], seq := 1\<rparr>))
      \<lparr>last_insert_rowid := 1\<rparr>)"
  by code_simp


section \<open>Call sequences and their invariants\<close>

lemma run_invariant:
  assumes "I db" and "\<And>d c. I d \<Longrightarrow> I (apply_call d c)"
  shows "I (run db calls)"
  unfolding run_def using assms(1)
  by (induction calls arbitrary: db) (auto intro: assms(2))

lemma apply_call_Initialize_cases:
  "apply_call d (Initialize env) = d \<or>
   apply_call d (Initialize env) = snd (alter_table_add_column d ''releases'' release_type_column) \<or>
   apply_call d (Initialize env) =
     snd (alter_table_add_column (create_tables d) ''releases'' release_type_column)"
proof (cases "APP_STATE env")
  case None
  then show ?thesis by (simp add: initializeDatabase_no_kv)
next
  case (Some kv)
  show ?thesis
    by (simp add: initializeDatabase_Some [OF Some] split: prod.split sum.split)
qed

lemma fetchReleaseById_snd: "snd (fetchReleaseById db i) = db"
  by (simp add: fetchReleaseById_def split: sum.split list.split)

lemma fetchRecentReleases_snd: "snd (fetchRecentReleases db n) = db"
  by (simp add: fetchRecentReleases_def split: sum.split)

lemma insert_into_cases:
  "insert_into d n assigns = (r, d') \<Longrightarrow>
   (\<exists>e. r = Inl e \<and> d' = d) \<or>
   (\<exists>t. r = Inr \<lparr>success = True, changes = 1\<rparr> \<and> get_table d n = Some t \<and>
      check_row (cols t) (build_row (cols t) assigns (next_rowid t) (current_timestamp d)) = None \<and>
      check_fks d (cols t) (build_row (cols t) assigns (next_rowid t) (current_timestamp d)) = None \<and>
      filter (\<lambda>c. \<not> has_col t c) (map fst assigns) = [] \<and>
      d' = (put_table d n
             (t\<lparr>rows := rows t @ [build_row (cols t) assigns (next_rowid t) (current_timestamp d)],
                seq := next_rowid t\<rparr>))\<lparr>last_insert_rowid := next_rowid t\<rparr>)"
  unfolding insert_into_def
  by (auto simp add: Let_def split: option.splits list.splits)

lemma createRelease_snd:
  "snd (createRelease d release tickets u) =
     (case insert_into d ''releases''
             [(''release_date'', bind (release_date release)),
              (''status'', bind (status release)),
              (''release_type'', bind (release_type release)),
              (''explanation'', bind (or_null (explanation release))),
              (''created_by'', TEXT u)] of
        (Inl e, d1) \<Rightarrow> d1
      | (Inr res, d1) \<Rightarrow> snd (insert_tickets d1 (last_insert_rowid d1) tickets u))"
proof -
  obtain r d1 where i: "insert_into d ''releases''
             [(''release_date'', bind (release_date release)),
              (''status'', bind (status release)),
              (''release_type'', bind (release_type release)),
              (''explanation'', bind (or_null (explanation release))),
              (''created_by'', TEXT u)] = (r, d1)"
    by (cases "insert_into d ''releases''
             [(''release_date'', bind (release_date release)),
              (''status'', bind (status release)),
              (''release_type'', bind (release_type release)),
              (''explanation'', bind (or_null (explanation release))),
              (''created_by'', TEXT u)]")
  from insert_into_cases [OF i] show ?thesis
    unfolding createRelease_def i
    by (auto simp add: Let_def fetchReleaseById_snd split: prod.split sum.split)
qed

text \<open>What the loop over the tickets does to the tables other than \<^verbatim>\<open>excluded_tickets\<close>.\<close>

lemma insert_tickets_other_tables:
  "n \<noteq> ''excluded_tickets'' \<Longrightarrow>
   get_table (snd (insert_tickets d i ts u)) n = get_table d n"
proof (induction ts arbitrary: d)
  case Nil
  then show ?case by simp
next
  case (Cons t ts)
  obtain r d1 where s: "insert_into d ''excluded_tickets''
             [(''release_id'', INTEGER i),
              (''ticket_key'', bind (key t)),
              (''ticket_summary'', bind (summary t)),
              (''ticket_url'', bind (url t)),
              (''created_by'', TEXT u)] = (r, d1)"
    by (cases "insert_into d ''excluded_tickets''
             [(''release_id'', INTEGER i),
              (''ticket_key'', bind (key t)),
              (''ticket_summary'', bind (summary t)),
              (''ticket_url'', bind (url t)),
              (''created_by'', TEXT u)]")
  from insert_into_cases [OF s] Cons show ?case
    by (auto simp add: s get_put_table)
qed

lemma insert_tickets_schema:
  "get_table d ''excluded_tickets'' = Some et \<Longrightarrow>
   \<exists>et'. get_table (snd (insert_tickets d i ts u)) ''excluded_tickets'' = Some et' \<and> cols et' = cols et"
proof (induction ts arbitrary: d et)
  case Nil
  then show ?case by simp
next
  case (Cons t ts)
  obtain r d1 where s: "insert_into d ''excluded_tickets''
             [(''release_id'', INTEGER i),
              (''ticket_key'', bind (key t)),
              (''ticket_summary'', bind (summary t)),
              (''ticket_url'', bind (url t)),
              (''created_by'', TEXT u)] = (r, d1)"
    by (cases "insert_into d ''excluded_tickets''
             [(''release_id'', INTEGER i),
              (''ticket_key'', bind (key t)),
              (''ticket_summary'', bind (summary t)),
              (''ticket_url'', bind (url t)),
              (''created_by'', TEXT u)]")
  from insert_into_cases [OF s] show ?case
  proof (elim disjE exE conjE)
    fix e assume "r = Inl e" "d1 = d"
    then show ?thesis using Cons.prems by (simp add: s)
  next
    fix t' assume r: "r = Inr \<lparr>success = True, changes = 1\<rparr>"
      and g: "get_table d ''excluded_tickets'' = Some t'"
      and d1: "d1 = (put_table d ''excluded_tickets''
             (t'\<lparr>rows := rows t' @ [build_row (cols t') [(''release_id'', INTEGER i),
              (''ticket_key'', bind (key t)),
              (''ticket_summary'', bind (summary t)),
              (''ticket_url'', bind (url t)),
              (''created_by'', TEXT u)] (next_rowid t') (current_timestamp d)],
                seq := next_rowid t'\<rparr>))\<lparr>last_insert_rowid := next_rowid t'\<rparr>"
    have "get_table d1 ''excluded_tickets'' = Some (t'\<lparr>rows := rows t' @ [build_row (cols t') [(''release_id'', INTEGER i),
              (''ticket_key'', bind (key t)),
              (''ticket_summary'', bind (summary t)),
              (''ticket_url'', bind (url t)),
              (''created_by'', TEXT u)] (next_rowid t') (current_timestamp d)],
                seq := next_rowid t'\<rparr>)"
      by (simp add: d1 get_put_table)
    from Cons.IH [OF this] g Cons.prems show ?thesis
      by (simp add: s r)
  qed
qed

section \<open>The closed sets of status and release type\<close>

lemma releases_valid_new: "releases_valid (new_database now)"
  by (simp add: releases_valid_def new_database_def get_table_def)

lemma releases_valid_create_tables: "releases_valid d \<Longrightarrow> releases_valid (create_tables d)"
  by (auto simp add: releases_valid_def get_table_create_tables split: option.splits)

lemma no_release_type_v1: "cols t = releases_columns \<Longrightarrow> \<not> has_col t ''release_type''"
  by (simp add: has_col_def releases_columns_def)

lemma has_release_type_v2: "cols t = releases_columns @ [release_type_column] \<Longrightarrow> has_col t ''release_type''"
  by (simp add: has_col_def release_type_column_def)

lemma releases_valid_alter:
  assumes "releases_valid d"
  shows "releases_valid (snd (alter_table_add_column d ''releases'' release_type_column))"
proof (cases "get_table d ''releases''")
  case None
  then show ?thesis by (simp add: alter_cases releases_valid_def)
next
  case (Some t)
  show ?thesis
  proof (cases "has_col t ''release_type''")
    case True
    then show ?thesis using assms Some
      by (simp add: alter_cases releases_valid_def release_type_column_def)
  next
    case False
    with assms Some have "cols t = releases_columns \<and> rows t = []"
      by (auto simp add: releases_valid_def has_release_type_v2)
    with False Some show ?thesis
      by (simp add: alter_cases releases_valid_def release_type_column_def get_put_table)
  qed
qed

lemma releases_valid_Initialize:
  "releases_valid d \<Longrightarrow> releases_valid (apply_call d (Initialize env))"
  using apply_call_Initialize_cases [of d env]
  by (auto simp add: releases_valid_alter releases_valid_create_tables simp del: apply_call.simps)

lemma releases_valid_same_table:
  "get_table d' ''releases'' = get_table d ''releases'' \<Longrightarrow> releases_valid d \<Longrightarrow> releases_valid d'"
  by (simp add: releases_valid_def)

lemma insert_release_valid:
  assumes v: "releases_valid d"
    and i: "insert_into d ''releases''
             [(''release_date'', dt), (''status'', s), (''release_type'', ty), (''explanation'', e),
              (''created_by'', TEXT u)] = (r, d1)"
  shows "releases_valid d1"
  using insert_into_cases [OF i]
proof (elim disjE exE conjE)
  fix err assume "d1 = d" then show ?thesis using v by simp
next
  fix t
  assume g: "get_table d ''releases'' = Some t"
    and c: "check_row (cols t) (build_row (cols t) [(''release_date'', dt), (''status'', s),
        (''release_type'', ty), (''explanation'', e), (''created_by'', TEXT u)]
        (next_rowid t) (current_timestamp d)) = None"
    and f: "filter (\<lambda>c. \<not> has_col t c) (map fst [(''release_date'', dt), (''status'', s),
        (''release_type'', ty), (''explanation'', e), (''created_by'', TEXT u)]) = []"
    and d1: "d1 = (put_table d ''releases''
             (t\<lparr>rows := rows t @ [build_row (cols t) [(''release_date'', dt), (''status'', s),
        (''release_type'', ty), (''explanation'', e), (''created_by'', TEXT u)] (next_rowid t) (current_timestamp d)],
                seq := next_rowid t\<rparr>))\<lparr>last_insert_rowid := next_rowid t\<rparr>"
  from f have h: "has_col t ''release_type''" unfolding filter_empty_conv by simp
  with v g have cols: "cols t = releases_columns @ [release_type_column]"
    and rows: "\<forall>r\<in>set (rows t).
              (cell r ''status'' = TEXT ''GO'' \<or> cell r ''status'' = TEXT ''NO_GO'') \<and>
              (cell r ''release_type'' = TEXT ''FULL'' \<or> cell r ''release_type'' = TEXT ''HOTFIX'')"
    by (auto simp add: releases_valid_def no_release_type_v1)
  from c have ok: "(s = TEXT ''GO'' \<or> s = TEXT ''NO_GO'') \<and> (ty = TEXT ''FULL'' \<or> ty = TEXT ''HOTFIX'')"
    unfolding cols build_release_row check_release_row by (auto split: if_splits)
  have cells: "cell (release_row i dt s ty e u now) ''status'' = s"
    "cell (release_row i dt s ty e u now) ''release_type'' = ty" for i now
    by (simp_all add: release_row_def cell_def)
  show ?thesis
    unfolding d1 releases_valid_def
    using rows ok by (simp add: get_put_table cols build_release_row cells)
qed

lemma releases_valid_Create:
  assumes "releases_valid d"
  shows "releases_valid (apply_call d (Create release tickets u))"
proof -
  obtain r d1 where i: "insert_into d ''releases''
             [(''release_date'', bind (release_date release)),
              (''status'', bind (status release)),
              (''release_type'', bind (release_type release)),
              (''explanation'', bind (or_null (explanation release))),
              (''created_by'', TEXT u)] = (r, d1)"
    by (cases "insert_into d ''releases''
             [(''release_date'', bind (release_date release)),
              (''status'', bind (status release)),
              (''release_type'', bind (release_type release)),
              (''explanation'', bind (or_null (explanation release))),
              (''created_by'', TEXT u)]")
  have v1: "releases_valid d1" by (rule insert_release_valid [OF assms i])
  have "releases_valid (snd (insert_tickets d1 (last_insert_rowid d1) tickets u))"
    by (rule releases_valid_same_table [OF _ v1]) (simp add: insert_tickets_other_tables)
  with v1 show ?thesis
    by (cases r) (simp_all add: createRelease_snd i)
qed

lemma releases_valid_Delete:
  assumes v: "releases_valid d"
  shows "releases_valid (apply_call d (Delete i u))"
proof -
  define m where "m = (\<lambda>r. if cell r ''id'' = INTEGER i \<and> cell r ''deleted_at'' = NULL
                           then set_cells [(''deleted_at'', TEXT (current_timestamp d)),
                                           (''deleted_by'', TEXT u)] r
                           else r)"
  have c: "cell (m r) ''status'' = cell r ''status''"
    "cell (m r) ''release_type'' = cell r ''release_type''" for r
    by (simp_all add: m_def cell_update)
  from deleteRelease_snd_cases [of d i u]
  consider "snd (deleteRelease d i u) = d"
    | t where "get_table d ''releases'' = Some t"
        "snd (deleteRelease d i u) = put_table d ''releases'' (t\<lparr>rows := map m (rows t)\<rparr>)"
    unfolding m_def by blast
  then have "releases_valid (snd (deleteRelease d i u))"
  proof cases
    case 1
    then show ?thesis using v by simp
  next
    case 2
    with v show ?thesis
      by (auto simp add: releases_valid_def get_put_table c)
  qed
  then show ?thesis by simp
qed

lemma releases_valid_Clock: "releases_valid d \<Longrightarrow> releases_valid (apply_call d (Clock now))"
  by (simp add: releases_valid_def get_table_def)

lemma releases_valid_apply_call: "releases_valid d \<Longrightarrow> releases_valid (apply_call d c)"
  by (cases c)
    (simp_all only: releases_valid_Initialize releases_valid_Create releases_valid_Delete
      releases_valid_Clock)

lemma releases_valid_run: "releases_valid (run (new_database now) calls)"
  by (rule run_invariant [where I = releases_valid, OF releases_valid_new releases_valid_apply_call])

lemma createRelease_rejected:
  assumes v: "releases_valid d"
    and bad: "(status release \<noteq> Some ''GO'' \<and> status release \<noteq> Some ''NO_GO'') \<or>
              (release_type release \<noteq> Some ''FULL'' \<and> release_type release \<noteq> Some ''HOTFIX'')"
  shows "\<exists>e. createRelease d release tickets u = (Inl e, d)"
proof -
  obtain r d1 where i: "insert_into d ''releases''
             [(''release_date'', bind (release_date release)),
              (''status'', bind (status release)),
              (''release_type'', bind (release_type release)),
              (''explanation'', bind (or_null (explanation release))),
              (''created_by'', TEXT u)] = (r, d1)"
    by (cases "insert_into d ''releases''
             [(''release_date'', bind (release_date release)),
              (''status'', bind (status release)),
              (''release_type'', bind (release_type release)),
              (''explanation'', bind (or_null (explanation release))),
              (''created_by'', TEXT u)]")
  have "\<exists>e. r = Inl e \<and> d1 = d"
    using insert_into_cases [OF i]
  proof (elim disjE exE conjE)
    fix e assume "r = Inl e" "d1 = d" then show ?thesis by simp
  next
    fix t
    assume g: "get_table d ''releases'' = Some t"
      and c: "check_row (cols t) (build_row (cols t) [(''release_date'', bind (release_date release)),
              (''status'', bind (status release)),
              (''release_type'', bind (release_type release)),
              (''explanation'', bind (or_null (explanation release))),
              (''created_by'', TEXT u)]
          (next_rowid t) (current_timestamp d)) = None"
      and f: "filter (\<lambda>c. \<not> has_col t c) (map fst [(''release_date'', bind (release_date release)),
              (''status'', bind (status release)),
              (''release_type'', bind (release_type release)),
              (''explanation'', bind (or_null (explanation release))),
              (''created_by'', TEXT u)]) = []"
    from f have h: "has_col t ''release_type''" unfolding filter_empty_conv by simp
    with v g have cols: "cols t = releases_columns @ [release_type_column]"
      by (auto simp add: releases_valid_def no_release_type_v1)
    from c have "(bind (status release) = TEXT ''GO'' \<or> bind (status release) = TEXT ''NO_GO'') \<and>
       (bind (release_type release) = TEXT ''FULL'' \<or> bind (release_type release) = TEXT ''HOTFIX'')"
      unfolding cols build_release_row check_release_row by (auto split: if_splits)
    with bad have False by (auto simp add: bind_def split: option.splits)
    then show ?thesis ..
  qed
  then show ?thesis by (auto simp add: createRelease_def i)
qed

text \<open>
  C9. In every state reached from a database with no table by calls of
  \<^verbatim>\<open>initializeDatabase\<close>, \<^verbatim>\<open>createRelease\<close> and \<^verbatim>\<open>deleteRelease\<close>, every row of
  \<^verbatim>\<open>releases\<close> has status GO or NO_GO and release type FULL or HOTFIX; and
  \<^verbatim>\<open>createRelease\<close> with a status or a release type outside these sets (\<^verbatim>\<open>null\<close> or any
  other text) throws and leaves the database as it was.
\<close>

theorem stored_releases_in_closed_sets:
  "(\<forall>t. get_table (run (new_database now) calls) ''releases'' = Some t \<longrightarrow>
      (\<forall>r\<in>set (rows t).
         (cell r ''status'' = TEXT ''GO'' \<or> cell r ''status'' = TEXT ''NO_GO'') \<and>
         (cell r ''release_type'' = TEXT ''FULL'' \<or> cell r ''release_type'' = TEXT ''HOTFIX''))) \<and>
   ((status release \<noteq> Some ''GO'' \<and> status release \<noteq> Some ''NO_GO'') \<or>
    (release_type release \<noteq> Some ''FULL'' \<and> release_type release \<noteq> Some ''HOTFIX'') \<longrightarrow>
      (\<exists>e. createRelease (run (new_database now) calls) release tickets u =
         (Inl e, run (new_database now) calls)))"
proof (intro conjI allI impI)
  fix t assume "get_table (run (new_database now) calls) ''releases'' = Some t"
  with releases_valid_run [of now calls]
  show "\<forall>r\<in>set (rows t).
         (cell r ''status'' = TEXT ''GO'' \<or> cell r ''status'' = TEXT ''NO_GO'') \<and>
         (cell r ''release_type'' = TEXT ''FULL'' \<or> cell r ''release_type'' = TEXT ''HOTFIX'')"
    by (auto simp add: releases_valid_def)
next
  assume "(status release \<noteq> Some ''GO'' \<and> status release \<noteq> Some ''NO_GO'') \<or>
    (release_type release \<noteq> Some ''FULL'' \<and> release_type release \<noteq> Some ''HOTFIX'')"
  with releases_valid_run [of now calls]
  show "\<exists>e. createRelease (run (new_database now) calls) release tickets u =
         (Inl e, run (new_database now) calls)"
    by (rule createRelease_rejected)
qed

theorem stored_releases_in_closed_sets_witness:
  "get_table example_db ''releases'' = Some example_releases \<and>
   example_release_row \<in> set (rows example_releases) \<and>
   (cell example_release_row ''status'' = TEXT ''GO'' \<or>
    cell example_release_row ''status'' = TEXT ''NO_GO'') \<and>
   (cell example_release_row ''release_type'' = TEXT ''FULL'' \<or>
    cell example_release_row ''release_type'' = TEXT ''HOTFIX'') \<and>
   (\<exists>e. createRelease example_db (example_release\<lparr>status := Some ''MAYBE''\<rparr>) example_tickets ''a@x.com'' =
      (Inl e, example_db))"
proof -
  note th = stored_releases_in_closed_sets [of "''2024-06-02 10:00:00''"
      "[Initialize example_env, Create example_release example_tickets ''a@x.com'']"
      "example_release\<lparr>status := Some ''MAYBE''\<rparr>" example_tickets "''a@x.com''",
      folded example_db_def]
  from th [THEN conjunct1, THEN spec, THEN mp, OF example_db_releases, THEN bspec,
      OF example_release_row_in]
  have 1: "(cell example_release_row ''status'' = TEXT ''GO'' \<or>
      cell example_release_row ''status'' = TEXT ''NO_GO'') \<and>
     (cell example_release_row ''release_type'' = TEXT ''FULL'' \<or>
      cell example_release_row ''release_type'' = TEXT ''HOTFIX'')" .
  from th [THEN conjunct2]
  have 2: "\<exists>e. createRelease example_db (example_release\<lparr>status := Some ''MAYBE''\<rparr>) example_tickets ''a@x.com'' =
      (Inl e, example_db)"
    by simp
  from example_db_releases example_release_row_in 1 2 show ?thesis by (intro conjI) simp_all
qed

section \<open>Listing the active releases\<close>

lemma fold_max_ge: "(a::int) \<le> fold max xs a" "x \<in> set xs \<Longrightarrow> x \<le> fold max xs a"
proof -
  show "a \<le> fold max xs a"
    by (induction xs arbitrary: a) (auto intro: order_trans [OF max.cobounded2])
  have a: "b \<le> fold max ys b" for b :: int and ys
    by (induction ys arbitrary: b) (auto intro: order_trans [OF max.cobounded2])
  show "x \<in> set xs \<Longrightarrow> x \<le> fold max xs a"
  proof (induction xs arbitrary: a)
    case Nil
    then show ?case by simp
  next
    case (Cons y ys)
    show ?case
    proof (cases "x = y")
      case True
      have "x \<le> max x a" by simp
      also have "\<dots> \<le> fold max ys (max x a)" by (rule a)
      finally show ?thesis using True by simp
    next
      case False
      with Cons show ?thesis by simp
    qed
  qed
qed

lemma next_rowid_gt: "r \<in> set (rows t) \<Longrightarrow> rowid r < next_rowid t"
proof -
  assume "r \<in> set (rows t)"
  then have "rowid r \<in> set (map rowid (rows t))" by simp
  then have "rowid r \<le> fold max (map rowid (rows t)) (max (seq t) 0)" by (rule fold_max_ge(2))
  then show ?thesis by (simp add: next_rowid_def)
qed

lemma rowid_cell: "cell r ''id'' = INTEGER i \<Longrightarrow> rowid r = i"
  by (simp add: rowid_def)

lemma fetchRecentReleases_eq:
  assumes "get_table db ''releases'' = Some t" and "releases_schema t"
    and "get_table db ''excluded_tickets'' = Some et" and "tickets_schema et"
  shows "fetchRecentReleases db n =
     (Inr (limit_rows n (order_by_desc ''created_at''
        (map (with_tickets et) (filter (\<lambda>r. cell r ''deleted_at'' = NULL) (rows t))))), db)"
proof -
  have "\<forall>c\<in>set [''deleted_at'', ''created_at'']. has_col t c"
    using releases_schema_has_col [OF assms(2)] by simp
  from select_releases_eq [OF assms this] show ?thesis
    by (simp add: fetchRecentReleases_def)
qed

lemma set_limit_rows: "set (limit_rows n rs) \<subseteq> set rs"
  by (auto simp add: limit_rows_def dest: in_set_takeD)

lemma length_limit_rows: "0 \<le> n \<Longrightarrow> length (limit_rows n rs) \<le> nat n"
  by (simp add: limit_rows_def)

lemma set_order_by_desc: "set (order_by_desc c rs) = set rs"
  by (simp add: order_by_desc_def)

lemma sorted_order_by_desc:
  "sorted_wrt (\<lambda>a b. sort_rank (cell b c) \<le> sort_rank (cell a c)) (order_by_desc c rs)"
  unfolding order_by_desc_def sorted_wrt_rev
  using sorted_sort_key [of "\<lambda>r. sort_rank (cell r c)" rs]
  by (simp add: sorted_map)

lemma sorted_limit_rows: "sorted_wrt P rs \<Longrightarrow> sorted_wrt P (limit_rows n rs)"
  by (simp add: limit_rows_def sorted_wrt_take)

lemma soft_deleted_create_tables: "soft_deleted rid d \<Longrightarrow> soft_deleted rid (create_tables d)"
  by (auto simp add: soft_deleted_def get_table_create_tables)

lemma soft_deleted_alter:
  assumes "soft_deleted rid d"
  shows "soft_deleted rid (snd (alter_table_add_column d ''releases'' release_type_column))"
proof -
  from assms obtain t et where t: "get_table d ''releases'' = Some t" and s: "releases_schema t"
    and et: "get_table d ''excluded_tickets'' = Some et" and es: "tickets_schema et"
    and ex: "\<exists>r\<in>set (rows t). cell r ''id'' = INTEGER rid"
    and al: "\<forall>r\<in>set (rows t). cell r ''id'' = INTEGER rid \<longrightarrow> cell r ''deleted_at'' \<noteq> NULL"
    unfolding soft_deleted_def by blast
  show ?thesis
  proof (cases "has_col t ''release_type''")
    case True
    then show ?thesis using assms t
      by (simp add: alter_cases soft_deleted_def release_type_column_def)
  next
    case False
    with s have c: "cols t = releases_columns"
      by (auto simp add: releases_schema_def has_release_type_v2)
    define t' where "t' = t\<lparr>cols := cols t @ [release_type_column],
       rows := map (AList.update ''release_type'' (TEXT ''FULL'')) (rows t)\<rparr>"
    have g: "get_table (snd (alter_table_add_column d ''releases'' release_type_column)) ''releases'' = Some t'"
      and ge: "get_table (snd (alter_table_add_column d ''releases'' release_type_column)) ''excluded_tickets'' = Some et"
      using False t et
      by (simp_all add: alter_cases release_type_column_def default_value_def get_put_table t'_def)
    have s': "releases_schema t'" by (simp add: t'_def releases_schema_def c)
    have ex': "\<exists>r\<in>set (rows t'). cell r ''id'' = INTEGER rid"
      using ex by (auto simp add: t'_def cell_update)
    have al': "\<forall>r\<in>set (rows t'). cell r ''id'' = INTEGER rid \<longrightarrow> cell r ''deleted_at'' \<noteq> NULL"
      using al by (auto simp add: t'_def cell_update)
    from g s' ge es ex' al' show ?thesis unfolding soft_deleted_def by blast
  qed
qed

lemma soft_deleted_Initialize:
  "soft_deleted rid d \<Longrightarrow> soft_deleted rid (apply_call d (Initialize env))"
  using apply_call_Initialize_cases [of d env]
  by (auto simp add: soft_deleted_alter soft_deleted_create_tables simp del: apply_call.simps)

lemma soft_deleted_insert_release:
  assumes v: "soft_deleted rid d"
    and i: "insert_into d ''releases''
             [(''release_date'', dt), (''status'', s), (''release_type'', ty), (''explanation'', e),
              (''created_by'', TEXT u)] = (r, d1)"
  shows "soft_deleted rid d1"
  using insert_into_cases [OF i]
proof (elim disjE exE conjE)
  fix err assume "d1 = d" then show ?thesis using v by simp
next
  fix t
  assume g: "get_table d ''releases'' = Some t"
    and f: "filter (\<lambda>c. \<not> has_col t c) (map fst [(''release_date'', dt), (''status'', s),
        (''release_type'', ty), (''explanation'', e), (''created_by'', TEXT u)]) = []"
    and d1: "d1 = (put_table d ''releases''
             (t\<lparr>rows := rows t @ [build_row (cols t) [(''release_date'', dt), (''status'', s),
        (''release_type'', ty), (''explanation'', e), (''created_by'', TEXT u)] (next_rowid t) (current_timestamp d)],
                seq := next_rowid t\<rparr>))\<lparr>last_insert_rowid := next_rowid t\<rparr>"
  from f have h: "has_col t ''release_type''" unfolding filter_empty_conv by simp
  from v g obtain et where s: "releases_schema t"
    and et: "get_table d ''excluded_tickets'' = Some et" and es: "tickets_schema et"
    and ex: "\<exists>r\<in>set (rows t). cell r ''id'' = INTEGER rid"
    and al: "\<forall>r\<in>set (rows t). cell r ''id'' = INTEGER rid \<longrightarrow> cell r ''deleted_at'' \<noteq> NULL"
    unfolding soft_deleted_def by auto
  from s h have cols: "cols t = releases_columns @ [release_type_column]"
    by (auto simp add: releases_schema_def no_release_type_v1)
  from ex obtain r0 where r0: "r0 \<in> set (rows t)" "cell r0 ''id'' = INTEGER rid" by blast
  from next_rowid_gt [OF r0(1)] rowid_cell [OF r0(2)] have ne: "next_rowid t \<noteq> rid" by simp
  define new where "new = release_row (next_rowid t) dt s ty e u (current_timestamp d)"
  have newid: "cell new ''id'' = INTEGER (next_rowid t)"
    by (simp add: new_def release_row_def cell_def)
  define t' where "t' = t\<lparr>rows := rows t @ [new], seq := next_rowid t\<rparr>"
  have g': "get_table d1 ''releases'' = Some t'"
    by (simp add: d1 get_put_table t'_def new_def cols build_release_row)
  have ge': "get_table d1 ''excluded_tickets'' = Some et"
    by (simp add: d1 get_put_table et)
  have s': "releases_schema t'" using s by (simp add: t'_def releases_schema_def)
  have ex': "\<exists>r\<in>set (rows t'). cell r ''id'' = INTEGER rid"
    using ex by (auto simp add: t'_def)
  have al': "\<forall>r\<in>set (rows t'). cell r ''id'' = INTEGER rid \<longrightarrow> cell r ''deleted_at'' \<noteq> NULL"
    using al ne by (auto simp add: t'_def newid)
  from g' s' ge' es ex' al' show ?thesis unfolding soft_deleted_def by blast
qed

lemma soft_deleted_Create:
  assumes "soft_deleted rid d"
  shows "soft_deleted rid (apply_call d (Create release tickets u))"
proof -
  obtain r d1 where i: "insert_into d ''releases''
             [(''release_date'', bind (release_date release)),
              (''status'', bind (status release)),
              (''release_type'', bind (release_type release)),
              (''explanation'', bind (or_null (explanation release))),
              (''created_by'', TEXT u)] = (r, d1)"
    by (cases "insert_into d ''releases''
             [(''release_date'', bind (release_date release)),
              (''status'', bind (status release)),
              (''release_type'', bind (release_type release)),
              (''explanation'', bind (or_null (explanation release))),
              (''created_by'', TEXT u)]")
  have v1: "soft_deleted rid d1" by (rule soft_deleted_insert_release [OF assms i])
  then obtain t et where t: "get_table d1 ''releases'' = Some t" and s: "releases_schema t"
    and et: "get_table d1 ''excluded_tickets'' = Some et" and es: "tickets_schema et"
    and ex: "\<exists>r\<in>set (rows t). cell r ''id'' = INTEGER rid"
    and al: "\<forall>r\<in>set (rows t). cell r ''id'' = INTEGER rid \<longrightarrow> cell r ''deleted_at'' \<noteq> NULL"
    unfolding soft_deleted_def by blast
  define d2 where "d2 = snd (insert_tickets d1 (last_insert_rowid d1) tickets u)"
  have t2: "get_table d2 ''releases'' = Some t"
    by (simp add: d2_def insert_tickets_other_tables t)
  from insert_tickets_schema [OF et, of "last_insert_rowid d1" tickets u]
  obtain et' where et2: "get_table d2 ''excluded_tickets'' = Some et'" and "cols et' = cols et"
    unfolding d2_def by blast
  with es have es': "tickets_schema et'" by (simp add: tickets_schema_def)
  from t2 s et2 es' ex al have "soft_deleted rid d2" unfolding soft_deleted_def by blast
  with v1 show ?thesis
    by (cases r) (simp_all add: createRelease_snd i d2_def)
qed

lemma soft_deleted_Delete:
  assumes v: "soft_deleted rid d"
  shows "soft_deleted rid (apply_call d (Delete i u))"
proof -
  define m where "m = (\<lambda>r. if cell r ''id'' = INTEGER i \<and> cell r ''deleted_at'' = NULL
                           then set_cells [(''deleted_at'', TEXT (current_timestamp d)),
                                           (''deleted_by'', TEXT u)] r
                           else r)"
  have c: "cell (m r) ''id'' = cell r ''id''" for r
    by (simp add: m_def cell_update)
  have k: "cell r ''deleted_at'' \<noteq> NULL \<Longrightarrow> m r = r" for r
    by (simp add: m_def)
  from v obtain t et where t: "get_table d ''releases'' = Some t" and s: "releases_schema t"
    and et: "get_table d ''excluded_tickets'' = Some et" and es: "tickets_schema et"
    and ex: "\<exists>r\<in>set (rows t). cell r ''id'' = INTEGER rid"
    and al: "\<forall>r\<in>set (rows t). cell r ''id'' = INTEGER rid \<longrightarrow> cell r ''deleted_at'' \<noteq> NULL"
    unfolding soft_deleted_def by blast
  define t' where "t' = t\<lparr>rows := map m (rows t)\<rparr>"
  have e: "snd (deleteRelease d i u) = put_table d ''releases'' t'"
    using deleteRelease_eq [OF t s, of i u] by (simp add: t'_def m_def)
  have g': "get_table (put_table d ''releases'' t') ''releases'' = Some t'"
    by (simp add: get_put_table)
  have ge': "get_table (put_table d ''releases'' t') ''excluded_tickets'' = Some et"
    by (simp add: get_put_table et)
  have s': "releases_schema t'" using s by (simp add: t'_def releases_schema_def)
  from ex obtain r0 where r0: "r0 \<in> set (rows t)" "cell r0 ''id'' = INTEGER rid" by blast
  with al have "m r0 = r0" by (simp add: k)
  with r0 have "r0 \<in> set (rows t')" by (force simp add: t'_def)
  with r0 have ex': "\<exists>r\<in>set (rows t'). cell r ''id'' = INTEGER rid" by blast
  have al': "\<forall>r\<in>set (rows t'). cell r ''id'' = INTEGER rid \<longrightarrow> cell r ''deleted_at'' \<noteq> NULL"
  proof (intro ballI impI)
    fix r assume "r \<in> set (rows t')" "cell r ''id'' = INTEGER rid"
    then obtain r1 where r1: "r1 \<in> set (rows t)" "r = m r1" by (auto simp add: t'_def)
    with \<open>cell r ''id'' = INTEGER rid\<close> have "cell r1 ''id'' = INTEGER rid" by (simp add: c)
    with al r1 have "cell r1 ''deleted_at'' \<noteq> NULL" by blast
    with r1 show "cell r ''deleted_at'' \<noteq> NULL" by (simp add: k)
  qed
  from g' s' ge' es ex' al' have "soft_deleted rid (put_table d ''releases'' t')"
    unfolding soft_deleted_def by blast
  then show ?thesis by (simp add: e)
qed

lemma soft_deleted_Clock: "soft_deleted rid d \<Longrightarrow> soft_deleted rid (apply_call d (Clock now))"
  by (simp add: soft_deleted_def get_table_def)

lemma soft_deleted_apply_call: "soft_deleted rid d \<Longrightarrow> soft_deleted rid (apply_call d c)"
  by (cases c)
    (simp_all only: soft_deleted_Initialize soft_deleted_Create soft_deleted_Delete
      soft_deleted_Clock)

lemma soft_deleted_run: "soft_deleted rid d \<Longrightarrow> soft_deleted rid (run d calls)"
  by (rule run_invariant [where I = "soft_deleted rid"]) (simp_all only: soft_deleted_apply_call)

lemma soft_deleted_not_listed:
  assumes "soft_deleted rid d"
  shows "\<exists>rs. fetchRecentReleases d n = (Inr rs, d) \<and> (\<forall>r'\<in>set rs. cell r' ''id'' \<noteq> INTEGER rid)"
proof -
  from assms obtain t et where t: "get_table d ''releases'' = Some t" and s: "releases_schema t"
    and et: "get_table d ''excluded_tickets'' = Some et" and es: "tickets_schema et"
    and al: "\<forall>r\<in>set (rows t). cell r ''id'' = INTEGER rid \<longrightarrow> cell r ''deleted_at'' \<noteq> NULL"
    unfolding soft_deleted_def by blast
  define rs where "rs = limit_rows n (order_by_desc ''created_at''
        (map (with_tickets et) (filter (\<lambda>r. cell r ''deleted_at'' = NULL) (rows t))))"
  have e: "fetchRecentReleases d n = (Inr rs, d)"
    unfolding rs_def by (rule fetchRecentReleases_eq [OF t s et es])
  have "cell r' ''id'' \<noteq> INTEGER rid" if "r' \<in> set rs" for r'
  proof -
    from that set_limit_rows have "r' \<in> set (order_by_desc ''created_at''
        (map (with_tickets et) (filter (\<lambda>r. cell r ''deleted_at'' = NULL) (rows t))))"
      unfolding rs_def by blast
    then obtain r where r: "r \<in> set (rows t)" "cell r ''deleted_at'' = NULL" "r' = with_tickets et r"
      by (auto simp add: set_order_by_desc)
    with al have "cell r ''id'' \<noteq> INTEGER rid" by blast
    with r(3) show ?thesis by (simp add: cell_with_tickets)
  qed
  with e show ?thesis by blast
qed

lemma soft_deleted_after_delete:
  assumes t: "get_table db ''releases'' = Some t" and s: "releases_schema t"
    and et: "get_table db ''excluded_tickets'' = Some et" and es: "tickets_schema et"
    and ex: "\<exists>r\<in>set (rows t). cell r ''id'' = INTEGER rid"
  shows "soft_deleted rid (snd (deleteRelease db rid u))"
proof -
  define m where "m = (\<lambda>r. if cell r ''id'' = INTEGER rid \<and> cell r ''deleted_at'' = NULL
                           then set_cells [(''deleted_at'', TEXT (current_timestamp db)),
                                           (''deleted_by'', TEXT u)] r
                           else r)"
  have c: "cell (m r) ''id'' = cell r ''id''" for r
    by (simp add: m_def cell_update)
  have k: "cell (m r) ''id'' = INTEGER rid \<Longrightarrow> cell (m r) ''deleted_at'' \<noteq> NULL" for r
    by (cases "cell r ''id'' = INTEGER rid \<and> cell r ''deleted_at'' = NULL")
      (auto simp add: m_def cell_update)
  define t' where "t' = t\<lparr>rows := map m (rows t)\<rparr>"
  have e: "snd (deleteRelease db rid u) = put_table db ''releases'' t'"
    using deleteRelease_eq [OF t s, of rid u] by (simp add: t'_def m_def)
  have g': "get_table (put_table db ''releases'' t') ''releases'' = Some t'"
    by (simp add: get_put_table)
  have ge': "get_table (put_table db ''releases'' t') ''excluded_tickets'' = Some et"
    by (simp add: get_put_table et)
  have s': "releases_schema t'" using s by (simp add: t'_def releases_schema_def)
  from ex obtain r0 where r0: "r0 \<in> set (rows t)" "cell r0 ''id'' = INTEGER rid" by blast
  then have "m r0 \<in> set (rows t')" "cell (m r0) ''id'' = INTEGER rid" by (simp_all add: t'_def c)
  then have ex': "\<exists>r\<in>set (rows t'). cell r ''id'' = INTEGER rid" by blast
  have al': "\<forall>r\<in>set (rows t'). cell r ''id'' = INTEGER rid \<longrightarrow> cell r ''deleted_at'' \<noteq> NULL"
    using k by (auto simp add: t'_def)
  from g' s' ge' es ex' al' have "soft_deleted rid (put_table db ''releases'' t')"
    unfolding soft_deleted_def by blast
  then show ?thesis by (simp add: e)
qed

text \<open>
  C7. With both tables in place, \<^verbatim>\<open>fetchRecentReleases\<close> with limit \<open>n\<close> returns a list
  and throws nothing; for \<open>n\<close> not negative the list has at most \<open>n\<close> rows; every row
  is a release of the table whose \<^verbatim>\<open>deleted_at\<close> is NULL, with its tickets; the rows
  come by \<^verbatim>\<open>created_at\<close> descending. And once \<^verbatim>\<open>deleteRelease\<close> has run on the id
  of a release of the table, no later list contains that id, whatever calls come in
  between.
\<close>

theorem fetchRecentReleases_active_sorted_limited:
  assumes t: "get_table db ''releases'' = Some t" and s: "releases_schema t"
    and et: "get_table db ''excluded_tickets'' = Some et" and es: "tickets_schema et"
  shows "\<exists>rs. fetchRecentReleases db n = (Inr rs, db) \<and>
     (0 \<le> n \<longrightarrow> length rs \<le> nat n) \<and>
     (\<forall>r'\<in>set rs. cell r' ''deleted_at'' = NULL \<and>
        (\<exists>r\<in>set (rows t). cell r ''deleted_at'' = NULL \<and> r' = with_tickets et r)) \<and>
     sorted_wrt (\<lambda>a b. sort_rank (cell b ''created_at'') \<le> sort_rank (cell a ''created_at'')) rs \<and>
     ((\<exists>r\<in>set (rows t). cell r ''id'' = INTEGER rid) \<longrightarrow>
        (\<forall>calls m. \<exists>rs'.
           fetchRecentReleases (run (snd (deleteRelease db rid u)) calls) m =
             (Inr rs', run (snd (deleteRelease db rid u)) calls) \<and>
           (\<forall>r'\<in>set rs'. cell r' ''id'' \<noteq> INTEGER rid)))"
proof -
  define rs where "rs = limit_rows n (order_by_desc ''created_at''
        (map (with_tickets et) (filter (\<lambda>r. cell r ''deleted_at'' = NULL) (rows t))))"
  have 1: "fetchRecentReleases db n = (Inr rs, db)"
    unfolding rs_def by (rule fetchRecentReleases_eq [OF t s et es])
  have 2: "0 \<le> n \<longrightarrow> length rs \<le> nat n"
    by (simp add: rs_def length_limit_rows)
  have 3: "\<forall>r'\<in>set rs. cell r' ''deleted_at'' = NULL \<and>
        (\<exists>r\<in>set (rows t). cell r ''deleted_at'' = NULL \<and> r' = with_tickets et r)"
  proof
    fix r' assume "r' \<in> set rs"
    with set_limit_rows have "r' \<in> set (order_by_desc ''created_at''
        (map (with_tickets et) (filter (\<lambda>r. cell r ''deleted_at'' = NULL) (rows t))))"
      unfolding rs_def by blast
    then obtain r where r: "r \<in> set (rows t)" "cell r ''deleted_at'' = NULL" "r' = with_tickets et r"
      by (auto simp add: set_order_by_desc)
    then have "cell r' ''deleted_at'' = NULL" by (simp add: cell_with_tickets)
    with r show "cell r' ''deleted_at'' = NULL \<and>
        (\<exists>r\<in>set (rows t). cell r ''deleted_at'' = NULL \<and> r' = with_tickets et r)" by blast
  qed
  have 4: "sorted_wrt (\<lambda>a b. sort_rank (cell b ''created_at'') \<le> sort_rank (cell a ''created_at'')) rs"
    unfolding rs_def by (rule sorted_limit_rows) (rule sorted_order_by_desc)
  have 5: "(\<exists>r\<in>set (rows t). cell r ''id'' = INTEGER rid) \<longrightarrow>
        (\<forall>calls m. \<exists>rs'.
           fetchRecentReleases (run (snd (deleteRelease db rid u)) calls) m =
             (Inr rs', run (snd (deleteRelease db rid u)) calls) \<and>
           (\<forall>r'\<in>set rs'. cell r' ''id'' \<noteq> INTEGER rid))"
  proof (intro impI allI)
    fix calls m
    assume "\<exists>r\<in>set (rows t). cell r ''id'' = INTEGER rid"
    then have "soft_deleted rid (snd (deleteRelease db rid u))"
      by (rule soft_deleted_after_delete [OF t s et es])
    then have "soft_deleted rid (run (snd (deleteRelease db rid u)) calls)"
      by (rule soft_deleted_run)
    then show "\<exists>rs'.
           fetchRecentReleases (run (snd (deleteRelease db rid u)) calls) m =
             (Inr rs', run (snd (deleteRelease db rid u)) calls) \<and>
           (\<forall>r'\<in>set rs'. cell r' ''id'' \<noteq> INTEGER rid)"
      by (rule soft_deleted_not_listed)
  qed
  from 1 2 3 4 5 show ?thesis by (intro exI [of _ rs] conjI)
qed

theorem fetchRecentReleases_active_sorted_limited_witness:
  "get_table example_db ''releases'' = Some example_releases \<and>
   releases_schema example_releases \<and>
   get_table example_db ''excluded_tickets'' = Some example_excluded_tickets \<and>
   tickets_schema example_excluded_tickets \<and>
   (\<exists>rs. fetchRecentReleases example_db 10 = (Inr rs, example_db) \<and> length rs \<le> 10 \<and>
      sorted_wrt (\<lambda>a b. sort_rank (cell b ''created_at'') \<le> sort_rank (cell a ''created_at'')) rs) \<and>
   (\<exists>rs'. fetchRecentReleases
        (run (snd (deleteRelease example_db 1 ''root@x.com'')) [Create example_release [] ''b@x.com'']) 10 =
        (Inr rs', run (snd (deleteRelease example_db 1 ''root@x.com'')) [Create example_release [] ''b@x.com'']) \<and>
      (\<forall>r'\<in>set rs'. cell r' ''id'' \<noteq> INTEGER 1))"
proof -
  from fetchRecentReleases_active_sorted_limited [OF example_db_releases example_releases_schema
      example_db_excluded_tickets example_excluded_tickets_schema, of 10 1 "''root@x.com''"]
  obtain rs where 1: "fetchRecentReleases example_db 10 = (Inr rs, example_db)"
    and 2: "0 \<le> (10::int) \<longrightarrow> length rs \<le> nat 10"
    and 4: "sorted_wrt (\<lambda>a b. sort_rank (cell b ''created_at'') \<le> sort_rank (cell a ''created_at'')) rs"
    and 5: "(\<exists>r\<in>set (rows example_releases). cell r ''id'' = INTEGER 1) \<longrightarrow>
        (\<forall>calls m. \<exists>rs'.
           fetchRecentReleases (run (snd (deleteRelease example_db 1 ''root@x.com'')) calls) m =
             (Inr rs', run (snd (deleteRelease example_db 1 ''root@x.com'')) calls) \<and>
           (\<forall>r'\<in>set rs'. cell r' ''id'' \<noteq> INTEGER 1))"
    by blast
  from 2 have len: "length rs \<le> 10" by simp
  have "\<exists>r\<in>set (rows example_releases). cell r ''id'' = INTEGER 1"
    using example_release_row_in example_release_row_id by (rule bexI [rotated])
  with 5 have 6: "\<exists>rs'. fetchRecentReleases
        (run (snd (deleteRelease example_db 1 ''root@x.com'')) [Create example_release [] ''b@x.com'']) 10 =
        (Inr rs', run (snd (deleteRelease example_db 1 ''root@x.com'')) [Create example_release [] ''b@x.com'']) \<and>
      (\<forall>r'\<in>set rs'. cell r' ''id'' \<noteq> INTEGER 1)"
    by blast
  from 1 len 4 have 7: "\<exists>rs. fetchRecentReleases example_db 10 = (Inr rs, example_db) \<and> length rs \<le> 10 \<and>
      sorted_wrt (\<lambda>a b. sort_rank (cell b ''created_at'') \<le> sort_rank (cell a ''created_at'')) rs"
    by blast
  from example_db_releases example_releases_schema example_db_excluded_tickets
    example_excluded_tickets_schema 7 6
  show ?thesis by (intro conjI)
qed


section \<open>Creating a release and reading it back\<close>

lemma build_ticket_row:
  "build_row excluded_tickets_columns
     [(''release_id'', INTEGER i), (''ticket_key'', k), (''ticket_summary'', s), (''ticket_url'', l),
      (''created_by'', TEXT u)] j now = ticket_row j i k s l u now"
  by (simp add: build_row_def excluded_tickets_columns_def ticket_row_def default_value_def)

lemma check_ticket_row:
  "check_row excluded_tickets_columns (ticket_row j i k s l u now) =
     (if k = NULL then Some (NotNullViolation ''ticket_key'') else None)"
  by (simp add: check_row_def excluded_tickets_columns_def ticket_row_def check_column_def cell_def)

lemma check_fks_ticket_row:
  "check_fks d excluded_tickets_columns (ticket_row j i k s l u now) =
     (case get_table d ''releases'' of
        None \<Rightarrow> Some (NoSuchTable ''releases'')
      | Some p \<Rightarrow>
          if INTEGER i \<in> set (map (\<lambda>r. cell r ''id'') (rows p)) then None
          else Some (ForeignKeyViolation ''release_id''))"
  by (simp add: check_fks_def excluded_tickets_columns_def ticket_row_def check_fk_def cell_def
      split: option.split)

lemma insert_ticket_cols:
  "tickets_schema et \<Longrightarrow>
   filter (\<lambda>c. \<not> has_col et c)
     (map fst [(''release_id'', a), (''ticket_key'', k), (''ticket_summary'', s), (''ticket_url'', l),
      (''created_by'', cb)]) = []"
  by (simp add: has_col_def excluded_tickets_columns_def tickets_schema_def)

lemma insert_ticket:
  assumes et: "get_table d ''excluded_tickets'' = Some et" and es: "tickets_schema et"
    and p: "get_table d ''releases'' = Some p"
    and i: "INTEGER i \<in> set (map (\<lambda>r. cell r ''id'') (rows p))"
    and k: "k \<noteq> NULL"
  shows "insert_into d ''excluded_tickets''
     [(''release_id'', INTEGER i), (''ticket_key'', k), (''ticket_summary'', s), (''ticket_url'', l),
      (''created_by'', TEXT u)] =
     (Inr \<lparr>success = True, changes = 1\<rparr>,
      (put_table d ''excluded_tickets''
         (et\<lparr>rows := rows et @ [ticket_row (next_rowid et) i k s l u (current_timestamp d)],
             seq := next_rowid et\<rparr>))\<lparr>last_insert_rowid := next_rowid et\<rparr>)"
proof -
  have c: "cols et = excluded_tickets_columns" using es by (simp add: tickets_schema_def)
  show ?thesis
    unfolding insert_into_def
    by (simp only: et option.case insert_ticket_cols [OF es] list.case Let_def c
        build_ticket_row check_ticket_row check_fks_ticket_row p i k if_False if_True)
qed

text \<open>The loop over tickets whose keys are not \<^verbatim>\<open>null\<close>, on a database with the parent row.\<close>

lemma insert_tickets_ok:
  assumes "get_table d ''excluded_tickets'' = Some et" and "tickets_schema et"
    and "get_table d ''releases'' = Some p"
    and "INTEGER i \<in> set (map (\<lambda>r. cell r ''id'') (rows p))"
    and "\<forall>t\<in>set ts. key t \<noteq> None"
  shows "\<exists>d' et' new.
     insert_tickets d i ts u = (Inr (), d') \<and>
     get_table d' ''excluded_tickets'' = Some et' \<and> tickets_schema et' \<and>
     rows et' = rows et @ new \<and>
     list_all2 (\<lambda>t r. \<exists>j. r = ticket_row j i (bind (key t)) (bind (summary t)) (bind (url t)) u
                         (current_timestamp d)) ts new \<and>
     get_table d' ''releases'' = Some p \<and>
     current_timestamp d' = current_timestamp d"
  using assms
proof (induction ts arbitrary: d et)
  case Nil
  then show ?case by simp
next
  case (Cons t ts)
  define row where "row = ticket_row (next_rowid et) i (bind (key t)) (bind (summary t)) (bind (url t)) u
      (current_timestamp d)"
  define et1 where "et1 = et\<lparr>rows := rows et @ [row], seq := next_rowid et\<rparr>"
  define d1 where "d1 = (put_table d ''excluded_tickets'' et1)\<lparr>last_insert_rowid := next_rowid et\<rparr>"
  from Cons.prems(5) have k: "bind (key t) \<noteq> NULL" by (auto simp add: bind_def)
  have ins: "insert_into d ''excluded_tickets''
     [(''release_id'', INTEGER i), (''ticket_key'', bind (key t)),
      (''ticket_summary'', bind (summary t)), (''ticket_url'', bind (url t)),
      (''created_by'', TEXT u)] = (Inr \<lparr>success = True, changes = 1\<rparr>, d1)"
    unfolding d1_def et1_def row_def
    by (rule insert_ticket [OF Cons.prems(1) Cons.prems(2) Cons.prems(3) Cons.prems(4) k])
  have 1: "get_table d1 ''excluded_tickets'' = Some et1" by (simp add: d1_def get_put_table)
  have 2: "tickets_schema et1" using Cons.prems(2) by (simp add: et1_def tickets_schema_def)
  have 3: "get_table d1 ''releases'' = Some p" using Cons.prems(3) by (simp add: d1_def get_put_table)
  have 5: "\<forall>t\<in>set ts. key t \<noteq> None" using Cons.prems(5) by simp
  have ct: "current_timestamp d1 = current_timestamp d" by (simp add: d1_def put_table_fields)
  from Cons.IH [OF 1 2 3 Cons.prems(4) 5] obtain d' et' new where
    r: "insert_tickets d1 i ts u = (Inr (), d')"
      "get_table d' ''excluded_tickets'' = Some et'" "tickets_schema et'"
      "rows et' = rows et1 @ new"
      "list_all2 (\<lambda>t r. \<exists>j. r = ticket_row j i (bind (key t)) (bind (summary t)) (bind (url t)) u
                         (current_timestamp d1)) ts new"
      "get_table d' ''releases'' = Some p"
      "current_timestamp d' = current_timestamp d1"
    by blast
  have a: "insert_tickets d i (t # ts) u = (Inr (), d')" by (simp add: ins r(1))
  have b: "rows et' = rows et @ (row # new)" using r(4) by (simp add: et1_def)
  have c: "list_all2 (\<lambda>t r. \<exists>j. r = ticket_row j i (bind (key t)) (bind (summary t)) (bind (url t)) u
                         (current_timestamp d)) (t # ts) (row # new)"
    using r(5) unfolding ct by (auto simp add: row_def)
  show ?case
    apply (rule exI [of _ d'], rule exI [of _ et'], rule exI [of _ "row # new"])
    using a r(2) r(3) b c r(6) r(7) ct by simp
qed

text \<open>The first insert that fails ends the loop with its error.\<close>

lemma insert_tickets_null_key:
  assumes "get_table d ''excluded_tickets'' = Some et" and "tickets_schema et"
    and "get_table d ''releases'' = Some p"
    and "INTEGER i \<in> set (map (\<lambda>r. cell r ''id'') (rows p))"
    and "\<exists>t\<in>set ts. key t = None"
  shows "\<exists>d'. insert_tickets d i ts u = (Inl (NotNullViolation ''ticket_key''), d') \<and>
     get_table d' ''releases'' = Some p"
  using assms
proof (induction ts arbitrary: d et)
  case Nil
  then show ?case by simp
next
  case (Cons t ts)
  have c: "cols et = excluded_tickets_columns" using Cons.prems(2) by (simp add: tickets_schema_def)
  show ?case
  proof (cases "key t")
    case None
    have "insert_into d ''excluded_tickets''
       [(''release_id'', INTEGER i), (''ticket_key'', bind (key t)),
        (''ticket_summary'', bind (summary t)), (''ticket_url'', bind (url t)),
        (''created_by'', TEXT u)] = (Inl (NotNullViolation ''ticket_key''), d)"
      unfolding insert_into_def
      by (simp only: Cons.prems(1) option.case insert_ticket_cols [OF Cons.prems(2)] list.case Let_def c
          build_ticket_row check_ticket_row None bind_def) simp
    then show ?thesis using Cons.prems(3) by simp
  next
    case (Some k)
    define row where "row = ticket_row (next_rowid et) i (bind (key t)) (bind (summary t)) (bind (url t)) u
        (current_timestamp d)"
    define et1 where "et1 = et\<lparr>rows := rows et @ [row], seq := next_rowid et\<rparr>"
    define d1 where "d1 = (put_table d ''excluded_tickets'' et1)\<lparr>last_insert_rowid := next_rowid et\<rparr>"
    from Some have k: "bind (key t) \<noteq> NULL" by (simp add: bind_def)
    have ins: "insert_into d ''excluded_tickets''
       [(''release_id'', INTEGER i), (''ticket_key'', bind (key t)),
        (''ticket_summary'', bind (summary t)), (''ticket_url'', bind (url t)),
        (''created_by'', TEXT u)] = (Inr \<lparr>success = True, changes = 1\<rparr>, d1)"
      unfolding d1_def et1_def row_def
      by (rule insert_ticket [OF Cons.prems(1) Cons.prems(2) Cons.prems(3) Cons.prems(4) k])
    have 1: "get_table d1 ''excluded_tickets'' = Some et1" by (simp add: d1_def get_put_table)
    have 2: "tickets_schema et1" using Cons.prems(2) by (simp add: et1_def tickets_schema_def)
    have 3: "get_table d1 ''releases'' = Some p" using Cons.prems(3) by (simp add: d1_def get_put_table)
    have 5: "\<exists>t\<in>set ts. key t = None" using Cons.prems(5) Some by simp
    from Cons.IH [OF 1 2 3 Cons.prems(4) 5] show ?thesis by (simp add: ins)
  qed
qed

lemma split_comma_free: "CHR '','' \<notin> set s \<Longrightarrow> split_comma s = [s]"
  by (induction s) auto

lemma split_comma_append:
  "CHR '','' \<notin> set x \<Longrightarrow> split_comma (x @ CHR '','' # rest) = x # split_comma rest"
  by (induction x) auto

lemma split_join_comma:
  "ks \<noteq> [] \<Longrightarrow> \<forall>k\<in>set ks. CHR '','' \<notin> set k \<Longrightarrow> split_comma (join_comma ks) = ks"
proof (induction ks rule: join_comma.induct)
  case 1
  then show ?case by simp
next
  case (2 x)
  then show ?case by (simp add: split_comma_free)
next
  case (3 x y ys)
  then show ?case by (simp add: split_comma_append)
qed

lemma join_comma_nonempty: "ks \<noteq> [] \<Longrightarrow> \<forall>k\<in>set ks. k \<noteq> [] \<Longrightarrow> join_comma ks \<noteq> []"
  by (induction ks rule: join_comma.induct) auto

lemma texts_all_null: "\<forall>t\<in>set ts. f t = None \<Longrightarrow> texts (map (\<lambda>t. bind (f t)) ts) = []"
  by (induction ts) (auto simp add: bind_def)

lemma texts_all_text:
  "\<forall>t\<in>set ts. \<exists>s. f t = Some s \<and> P s \<Longrightarrow>
   texts (map (\<lambda>t. bind (f t)) ts) = map (\<lambda>t. case f t of Some s \<Rightarrow> s | None \<Rightarrow> []) ts"
  by (induction ts) (auto simp add: bind_def)

text \<open>
  A field that aggregates a column: for values that are all text, not empty and without
  a comma, JavaScript reads the list back by splitting; for values that are all
  \<^verbatim>\<open>null\<close> the field is \<^verbatim>\<open>null\<close>.
\<close>

lemma aggregate_all_text:
  assumes "ts \<noteq> []" and "\<forall>t\<in>set ts. \<exists>s. f t = Some s \<and> s \<noteq> [] \<and> CHR '','' \<notin> set s"
    and "cell r c = group_concat (map (\<lambda>t. bind (f t)) ts)"
  shows "truthy (field r c)"
    and "split_comma (template_json (field r c)) = map (\<lambda>t. case f t of Some s \<Rightarrow> s | None \<Rightarrow> []) ts"
proof -
  define ss where "ss = map (\<lambda>t. case f t of Some s \<Rightarrow> s | None \<Rightarrow> []) ts"
  have t: "texts (map (\<lambda>t. bind (f t)) ts) = ss"
    unfolding ss_def
    by (rule texts_all_text [where P = "\<lambda>s. s \<noteq> [] \<and> CHR '','' \<notin> set s"]) (rule assms(2))
  have ne: "ss \<noteq> []" using assms(1) by (simp add: ss_def)
  have p: "\<forall>k\<in>set ss. k \<noteq> []" "\<forall>k\<in>set ss. CHR '','' \<notin> set k"
    using assms(2) by (auto simp add: ss_def)
  have g: "cell r c = TEXT (join_comma ss)"
    using ne by (cases ss) (simp_all add: assms(3) group_concat_def t)
  show "truthy (field r c)"
    using join_comma_nonempty [OF ne p(1)] by (simp add: field_def g truthy_def)
  show "split_comma (template_json (field r c)) = map (\<lambda>t. case f t of Some s \<Rightarrow> s | None \<Rightarrow> []) ts"
    using split_join_comma [OF ne p(2)] by (simp add: field_def g template_json_def ss_def)
qed

lemma aggregate_all_null:
  assumes "\<forall>t\<in>set ts. f t = None"
    and "cell r c = group_concat (map (\<lambda>t. bind (f t)) ts)"
  shows "\<not> truthy (field r c)"
  by (simp add: field_def assms(2) group_concat_def texts_all_null [OF assms(1)] truthy_def)

lemma parsed_tickets_roundtrip:
  assumes k: "\<forall>t\<in>set ts. \<exists>s. key t = Some s \<and> s \<noteq> [] \<and> CHR '','' \<notin> set s"
    and s: "(\<forall>t\<in>set ts. summary t = None) \<or>
            (\<forall>t\<in>set ts. \<exists>s. summary t = Some s \<and> s \<noteq> [] \<and> CHR '','' \<notin> set s)"
    and l: "(\<forall>t\<in>set ts. url t = None) \<or>
            (\<forall>t\<in>set ts. \<exists>s. url t = Some s \<and> s \<noteq> [] \<and> CHR '','' \<notin> set s)"
    and ck: "cell r ''excluded_tickets'' = group_concat (map (\<lambda>t. bind (key t)) ts)"
    and cs: "cell r ''ticket_summaries'' = group_concat (map (\<lambda>t. bind (summary t)) ts)"
    and cl: "cell r ''ticket_urls'' = group_concat (map (\<lambda>t. bind (url t)) ts)"
  shows "parsed_tickets r = ts"
proof (cases "ts = []")
  case True
  then show ?thesis
    using aggregate_all_null [of ts key r "''excluded_tickets''"] ck
    by (simp add: parsed_tickets_def)
next
  case False
  define ks where "ks = map (\<lambda>t. case key t of Some s \<Rightarrow> s | None \<Rightarrow> []) ts"
  note K = aggregate_all_text [OF False k ck, folded ks_def]
  have len: "length ks = length ts" by (simp add: ks_def)
  have sm: "(if truthy (field r ''ticket_summaries'')
             then nth_or_undefined (split_comma (template_json (field r ''ticket_summaries''))) j
             else None) = summary (ts ! j)" if "j < length ts" for j
    using s
  proof
    assume a: "\<forall>t\<in>set ts. summary t = None"
    with that have "summary (ts ! j) = None" by simp
    with aggregate_all_null [OF a cs] show ?thesis by simp
  next
    assume a: "\<forall>t\<in>set ts. \<exists>s. summary t = Some s \<and> s \<noteq> [] \<and> CHR '','' \<notin> set s"
    from a that obtain x where "summary (ts ! j) = Some x" by (meson nth_mem)
    with aggregate_all_text [OF False a cs] that show ?thesis
      by (simp add: nth_or_undefined_def)
  qed
  have ur: "(if truthy (field r ''ticket_urls'')
             then nth_or_undefined (split_comma (template_json (field r ''ticket_urls''))) j
             else None) = url (ts ! j)" if "j < length ts" for j
    using l
  proof
    assume a: "\<forall>t\<in>set ts. url t = None"
    with that have "url (ts ! j) = None" by simp
    with aggregate_all_null [OF a cl] show ?thesis by simp
  next
    assume a: "\<forall>t\<in>set ts. \<exists>s. url t = Some s \<and> s \<noteq> [] \<and> CHR '','' \<notin> set s"
    from a that obtain x where "url (ts ! j) = Some x" by (meson nth_mem)
    with aggregate_all_text [OF False a cl] that show ?thesis
      by (simp add: nth_or_undefined_def)
  qed
  have ky: "Some (ks ! j) = key (ts ! j)" if "j < length ts" for j
  proof -
    from k that obtain x where "key (ts ! j) = Some x" by (meson nth_mem)
    with that show ?thesis by (simp add: ks_def)
  qed
  have p: "parsed_tickets r =
     map (\<lambda>(k, index).
               \<lparr>key = Some k,
                summary = (if truthy (field r ''ticket_summaries'')
                           then nth_or_undefined (split_comma (template_json (field r ''ticket_summaries''))) index
                           else None),
                url = (if truthy (field r ''ticket_urls'')
                       then nth_or_undefined (split_comma (template_json (field r ''ticket_urls''))) index
                       else None)\<rparr>)
          (zip ks [0 ..< length ks])"
    by (simp add: parsed_tickets_def K Let_def)
  show ?thesis
    unfolding p
  proof (rule nth_equalityI)
    show "length (map (\<lambda>(k, index).
               \<lparr>key = Some k,
                summary = (if truthy (field r ''ticket_summaries'')
                           then nth_or_undefined (split_comma (template_json (field r ''ticket_summaries''))) index
                           else None),
                url = (if truthy (field r ''ticket_urls'')
                       then nth_or_undefined (split_comma (template_json (field r ''ticket_urls''))) index
                       else None)\<rparr>)
          (zip ks [0 ..< length ks])) = length ts"
      by (simp add: len)
  next
    fix j
    assume "j < length (map (\<lambda>(k, index).
               \<lparr>key = Some k,
                summary = (if truthy (field r ''ticket_summaries'')
                           then nth_or_undefined (split_comma (template_json (field r ''ticket_summaries''))) index
                           else None),
                url = (if truthy (field r ''ticket_urls'')
                       then nth_or_undefined (split_comma (template_json (field r ''ticket_urls''))) index
                       else None)\<rparr>)
          (zip ks [0 ..< length ks]))"
    then have j: "j < length ts" by (simp add: len)
    show "map (\<lambda>(k, index).
               \<lparr>key = Some k,
                summary = (if truthy (field r ''ticket_summaries'')
                           then nth_or_undefined (split_comma (template_json (field r ''ticket_summaries''))) index
                           else None),
                url = (if truthy (field r ''ticket_urls'')
                       then nth_or_undefined (split_comma (template_json (field r ''ticket_urls''))) index
                       else None)\<rparr>)
          (zip ks [0 ..< length ks]) ! j = ts ! j"
      using j by (simp add: len sm ur ky)
  qed
qed

lemma cell_release_row:
  "cell (release_row i d s ty e u now) ''id'' = INTEGER i"
  "cell (release_row i d s ty e u now) ''release_date'' = d"
  "cell (release_row i d s ty e u now) ''status'' = s"
  "cell (release_row i d s ty e u now) ''release_type'' = ty"
  "cell (release_row i d s ty e u now) ''explanation'' = e"
  "cell (release_row i d s ty e u now) ''created_by'' = TEXT u"
  "cell (release_row i d s ty e u now) ''created_at'' = TEXT now"
  "cell (release_row i d s ty e u now) ''deleted_at'' = NULL"
  by (simp_all add: release_row_def cell_def)

lemma cell_ticket_row:
  "cell (ticket_row j i k s l u now) ''release_id'' = INTEGER i"
  "cell (ticket_row j i k s l u now) ''ticket_key'' = k"
  "cell (ticket_row j i k s l u now) ''ticket_summary'' = s"
  "cell (ticket_row j i k s l u now) ''ticket_url'' = l"
  "cell (ticket_row j i k s l u now) ''created_by'' = TEXT u"
  by (simp_all add: ticket_row_def cell_def)

lemma fresh_rowid: "r \<in> set (rows t) \<Longrightarrow> cell r ''id'' \<noteq> INTEGER (next_rowid t)"
  using next_rowid_gt [of r t] rowid_cell [of r "next_rowid t"] by auto

lemma list_all2_map_cell:
  "list_all2 (\<lambda>x r. g r = f x) xs rs \<Longrightarrow> map g rs = map f xs"
  by (induction rule: list_all2_induct) auto

text \<open>
  C6, as the code has it. On the current schema, with every ticket row pointing to a
  release, a valid release and tickets whose keys are not \<^verbatim>\<open>null\<close>, \<^verbatim>\<open>createRelease\<close>
  returns the record that \<^verbatim>\<open>fetchReleaseById\<close> then returns for the new id. The id is
  new; date, status and release type are the inputs; the explanation is the input,
  with the empty string stored as NULL; \<^verbatim>\<open>created_by\<close> is the caller, \<^verbatim>\<open>created_at\<close>
  the current timestamp, \<^verbatim>\<open>deleted_at\<close> NULL. One ticket row per ticket is added, in
  the order submitted, each with the new id, the key, summary and url submitted and
  the caller. The record carries the tickets as three texts: the keys, the summaries
  and the urls that are not NULL, each list joined with commas in the order submitted,
  NULL for an empty list. No ticket gives an empty collection. Read back as the
  interface reads them, the tickets are the ones submitted when every key is a text
  that is not empty and has no comma, and the summaries (and the urls) are either all
  \<^verbatim>\<open>null\<close> or all such texts.
\<close>

theorem createRelease_then_fetch:
  assumes t: "get_table db ''releases'' = Some t"
    and c: "cols t = releases_columns @ [release_type_column]"
    and et: "get_table db ''excluded_tickets'' = Some et" and es: "tickets_schema et"
    and fk: "\<forall>e\<in>set (rows et). \<exists>r\<in>set (rows t). cell e ''release_id'' = cell r ''id''"
    and v: "valid_release release"
    and k: "\<forall>x\<in>set tickets. key x \<noteq> None"
  shows "\<exists>row db'.
     createRelease db release tickets u = (Inr (Some row), db') \<and>
     fetchReleaseById db' (next_rowid t) = (Inr (Some row), db') \<and>
     cell row ''id'' = INTEGER (next_rowid t) \<and>
     (\<forall>r\<in>set (rows t). cell r ''id'' \<noteq> INTEGER (next_rowid t)) \<and>
     cell row ''release_date'' = bind (release_date release) \<and>
     cell row ''status'' = bind (status release) \<and>
     cell row ''release_type'' = bind (release_type release) \<and>
     cell row ''explanation'' = bind (or_null (explanation release)) \<and>
     cell row ''created_by'' = TEXT u \<and>
     cell row ''created_at'' = TEXT (current_timestamp db) \<and>
     cell row ''deleted_at'' = NULL \<and>
     cell row ''excluded_tickets'' = group_concat (map (\<lambda>x. bind (key x)) tickets) \<and>
     cell row ''ticket_summaries'' = group_concat (map (\<lambda>x. bind (summary x)) tickets) \<and>
     cell row ''ticket_urls'' = group_concat (map (\<lambda>x. bind (url x)) tickets) \<and>
     (\<exists>et' new. get_table db' ''excluded_tickets'' = Some et' \<and> rows et' = rows et @ new \<and>
        list_all2 (\<lambda>x r. cell r ''release_id'' = INTEGER (next_rowid t) \<and>
                          cell r ''ticket_key'' = bind (key x) \<and>
                          cell r ''ticket_summary'' = bind (summary x) \<and>
                          cell r ''ticket_url'' = bind (url x) \<and>
                          cell r ''created_by'' = TEXT u) tickets new) \<and>
     (tickets = [] \<longrightarrow> parsed_tickets row = []) \<and>
     ((\<forall>x\<in>set tickets. \<exists>s. key x = Some s \<and> s \<noteq> [] \<and> CHR '','' \<notin> set s) \<and>
      ((\<forall>x\<in>set tickets. summary x = None) \<or>
       (\<forall>x\<in>set tickets. \<exists>s. summary x = Some s \<and> s \<noteq> [] \<and> CHR '','' \<notin> set s)) \<and>
      ((\<forall>x\<in>set tickets. url x = None) \<or>
       (\<forall>x\<in>set tickets. \<exists>s. url x = Some s \<and> s \<noteq> [] \<and> CHR '','' \<notin> set s)) \<longrightarrow>
      parsed_tickets row = tickets)"
proof -
  define i where "i = next_rowid t"
  define now where "now = current_timestamp db"
  define prow where "prow = release_row i (bind (release_date release)) (bind (status release))
     (bind (release_type release)) (bind (or_null (explanation release))) u now"
  define t1 where "t1 = t\<lparr>rows := rows t @ [prow], seq := i\<rparr>"
  define db1 where "db1 = (put_table db ''releases'' t1)\<lparr>last_insert_rowid := i\<rparr>"
  have chk: "check_row (cols t) prow = None"
    using v unfolding c prow_def check_release_row
    by (auto simp add: valid_release_def bind_def split: option.splits)
  have ins: "insert_into db ''releases''
             [(''release_date'', bind (release_date release)),
              (''status'', bind (status release)),
              (''release_type'', bind (release_type release)),
              (''explanation'', bind (or_null (explanation release))),
              (''created_by'', TEXT u)] = (Inr \<lparr>success = True, changes = 1\<rparr>, db1)"
    using insert_release [OF t c, of "bind (release_date release)" "bind (status release)"
        "bind (release_type release)" "bind (or_null (explanation release))" u] chk
    by (simp add: prow_def i_def now_def db1_def t1_def)
  have l1: "last_insert_rowid db1 = i" by (simp add: db1_def)
  have g1: "get_table db1 ''releases'' = Some t1" by (simp add: db1_def get_put_table)
  have e1: "get_table db1 ''excluded_tickets'' = Some et" by (simp add: db1_def get_put_table et)
  have n1: "current_timestamp db1 = now" by (simp add: db1_def put_table_fields now_def)
  have in1: "INTEGER i \<in> set (map (\<lambda>r. cell r ''id'') (rows t1))"
    by (simp add: t1_def prow_def cell_release_row)
  from insert_tickets_ok [OF e1 es g1 in1 k, of u] obtain d' et' new where
    it: "insert_tickets db1 i tickets u = (Inr (), d')"
    and e2: "get_table d' ''excluded_tickets'' = Some et'" and es2: "tickets_schema et'"
    and r2: "rows et' = rows et @ new"
    and la: "list_all2 (\<lambda>x r. \<exists>j. r = ticket_row j i (bind (key x)) (bind (summary x)) (bind (url x)) u now)
               tickets new"
    and g2: "get_table d' ''releases'' = Some t1"
    unfolding n1 by blast
  have s1: "releases_schema t1" by (simp add: t1_def releases_schema_def c)
  have fresh: "\<forall>r\<in>set (rows t). cell r ''id'' \<noteq> INTEGER i"
    unfolding i_def by (simp add: fresh_rowid)
  have f1: "filter (\<lambda>r. cell r ''id'' = INTEGER i) (rows t1) = [prow]"
    using fresh by (simp add: t1_def prow_def cell_release_row filter_empty_conv)
  define row where "row = with_tickets et' prow"
  have fe: "fetchReleaseById d' i = (Inr (Some row), d')"
    using fetchReleaseById_eq [OF g2 s1 e2 es2, of i] by (simp add: f1 row_def)
  have cr: "createRelease db release tickets u = (Inr (Some row), d')"
    by (simp add: createRelease_def ins l1 it fe)
  have old: "filter (\<lambda>e. cell e ''release_id'' = INTEGER i) (rows et) = []"
    using fk fresh by (auto simp add: filter_empty_conv)
  have la2: "list_all2 (\<lambda>x r. cell r ''release_id'' = INTEGER i \<and>
                          cell r ''ticket_key'' = bind (key x) \<and>
                          cell r ''ticket_summary'' = bind (summary x) \<and>
                          cell r ''ticket_url'' = bind (url x) \<and>
                          cell r ''created_by'' = TEXT u) tickets new"
    by (rule list_all2_mono [OF la]) (auto simp add: cell_ticket_row)
  have newf: "filter (\<lambda>e. cell e ''release_id'' = INTEGER i) new = new"
    using la2 by (auto simp add: filter_id_conv list_all2_conv_all_nth in_set_conv_nth)
  have pid: "cell prow ''id'' = INTEGER i" by (simp add: prow_def cell_release_row)
  have tk: "tickets_of et' prow = new"
    by (simp add: tickets_of_id [OF pid] r2 old newf)
  have mk: "map (\<lambda>e. cell e ''ticket_key'') new = map (\<lambda>x. bind (key x)) tickets"
    by (rule list_all2_map_cell) (rule list_all2_mono [OF la2], simp)
  have ms: "map (\<lambda>e. cell e ''ticket_summary'') new = map (\<lambda>x. bind (summary x)) tickets"
    by (rule list_all2_map_cell) (rule list_all2_mono [OF la2], simp)
  have ml: "map (\<lambda>e. cell e ''ticket_url'') new = map (\<lambda>x. bind (url x)) tickets"
    by (rule list_all2_map_cell) (rule list_all2_mono [OF la2], simp)
  have ck: "cell row ''excluded_tickets'' = group_concat (map (\<lambda>x. bind (key x)) tickets)"
    by (simp add: row_def cell_with_tickets tk mk)
  have cs: "cell row ''ticket_summaries'' = group_concat (map (\<lambda>x. bind (summary x)) tickets)"
    by (simp add: row_def cell_with_tickets tk ms)
  have cl: "cell row ''ticket_urls'' = group_concat (map (\<lambda>x. bind (url x)) tickets)"
    by (simp add: row_def cell_with_tickets tk ml)
  have own: "cell row ''id'' = INTEGER i"
    "cell row ''release_date'' = bind (release_date release)"
    "cell row ''status'' = bind (status release)"
    "cell row ''release_type'' = bind (release_type release)"
    "cell row ''explanation'' = bind (or_null (explanation release))"
    "cell row ''created_by'' = TEXT u"
    "cell row ''created_at'' = TEXT now"
    "cell row ''deleted_at'' = NULL"
    by (simp_all add: row_def cell_with_tickets prow_def cell_release_row)
  have ch: "\<exists>et' new. get_table d' ''excluded_tickets'' = Some et' \<and> rows et' = rows et @ new \<and>
        list_all2 (\<lambda>x r. cell r ''release_id'' = INTEGER i \<and>
                          cell r ''ticket_key'' = bind (key x) \<and>
                          cell r ''ticket_summary'' = bind (summary x) \<and>
                          cell r ''ticket_url'' = bind (url x) \<and>
                          cell r ''created_by'' = TEXT u) tickets new"
    using e2 r2 la2 by blast
  have p0: "tickets = [] \<longrightarrow> parsed_tickets row = []"
  proof
    assume "tickets = []"
    then show "parsed_tickets row = []"
      using parsed_tickets_roundtrip [of tickets row] ck cs cl by simp
  qed
  have p1: "(\<forall>x\<in>set tickets. \<exists>s. key x = Some s \<and> s \<noteq> [] \<and> CHR '','' \<notin> set s) \<and>
      ((\<forall>x\<in>set tickets. summary x = None) \<or>
       (\<forall>x\<in>set tickets. \<exists>s. summary x = Some s \<and> s \<noteq> [] \<and> CHR '','' \<notin> set s)) \<and>
      ((\<forall>x\<in>set tickets. url x = None) \<or>
       (\<forall>x\<in>set tickets. \<exists>s. url x = Some s \<and> s \<noteq> [] \<and> CHR '','' \<notin> set s)) \<longrightarrow>
      parsed_tickets row = tickets"
  proof
    assume a: "(\<forall>x\<in>set tickets. \<exists>s. key x = Some s \<and> s \<noteq> [] \<and> CHR '','' \<notin> set s) \<and>
      ((\<forall>x\<in>set tickets. summary x = None) \<or>
       (\<forall>x\<in>set tickets. \<exists>s. summary x = Some s \<and> s \<noteq> [] \<and> CHR '','' \<notin> set s)) \<and>
      ((\<forall>x\<in>set tickets. url x = None) \<or>
       (\<forall>x\<in>set tickets. \<exists>s. url x = Some s \<and> s \<noteq> [] \<and> CHR '','' \<notin> set s))"
    show "parsed_tickets row = tickets"
      by (rule parsed_tickets_roundtrip [OF a [THEN conjunct1] a [THEN conjunct2, THEN conjunct1]
            a [THEN conjunct2, THEN conjunct2] ck cs cl])
  qed
  show ?thesis
    apply (rule exI [of _ row], rule exI [of _ d'])
    unfolding i_def [symmetric] now_def [symmetric]
    using cr fe own fresh ck cs cl ch p0 p1 by (intro conjI)
qed

lemma example_no_go_valid: "valid_release example_no_go"
  by (simp add: valid_release_def example_no_go_def calendar_date_def)

lemma example_fk:
  "\<forall>e\<in>set (rows example_excluded_tickets). \<exists>r\<in>set (rows example_releases).
     cell e ''release_id'' = cell r ''id''"
  by (simp add: example_excluded_tickets_def example_releases_def cell_ticket_row
      example_release_row_def cell_release_row)

lemma example_tickets_keys: "\<forall>x\<in>set example_tickets. key x \<noteq> None"
  by (simp add: example_tickets_def)

lemma example_releases_cols: "cols example_releases = releases_columns @ [release_type_column]"
  by (simp add: example_releases_def)

lemma example_tickets_aligned:
  "(\<forall>x\<in>set example_tickets. \<exists>s. key x = Some s \<and> s \<noteq> [] \<and> CHR '','' \<notin> set s) \<and>
      ((\<forall>x\<in>set example_tickets. summary x = None) \<or>
       (\<forall>x\<in>set example_tickets. \<exists>s. summary x = Some s \<and> s \<noteq> [] \<and> CHR '','' \<notin> set s)) \<and>
      ((\<forall>x\<in>set example_tickets. url x = None) \<or>
       (\<forall>x\<in>set example_tickets. \<exists>s. url x = Some s \<and> s \<noteq> [] \<and> CHR '','' \<notin> set s))"
  by (simp add: example_tickets_def)

lemma example_next_rowid: "next_rowid example_releases = 2"
  by code_simp

lemma example_keys_joined:
  "group_concat (map (\<lambda>x. bind (key x)) example_tickets) = TEXT ''ABC-1,ABC-2''"
  by code_simp

theorem createRelease_then_fetch_witness:
  "get_table example_db ''releases'' = Some example_releases \<and>
   cols example_releases = releases_columns @ [release_type_column] \<and>
   get_table example_db ''excluded_tickets'' = Some example_excluded_tickets \<and>
   tickets_schema example_excluded_tickets \<and>
   valid_release example_no_go \<and>
   (\<exists>row db'.
      createRelease example_db example_no_go example_tickets ''b@x.com'' = (Inr (Some row), db') \<and>
      fetchReleaseById db' 2 = (Inr (Some row), db') \<and>
      cell row ''id'' = INTEGER 2 \<and>
      cell row ''status'' = TEXT ''NO_GO'' \<and>
      cell row ''explanation'' = TEXT ''rollback risk'' \<and>
      cell row ''created_by'' = TEXT ''b@x.com'' \<and>
      cell row ''deleted_at'' = NULL \<and>
      cell row ''excluded_tickets'' = TEXT ''ABC-1,ABC-2'' \<and>
      parsed_tickets row = example_tickets)"
proof -
  from createRelease_then_fetch [OF example_db_releases example_releases_cols
      example_db_excluded_tickets example_excluded_tickets_schema example_fk example_no_go_valid
      example_tickets_keys, of "''b@x.com''"]
  obtain row db' where
    1: "createRelease example_db example_no_go example_tickets ''b@x.com'' = (Inr (Some row), db')"
    and 2: "fetchReleaseById db' (next_rowid example_releases) = (Inr (Some row), db')"
    and 3: "cell row ''id'' = INTEGER (next_rowid example_releases)"
    and 4: "cell row ''status'' = bind (status example_no_go)"
    and 5: "cell row ''explanation'' = bind (or_null (explanation example_no_go))"
    and 6: "cell row ''created_by'' = TEXT ''b@x.com''"
    and 7: "cell row ''deleted_at'' = NULL"
    and 8: "cell row ''excluded_tickets'' = group_concat (map (\<lambda>x. bind (key x)) example_tickets)"
    and 9: "(\<forall>x\<in>set example_tickets. \<exists>s. key x = Some s \<and> s \<noteq> [] \<and> CHR '','' \<notin> set s) \<and>
      ((\<forall>x\<in>set example_tickets. summary x = None) \<or>
       (\<forall>x\<in>set example_tickets. \<exists>s. summary x = Some s \<and> s \<noteq> [] \<and> CHR '','' \<notin> set s)) \<and>
      ((\<forall>x\<in>set example_tickets. url x = None) \<or>
       (\<forall>x\<in>set example_tickets. \<exists>s. url x = Some s \<and> s \<noteq> [] \<and> CHR '','' \<notin> set s)) \<longrightarrow>
      parsed_tickets row = example_tickets"
    by blast
  from 9 example_tickets_aligned have 10: "parsed_tickets row = example_tickets" by (rule mp)
  have a: "fetchReleaseById db' 2 = (Inr (Some row), db')" using 2 by (simp add: example_next_rowid)
  have b: "cell row ''id'' = INTEGER 2" using 3 by (simp add: example_next_rowid)
  have c: "cell row ''status'' = TEXT ''NO_GO''" using 4 by (simp add: example_no_go_def bind_def)
  have d: "cell row ''explanation'' = TEXT ''rollback risk''"
    using 5 by (simp add: example_no_go_def bind_def or_null_def)
  have e: "cell row ''excluded_tickets'' = TEXT ''ABC-1,ABC-2''" using 8 by (simp add: example_keys_joined)
  from 1 a b c d 6 7 e 10
  have "\<exists>row db'.
      createRelease example_db example_no_go example_tickets ''b@x.com'' = (Inr (Some row), db') \<and>
      fetchReleaseById db' 2 = (Inr (Some row), db') \<and>
      cell row ''id'' = INTEGER 2 \<and>
      cell row ''status'' = TEXT ''NO_GO'' \<and>
      cell row ''explanation'' = TEXT ''rollback risk'' \<and>
      cell row ''created_by'' = TEXT ''b@x.com'' \<and>
      cell row ''deleted_at'' = NULL \<and>
      cell row ''excluded_tickets'' = TEXT ''ABC-1,ABC-2'' \<and>
      parsed_tickets row = example_tickets"
    by (intro exI [of _ row] exI [of _ db'] conjI)
  with example_db_releases example_releases_cols example_db_excluded_tickets
    example_excluded_tickets_schema example_no_go_valid
  show ?thesis by (intro conjI)
qed

text \<open>
  C6 as the specification states it fails in two places. A ticket whose summary is
  "Fix login, logout" comes back with the summary "Fix login": the record cannot tell a
  comma inside a value from the separator. And an explanation that is the empty string
  comes back as NULL.
\<close>

theorem createRelease_roundtrip_counterexample:
  "(case fst (createRelease fresh_db example_release [ticket_with_comma] ''a@x.com'') of
      Inr (Some row) \<Rightarrow>
        parsed_tickets row =
          [\<lparr>key = Some ''ABC-1'', summary = Some ''Fix login'',
            url = Some ''https://jira.example.com/browse/ABC-1''\<rparr>] \<and>
        parsed_tickets row \<noteq> [ticket_with_comma]
    | _ \<Rightarrow> False) \<and>
   (case fst (createRelease fresh_db (example_release\<lparr>explanation := Some ''''\<rparr>) [] ''a@x.com'') of
      Inr (Some row) \<Rightarrow> cell row ''explanation'' = NULL \<and> cell row ''explanation'' \<noteq> TEXT ''''
    | _ \<Rightarrow> False)"
  by code_simp


text \<open>
  The general form of the failure evaluated above, for C2: on the current schema, a valid
  release and a list with a ticket whose key is \<^verbatim>\<open>null\<close>, \<^verbatim>\<open>createRelease\<close> throws and
  the parent row stays in \<^verbatim>\<open>releases\<close>.
\<close>

lemma createRelease_child_failure:
  assumes t: "get_table db ''releases'' = Some t"
    and c: "cols t = releases_columns @ [release_type_column]"
    and et: "get_table db ''excluded_tickets'' = Some et" and es: "tickets_schema et"
    and v: "valid_release release"
    and k: "\<exists>x\<in>set tickets. key x = None"
  shows "\<exists>db'. createRelease db release tickets u = (Inl (NotNullViolation ''ticket_key''), db') \<and>
     get_table db' ''releases'' =
       Some (t\<lparr>rows := rows t @ [release_row (next_rowid t) (bind (release_date release))
                 (bind (status release)) (bind (release_type release))
                 (bind (or_null (explanation release))) u (current_timestamp db)],
               seq := next_rowid t\<rparr>)"
proof -
  define i where "i = next_rowid t"
  define prow where "prow = release_row i (bind (release_date release)) (bind (status release))
     (bind (release_type release)) (bind (or_null (explanation release))) u (current_timestamp db)"
  define t1 where "t1 = t\<lparr>rows := rows t @ [prow], seq := i\<rparr>"
  define db1 where "db1 = (put_table db ''releases'' t1)\<lparr>last_insert_rowid := i\<rparr>"
  have chk: "check_row (cols t) prow = None"
    using v unfolding c prow_def check_release_row
    by (auto simp add: valid_release_def bind_def split: option.splits)
  have ins: "insert_into db ''releases''
             [(''release_date'', bind (release_date release)),
              (''status'', bind (status release)),
              (''release_type'', bind (release_type release)),
              (''explanation'', bind (or_null (explanation release))),
              (''created_by'', TEXT u)] = (Inr \<lparr>success = True, changes = 1\<rparr>, db1)"
    using insert_release [OF t c, of "bind (release_date release)" "bind (status release)"
        "bind (release_type release)" "bind (or_null (explanation release))" u] chk
    by (simp add: prow_def i_def db1_def t1_def)
  have l1: "last_insert_rowid db1 = i" by (simp add: db1_def)
  have g1: "get_table db1 ''releases'' = Some t1" by (simp add: db1_def get_put_table)
  have e1: "get_table db1 ''excluded_tickets'' = Some et" by (simp add: db1_def get_put_table et)
  have in1: "INTEGER i \<in> set (map (\<lambda>r. cell r ''id'') (rows t1))"
    by (simp add: t1_def prow_def cell_release_row)
  from insert_tickets_null_key [OF e1 es g1 in1 k, of u] obtain d' where
    it: "insert_tickets db1 i tickets u = (Inl (NotNullViolation ''ticket_key''), d')"
    and g2: "get_table d' ''releases'' = Some t1"
    by blast
  have "createRelease db release tickets u = (Inl (NotNullViolation ''ticket_key''), d')"
    by (simp add: createRelease_def ins l1 it)
  with g2 show ?thesis unfolding t1_def prow_def i_def by blast
qed



section \<open>The states the theorems are about\<close>

lemma consistent_same_tables:
  "get_table d' ''releases'' = get_table d ''releases'' \<Longrightarrow>
   get_table d' ''excluded_tickets'' = get_table d ''excluded_tickets'' \<Longrightarrow>
   consistent d \<Longrightarrow> consistent d'"
proof -
  assume a: "get_table d' ''releases'' = get_table d ''releases''"
    and b: "get_table d' ''excluded_tickets'' = get_table d ''excluded_tickets''"
    and c: "consistent d"
  show "consistent d'"
    unfolding consistent_def a b using c unfolding consistent_def .
qed

lemma get_table_clock: "get_table (d\<lparr>current_timestamp := now\<rparr>) n = get_table d n"
  by (simp add: get_table_def)

lemma consistent_new: "consistent (new_database now)"
  by (simp add: consistent_def new_database_def get_table_def)

lemma consistent_alter:
  assumes "consistent d"
  shows "consistent (snd (alter_table_add_column d ''releases'' release_type_column))"
proof (cases "get_table d ''releases''")
  case None
  with assms show ?thesis by (simp add: alter_cases consistent_def)
next
  case (Some t)
  with assms have "has_col t ''release_type''"
    by (auto simp add: consistent_def has_release_type_v2 split: option.splits)
  with Some assms show ?thesis
    by (simp add: alter_cases release_type_column_def consistent_def)
qed

lemma consistent_create_alter:
  assumes "consistent d"
  shows "consistent (snd (alter_table_add_column (create_tables d) ''releases'' release_type_column))"
proof (cases "get_table d ''releases''")
  case None
  with assms have n: "get_table d ''excluded_tickets'' = None" by (simp add: consistent_def)
  have 1: "get_table (create_tables d) ''releases'' = Some \<lparr>cols = releases_columns, rows = [], seq = 0\<rparr>"
    by (simp add: get_table_create_tables None)
  have 2: "get_table (create_tables d) ''excluded_tickets'' =
      Some \<lparr>cols = excluded_tickets_columns, rows = [], seq = 0\<rparr>"
    by (simp add: get_table_create_tables n)
  have 3: "\<not> has_col \<lparr>cols = releases_columns, rows = [], seq = 0\<rparr> ''release_type''"
    by (simp add: no_release_type_v1)
  show ?thesis
    using 3 by (simp add: alter_cases 1 2 release_type_column_def consistent_def get_put_table
        tickets_schema_def)
next
  case (Some t)
  with assms obtain et where et: "get_table d ''excluded_tickets'' = Some et"
    by (auto simp add: consistent_def split: option.splits)
  have "consistent (create_tables d)"
    by (rule consistent_same_tables [OF _ _ assms]) (simp_all add: get_table_create_tables Some et)
  then show ?thesis by (rule consistent_alter)
qed

lemma consistent_Initialize: "consistent d \<Longrightarrow> consistent (apply_call d (Initialize env))"
  using apply_call_Initialize_cases [of d env]
  by (auto simp add: consistent_alter consistent_create_alter simp del: apply_call.simps)

text \<open>The ticket rows the loop adds all point to the release it was given.\<close>

lemma insert_tickets_rows:
  assumes "get_table d ''excluded_tickets'' = Some et" and "tickets_schema et"
  shows "\<exists>et' new. get_table (snd (insert_tickets d i ts u)) ''excluded_tickets'' = Some et' \<and>
     tickets_schema et' \<and> rows et' = rows et @ new \<and>
     (\<forall>r\<in>set new. cell r ''release_id'' = INTEGER i)"
  using assms
proof (induction ts arbitrary: d et)
  case Nil
  then show ?case by simp
next
  case (Cons t ts)
  obtain r d1 where s: "insert_into d ''excluded_tickets''
             [(''release_id'', INTEGER i),
              (''ticket_key'', bind (key t)),
              (''ticket_summary'', bind (summary t)),
              (''ticket_url'', bind (url t)),
              (''created_by'', TEXT u)] = (r, d1)"
    by (cases "insert_into d ''excluded_tickets''
             [(''release_id'', INTEGER i),
              (''ticket_key'', bind (key t)),
              (''ticket_summary'', bind (summary t)),
              (''ticket_url'', bind (url t)),
              (''created_by'', TEXT u)]")
  have c: "cols et = excluded_tickets_columns" using Cons.prems(2) by (simp add: tickets_schema_def)
  from insert_into_cases [OF s] show ?case
  proof (elim disjE exE conjE)
    fix e assume "r = Inl e" "d1 = d"
    then show ?thesis using Cons.prems by (simp add: s)
  next
    fix t' assume r: "r = Inr \<lparr>success = True, changes = 1\<rparr>"
      and g: "get_table d ''excluded_tickets'' = Some t'"
      and d1: "d1 = (put_table d ''excluded_tickets''
             (t'\<lparr>rows := rows t' @ [build_row (cols t') [(''release_id'', INTEGER i),
              (''ticket_key'', bind (key t)),
              (''ticket_summary'', bind (summary t)),
              (''ticket_url'', bind (url t)),
              (''created_by'', TEXT u)] (next_rowid t') (current_timestamp d)],
                seq := next_rowid t'\<rparr>))\<lparr>last_insert_rowid := next_rowid t'\<rparr>"
    from g Cons.prems(1) have tt: "t' = et" by simp
    define row where "row = ticket_row (next_rowid et) i (bind (key t)) (bind (summary t))
        (bind (url t)) u (current_timestamp d)"
    define et1 where "et1 = et\<lparr>rows := rows et @ [row], seq := next_rowid et\<rparr>"
    have 1: "get_table d1 ''excluded_tickets'' = Some et1"
      by (simp add: d1 tt c build_ticket_row get_put_table et1_def row_def)
    have 2: "tickets_schema et1" using Cons.prems(2) by (simp add: et1_def tickets_schema_def)
    from Cons.IH [OF 1 2] obtain et' new where
      n: "get_table (snd (insert_tickets d1 i ts u)) ''excluded_tickets'' = Some et'"
        "tickets_schema et'" "rows et' = rows et1 @ new"
        "\<forall>r\<in>set new. cell r ''release_id'' = INTEGER i"
      by blast
    have a: "rows et' = rows et @ (row # new)" using n(3) by (simp add: et1_def)
    have b: "\<forall>r\<in>set (row # new). cell r ''release_id'' = INTEGER i"
      using n(4) by (simp add: row_def cell_ticket_row)
    show ?thesis
      apply (rule exI [of _ et'], rule exI [of _ "row # new"])
      using n(1) n(2) a b by (simp add: s r)
  qed
qed

lemma consistent_insert_release:
  assumes v: "consistent d"
    and i: "insert_into d ''releases''
             [(''release_date'', dt), (''status'', s), (''release_type'', ty), (''explanation'', e),
              (''created_by'', TEXT u)] = (r, d1)"
  shows "consistent d1 \<and>
    ((\<exists>x. r = Inr x) \<longrightarrow>
       (\<exists>t. get_table d1 ''releases'' = Some t \<and>
          INTEGER (last_insert_rowid d1) \<in> set (map (\<lambda>r. cell r ''id'') (rows t))))"
  using insert_into_cases [OF i]
proof (elim disjE exE conjE)
  fix err assume "r = Inl err" "d1 = d" then show ?thesis using v by simp
next
  fix t
  assume g: "get_table d ''releases'' = Some t"
    and d1: "d1 = (put_table d ''releases''
             (t\<lparr>rows := rows t @ [build_row (cols t) [(''release_date'', dt), (''status'', s),
        (''release_type'', ty), (''explanation'', e), (''created_by'', TEXT u)] (next_rowid t) (current_timestamp d)],
                seq := next_rowid t\<rparr>))\<lparr>last_insert_rowid := next_rowid t\<rparr>"
  from v g obtain et where et: "get_table d ''excluded_tickets'' = Some et"
    and c: "cols t = releases_columns @ [release_type_column]" and es: "tickets_schema et"
    and di: "distinct (map (\<lambda>r. cell r ''id'') (rows t))"
    and fk: "\<forall>e\<in>set (rows et). \<exists>r\<in>set (rows t). cell e ''release_id'' = cell r ''id''"
    by (auto simp add: consistent_def split: option.splits)
  define new where "new = release_row (next_rowid t) dt s ty e u (current_timestamp d)"
  define t' where "t' = t\<lparr>rows := rows t @ [new], seq := next_rowid t\<rparr>"
  have newid: "cell new ''id'' = INTEGER (next_rowid t)"
    by (simp add: new_def cell_release_row)
  have g': "get_table d1 ''releases'' = Some t'"
    by (simp add: d1 get_put_table t'_def new_def c build_release_row)
  have ge': "get_table d1 ''excluded_tickets'' = Some et"
    by (simp add: d1 get_put_table et)
  have fresh: "INTEGER (next_rowid t) \<notin> set (map (\<lambda>r. cell r ''id'') (rows t))"
  proof
    assume "INTEGER (next_rowid t) \<in> set (map (\<lambda>r. cell r ''id'') (rows t))"
    then obtain x where x: "x \<in> set (rows t)" "INTEGER (next_rowid t) = cell x ''id''" by auto
    from fresh_rowid [OF x(1)] x(2) show False by simp
  qed
  have di': "distinct (map (\<lambda>r. cell r ''id'') (rows t'))"
    using di fresh by (simp add: t'_def newid)
  have fk': "\<forall>e\<in>set (rows et). \<exists>r\<in>set (rows t'). cell e ''release_id'' = cell r ''id''"
    using fk by (auto simp add: t'_def)
  have "consistent d1"
    using di' fk' es c by (simp add: consistent_def g' ge' t'_def)
  moreover have "INTEGER (last_insert_rowid d1) \<in> set (map (\<lambda>r. cell r ''id'') (rows t'))"
    by (simp add: d1 t'_def newid)
  ultimately show ?thesis using g' by blast
qed

lemma consistent_Create:
  assumes "consistent d"
  shows "consistent (apply_call d (Create release tickets u))"
proof -
  obtain r d1 where i: "insert_into d ''releases''
             [(''release_date'', bind (release_date release)),
              (''status'', bind (status release)),
              (''release_type'', bind (release_type release)),
              (''explanation'', bind (or_null (explanation release))),
              (''created_by'', TEXT u)] = (r, d1)"
    by (cases "insert_into d ''releases''
             [(''release_date'', bind (release_date release)),
              (''status'', bind (status release)),
              (''release_type'', bind (release_type release)),
              (''explanation'', bind (or_null (explanation release))),
              (''created_by'', TEXT u)]")
  note c1 = consistent_insert_release [OF assms i]
  show ?thesis
  proof (cases r)
    case (Inl e)
    with c1 show ?thesis by (simp add: createRelease_snd i)
  next
    case (Inr x)
    with c1 obtain t where v1: "consistent d1" and t: "get_table d1 ''releases'' = Some t"
      and li: "INTEGER (last_insert_rowid d1) \<in> set (map (\<lambda>r. cell r ''id'') (rows t))"
      by blast
    from v1 t obtain et where et: "get_table d1 ''excluded_tickets'' = Some et"
      and c: "cols t = releases_columns @ [release_type_column]" and es: "tickets_schema et"
      and di: "distinct (map (\<lambda>r. cell r ''id'') (rows t))"
      and fk: "\<forall>e\<in>set (rows et). \<exists>r\<in>set (rows t). cell e ''release_id'' = cell r ''id''"
      by (auto simp add: consistent_def split: option.splits)
    define d2 where "d2 = snd (insert_tickets d1 (last_insert_rowid d1) tickets u)"
    have t2: "get_table d2 ''releases'' = Some t"
      by (simp add: d2_def insert_tickets_other_tables t)
    from insert_tickets_rows [OF et es, of "last_insert_rowid d1" tickets u]
    obtain et' new where e2: "get_table d2 ''excluded_tickets'' = Some et'"
      and es': "tickets_schema et'" and r2: "rows et' = rows et @ new"
      and n: "\<forall>r\<in>set new. cell r ''release_id'' = INTEGER (last_insert_rowid d1)"
      unfolding d2_def by blast
    from li obtain r0 where r0: "r0 \<in> set (rows t)" "cell r0 ''id'' = INTEGER (last_insert_rowid d1)"
      by auto
    have fk': "\<forall>e\<in>set (rows et'). \<exists>r\<in>set (rows t). cell e ''release_id'' = cell r ''id''"
    proof
      fix e assume "e \<in> set (rows et')"
      then consider "e \<in> set (rows et)" | "e \<in> set new" by (auto simp add: r2)
      then show "\<exists>r\<in>set (rows t). cell e ''release_id'' = cell r ''id''"
      proof cases
        case 1
        with fk show ?thesis by blast
      next
        case 2
        with n r0(2) have "cell e ''release_id'' = cell r0 ''id''" by simp
        with r0(1) show ?thesis by blast
      qed
    qed
    have "consistent d2"
      using c es' di fk' by (simp add: consistent_def t2 e2)
    then show ?thesis by (simp add: createRelease_snd i Inr d2_def)
  qed
qed

lemma consistent_Delete:
  assumes v: "consistent d"
  shows "consistent (apply_call d (Delete i u))"
proof -
  define m where "m = (\<lambda>r. if cell r ''id'' = INTEGER i \<and> cell r ''deleted_at'' = NULL
                           then set_cells [(''deleted_at'', TEXT (current_timestamp d)),
                                           (''deleted_by'', TEXT u)] r
                           else r)"
  have c: "cell (m r) ''id'' = cell r ''id''" for r
    by (simp add: m_def cell_update)
  then have ids: "(\<lambda>r. cell r ''id'') \<circ> m = (\<lambda>r. cell r ''id'')"
    by (simp add: fun_eq_iff)
  from deleteRelease_snd_cases [of d i u]
  consider "snd (deleteRelease d i u) = d"
    | t where "get_table d ''releases'' = Some t"
        "snd (deleteRelease d i u) = put_table d ''releases'' (t\<lparr>rows := map m (rows t)\<rparr>)"
    unfolding m_def by blast
  then have "consistent (snd (deleteRelease d i u))"
  proof cases
    case 1
    then show ?thesis using v by simp
  next
    case 2
    from v 2(1) obtain et where et: "get_table d ''excluded_tickets'' = Some et"
      and cc: "cols t = releases_columns @ [release_type_column]" and es: "tickets_schema et"
      and di: "distinct (map (\<lambda>r. cell r ''id'') (rows t))"
      and fk: "\<forall>e\<in>set (rows et). \<exists>r\<in>set (rows t). cell e ''release_id'' = cell r ''id''"
      by (auto simp add: consistent_def split: option.splits)
    have fk': "\<forall>e\<in>set (rows et). \<exists>r\<in>set (map m (rows t)). cell e ''release_id'' = cell r ''id''"
      using fk by (auto simp add: c)
    show ?thesis
      unfolding 2(2) consistent_def
      using cc es di fk' by (simp add: get_put_table et ids del: set_map)
  qed
  then show ?thesis by simp
qed

lemma consistent_Clock: "consistent d \<Longrightarrow> consistent (apply_call d (Clock now))"
  by (simp add: consistent_same_tables [of _ d] get_table_clock)

lemma consistent_apply_call: "consistent d \<Longrightarrow> consistent (apply_call d c)"
  by (cases c)
    (simp_all only: consistent_Initialize consistent_Create consistent_Delete consistent_Clock)

text \<open>
  Every state the system reaches from a database with no table has either no table, or
  both tables with the current columns, distinct release ids and every ticket pointing
  to a release: the conditions under which the theorems on the repository are stated.
\<close>

lemma consistent_run: "consistent (run (new_database now) calls)"
  by (rule run_invariant [where I = consistent, OF consistent_new consistent_apply_call])

lemma consistent_tables:
  assumes "consistent d" and "get_table d ''releases'' = Some t"
  shows "\<exists>et. get_table d ''excluded_tickets'' = Some et \<and> tickets_schema et \<and>
     cols t = releases_columns @ [release_type_column] \<and> releases_schema t \<and>
     distinct (map (\<lambda>r. cell r ''id'') (rows t)) \<and>
     (\<forall>e\<in>set (rows et). \<exists>r\<in>set (rows t). cell e ''release_id'' = cell r ''id'')"
  using assms by (auto simp add: consistent_def releases_schema_def split: option.splits)

end
